(* ===== verification/Prelude.thy ===== *)
theory Prelude
  imports Main "HOL-Library.Word"
begin

text \<open>
  Shared vocabulary of the development: C's fixed-width types, the ways a C execution can go
  wrong, programs as state transformers that either fault or return, and the generic lemmas on
  lists and on the program combinators that the component theories use.
\<close>

section \<open>Fixed-width types\<close>

type_synonym u8 = "8 word"
type_synonym u32 = "32 word"
type_synonym u64 = "64 word"
type_synonym bytes = "u8 list"

text \<open>
  Addresses of objects are natural numbers; a C pointer that may be NULL is an \<open>addr option\<close>.
  C functions passed by pointer (callbacks, allocators) are named by strings.
\<close>

type_synonym addr = nat
type_synonym fn = string

section \<open>Programs\<close>

text \<open>
  Each constructor is one way in which the C execution has no defined result (or aborts in an
  \<open>assert\<close>, or ends the process with a status after a message on the standard error stream);
  \<open>Diverges\<close> stands for a loop that exceeds the number of rounds the model gives it.
  A program maps a state either to such a fault or to a value and the next state.
\<close>

datatype fault =
    Null_Deref
  | Bad_Pointer
  | Out_Of_Bounds
  | Bad_Free
  | Assert_Failed
  | Exited int string
  | Diverges

type_synonym ('w, 'x) prog = "'w \<Rightarrow> fault + ('x \<times> 'w)"

named_theorems prog_defs \<open>unfolding rules of the program combinators\<close>
named_theorems step_simps \<open>what each operation returns, as rewrite rules\<close>

definition ret :: "'x \<Rightarrow> ('w, 'x) prog" where
  "ret x w = Inr (x, w)"

definition bnd :: "('w, 'x) prog \<Rightarrow> ('x \<Rightarrow> ('w, 'y) prog) \<Rightarrow> ('w, 'y) prog" where
  "bnd m f w = (case m w of Inl e \<Rightarrow> Inl e | Inr (x, w') \<Rightarrow> f x w')"

definition seq :: "('w, 'x) prog \<Rightarrow> ('w, 'y) prog \<Rightarrow> ('w, 'y) prog" where
  "seq m k = bnd m (\<lambda>_. k)"

definition fail :: "fault \<Rightarrow> ('w, 'x) prog" where
  "fail e w = Inl e"

definition gets :: "('w \<Rightarrow> 'x) \<Rightarrow> ('w, 'x) prog" where
  "gets f w = Inr (f w, w)"

definition upd :: "('w \<Rightarrow> 'w) \<Rightarrow> ('w, unit) prog" where
  "upd f w = Inr ((), f w)"

text \<open>Reading through a pointer that may be NULL.\<close>

definition deref :: "'x option \<Rightarrow> ('w, 'x) prog" where
  "deref p = (case p of None \<Rightarrow> fail Null_Deref | Some x \<Rightarrow> ret x)"

lemma ret_apply [simp, prog_defs]: "ret x w = Inr (x, w)"
  by (simp add: ret_def)

lemma fail_apply [simp, prog_defs]: "fail e w = Inl e"
  by (simp add: fail_def)

lemma gets_apply [simp, prog_defs]: "gets f w = Inr (f w, w)"
  by (simp add: gets_def)

lemma upd_apply [simp, prog_defs]: "upd f w = Inr ((), f w)"
  by (simp add: upd_def)

lemma deref_apply [simp, prog_defs]:
  "deref None w = Inl Null_Deref" "deref (Some x) w = Inr (x, w)"
  by (simp_all add: deref_def)

lemma bnd_Inr [simp]: "m w = Inr (x, w') \<Longrightarrow> bnd m f w = f x w'"
  by (simp add: bnd_def)

text \<open>The instance for a test that fails, since \<open>False = x\<close> is rewritten to \<open>\<not> x\<close>.\<close>

lemma bnd_Inr_False [simp]: "m w = Inr (False, w') \<Longrightarrow> bnd m f w = f False w'"
  by (simp add: bnd_def)

lemma bnd_Inl [simp]: "m w = Inl e \<Longrightarrow> bnd m f w = Inl e"
  by (simp add: bnd_def)

lemma seq_Inr [simp]: "m w = Inr (x, w') \<Longrightarrow> seq m k w = k w'"
  by (simp add: seq_def bnd_def)

lemma seq_Inl [simp]: "m w = Inl e \<Longrightarrow> seq m k w = Inl e"
  by (simp add: seq_def bnd_def)

text \<open>A sequence returned: then both parts did, the second from where the first stopped.\<close>

lemma bnd_eq_Inr: "bnd m f w = Inr r \<longleftrightarrow> (\<exists>x w'. m w = Inr (x, w') \<and> f x w' = Inr r)"
  by (auto simp: bnd_def split: sum.splits)

lemma seq_eq_Inr: "seq m k w = Inr r \<longleftrightarrow> (\<exists>x w'. m w = Inr (x, w') \<and> k w' = Inr r)"
  by (simp add: seq_def bnd_eq_Inr)

lemma bnd_eq_Inl:
  "bnd m f w = Inl e \<longleftrightarrow> m w = Inl e \<or> (\<exists>x w'. m w = Inr (x, w') \<and> f x w' = Inl e)"
  by (auto simp: bnd_def split: sum.splits)

lemma bnd_assoc: "bnd (bnd m f) g = bnd m (\<lambda>x. bnd (f x) g)"
  by (rule ext) (auto simp: bnd_def split: sum.splits)

text \<open>
  A program keeps a predicate of the state when every run of it that returns, from a state that
  satisfies the predicate, ends in one that does.
\<close>

definition keeps :: "('w \<Rightarrow> bool) \<Rightarrow> ('w, 'x) prog \<Rightarrow> bool" where
  "keeps I m \<longleftrightarrow> (\<forall>w x w'. I w \<longrightarrow> m w = Inr (x, w') \<longrightarrow> I w')"

lemma keepsI: "(\<And>w x w'. I w \<Longrightarrow> m w = Inr (x, w') \<Longrightarrow> I w') \<Longrightarrow> keeps I m"
  by (simp add: keeps_def)

lemma keepsD: "keeps I m \<Longrightarrow> m w = Inr (x, w') \<Longrightarrow> I w \<Longrightarrow> I w'"
  by (auto simp: keeps_def)

named_theorems keeps_intros \<open>rules that build up \<open>keeps\<close> along the program text\<close>

lemma keeps_ret [keeps_intros]: "keeps I (ret x)"
  by (auto intro: keepsI)

lemma keeps_fail [keeps_intros]: "keeps I (fail e)"
  by (auto intro: keepsI)

lemma keeps_gets [keeps_intros]: "keeps I (gets f)"
  by (auto intro: keepsI)

lemma keeps_deref [keeps_intros]: "keeps I (deref p)"
  by (cases p) (auto intro: keepsI)

lemma keeps_upd: "(\<And>w. I w \<Longrightarrow> I (f w)) \<Longrightarrow> keeps I (upd f)"
  by (rule keepsI) auto

lemma keeps_bnd [keeps_intros]: "keeps I m \<Longrightarrow> (\<And>x. keeps I (f x)) \<Longrightarrow> keeps I (bnd m f)"
  by (rule keepsI) (auto simp: bnd_eq_Inr dest: keepsD)

lemma keeps_seq [keeps_intros]: "keeps I m \<Longrightarrow> keeps I k \<Longrightarrow> keeps I (seq m k)"
  by (simp add: seq_def keeps_bnd)

lemma keeps_if [keeps_intros]: "keeps I m \<Longrightarrow> keeps I k \<Longrightarrow> keeps I (if b then m else k)"
  by simp

lemma keeps_case_option [keeps_intros]:
  "keeps I m \<Longrightarrow> (\<And>x. keeps I (f x)) \<Longrightarrow> keeps I (case p of None \<Rightarrow> m | Some x \<Rightarrow> f x)"
  by (cases p) simp_all

section \<open>Conversions between C's integer types\<close>

text \<open>
  \<open>(unsigned)x\<close> and \<open>(int)x\<close> for a wider signed \<open>x\<close>: the value modulo $2^{32}$, read as unsigned
  or as two's complement.
\<close>

definition to_unsigned :: "int \<Rightarrow> u32" where
  "to_unsigned x = word_of_int x"

definition to_int :: "int \<Rightarrow> int" where
  "to_int x = sint (word_of_int x :: u32)"

lemma to_unsigned_of_nat [simp]: "to_unsigned (int n) = of_nat n"
  by (simp add: to_unsigned_def)

lemma unat_to_unsigned: "0 \<le> x \<Longrightarrow> x < 2 ^ 32 \<Longrightarrow> unat (to_unsigned x) = nat x"
  by (simp add: to_unsigned_def unat_eq_nat_uint uint_word_of_int take_bit_int_eq_self)

lemma to_int_id: "- (2 ^ 31) \<le> x \<Longrightarrow> x < 2 ^ 31 \<Longrightarrow> to_int x = x"
  by (simp add: to_int_def signed_of_int signed_take_bit_int_eq_self)

section \<open>Lists\<close>

lemma takeWhile_dropWhile_eq: "xs = takeWhile P xs @ dropWhile P xs"
  by simp

text \<open>Writing a run of elements into a list in place, at an offset.\<close>

definition splice :: "nat \<Rightarrow> 'a list \<Rightarrow> 'a list \<Rightarrow> 'a list" where
  "splice k ys xs = take k xs @ ys @ drop (k + length ys) xs"

lemma length_splice [simp]: "k + length ys \<le> length xs \<Longrightarrow> length (splice k ys xs) = length xs"
  by (simp add: splice_def)

lemma take_splice_before [simp]: "i \<le> k \<Longrightarrow> k \<le> length xs \<Longrightarrow> take i (splice k ys xs) = take i xs"
  by (simp add: splice_def min_def)

lemma take_splice_end:
  "k + length ys \<le> length xs \<Longrightarrow> take (k + length ys) (splice k ys xs) = take k xs @ ys"
  by (simp add: splice_def min_absorb2)

lemma drop_splice:
  "k + length ys \<le> length xs \<Longrightarrow>
   drop (k + length ys) (splice k ys xs) = drop (k + length ys) xs"
  by (simp add: splice_def min_absorb2)

end
