(* ===== verification/UV_Types.thy ===== *)
theory UV_Types
  imports Prelude
begin

text \<open>
  The enumerations and flags of libuv's interface (\<open>uv.h\<close>, with the parts that \<open>uv/unix.h\<close> and
  \<open>uv/win.h\<close> add): their values by C's numbering rule, that a value determines its name, that flags
  can be combined and told apart again, and that the flags for opening files have the same names on
  both platforms.
\<close>

unbundle bit_operations_syntax

section \<open>Enumerations in C\<close>

text \<open>An enumerator without a value has the value of the one before it plus one; the first has 0.\<close>

fun enum_values :: "int \<Rightarrow> (string \<times> int option) list \<Rightarrow> (string \<times> int) list" where
  "enum_values n [] = []"
| "enum_values n ((c, v) # cs) =
     (let k = (case v of None \<Rightarrow> n | Some k \<Rightarrow> k) in (c, k) # enum_values (k + 1) cs)"

definition c_enum :: "(string \<times> int option) list \<Rightarrow> (string \<times> int) list" where
  "c_enum = enum_values 0"

definition unnumbered :: "string list \<Rightarrow> (string \<times> int option) list" where
  "unnumbered cs = map (\<lambda>c. (c, None)) cs"

definition enum_name :: "(string \<times> int) list \<Rightarrow> int \<Rightarrow> string option" where
  "enum_name xs k = map_option fst (find (\<lambda>(c, l). l = k) xs)"

definition combine :: "int list \<Rightarrow> int" where
  "combine ks = foldr (OR) ks 0"

section \<open>Types of handles and requests\<close>

text \<open>The tables name each type twice: in the enumeration, and in the type of the structure.\<close>

definition UV_HANDLE_TYPE_MAP :: "(string \<times> string) list" where
  "UV_HANDLE_TYPE_MAP =
    [(''ASYNC'', ''async''), (''CHECK'', ''check''), (''FS_EVENT'', ''fs_event''),
     (''FS_POLL'', ''fs_poll''), (''HANDLE'', ''handle''), (''IDLE'', ''idle''),
     (''NAMED_PIPE'', ''pipe''), (''POLL'', ''poll''), (''PREPARE'', ''prepare''),
     (''PROCESS'', ''process''), (''STREAM'', ''stream''), (''TCP'', ''tcp''),
     (''TIMER'', ''timer''), (''TTY'', ''tty''), (''UDP'', ''udp''), (''SIGNAL'', ''signal'')]"

definition UV_REQ_TYPE_MAP :: "(string \<times> string) list" where
  "UV_REQ_TYPE_MAP =
    [(''REQ'', ''req''), (''CONNECT'', ''connect''), (''WRITE'', ''write''),
     (''SHUTDOWN'', ''shutdown''), (''UDP_SEND'', ''udp_send''), (''FS'', ''fs''),
     (''WORK'', ''work''), (''GETADDRINFO'', ''getaddrinfo''), (''GETNAMEINFO'', ''getnameinfo''),
     (''RANDOM'', ''random'')]"

definition UV_REQ_TYPE_PRIVATE_unix :: "string list" where
  "UV_REQ_TYPE_PRIVATE_unix = []"

definition UV_REQ_TYPE_PRIVATE_win :: "string list" where
  "UV_REQ_TYPE_PRIVATE_win =
    [''UV_ACCEPT'', ''UV_FS_EVENT_REQ'', ''UV_POLL_REQ'', ''UV_PROCESS_EXIT'', ''UV_READ'',
     ''UV_UDP_RECV'', ''UV_WAKEUP'', ''UV_SIGNAL_REQ'']"

definition uv_handle_type :: "(string \<times> int) list" where
  "uv_handle_type = c_enum
    ([(''UV_UNKNOWN_HANDLE'', Some 0)] @
     unnumbered (map (\<lambda>(uc, lc). ''UV_'' @ uc) UV_HANDLE_TYPE_MAP @ [''UV_FILE'', ''UV_HANDLE_TYPE_MAX'']))"

definition uv_req_type :: "string list \<Rightarrow> (string \<times> int) list" where
  "uv_req_type private = c_enum
    ([(''UV_UNKNOWN_REQ'', Some 0)] @
     unnumbered (map (\<lambda>(uc, lc). ''UV_'' @ uc) UV_REQ_TYPE_MAP @ private @ [''UV_REQ_TYPE_MAX'']))"

section \<open>Modes, kinds and flags\<close>

definition uv_loop_option :: "(string \<times> int) list" where
  "uv_loop_option = c_enum
    [(''UV_LOOP_BLOCK_SIGNAL'', Some 0), (''UV_METRICS_IDLE_TIME'', None)]"

definition uv_run_mode :: "(string \<times> int) list" where
  "uv_run_mode = c_enum
    [(''UV_RUN_DEFAULT'', Some 0), (''UV_RUN_ONCE'', None), (''UV_RUN_NOWAIT'', None)]"

definition uv_membership :: "(string \<times> int) list" where
  "uv_membership = c_enum
    [(''UV_LEAVE_GROUP'', Some 0), (''UV_JOIN_GROUP'', None)]"

definition uv_tcp_flags :: "(string \<times> int) list" where
  "uv_tcp_flags = c_enum
    [(''UV_TCP_IPV6ONLY'', Some 1)]"

definition uv_udp_flags :: "(string \<times> int) list" where
  "uv_udp_flags = c_enum
    [(''UV_UDP_IPV6ONLY'', Some 1), (''UV_UDP_PARTIAL'', Some 2), (''UV_UDP_REUSEADDR'', Some 4),
     (''UV_UDP_MMSG_CHUNK'', Some 8), (''UV_UDP_MMSG_FREE'', Some 16),
     (''UV_UDP_LINUX_RECVERR'', Some 32), (''UV_UDP_RECVMMSG'', Some 256)]"

definition uv_tty_mode_t :: "(string \<times> int) list" where
  "uv_tty_mode_t = c_enum
    [(''UV_TTY_MODE_NORMAL'', None), (''UV_TTY_MODE_RAW'', None), (''UV_TTY_MODE_IO'', None)]"

definition uv_tty_vtermstate_t :: "(string \<times> int) list" where
  "uv_tty_vtermstate_t = c_enum
    [(''UV_TTY_SUPPORTED'', None), (''UV_TTY_UNSUPPORTED'', None)]"

definition uv_poll_event :: "(string \<times> int) list" where
  "uv_poll_event = c_enum
    [(''UV_READABLE'', Some 1), (''UV_WRITABLE'', Some 2), (''UV_DISCONNECT'', Some 4),
     (''UV_PRIORITIZED'', Some 8)]"

definition uv_stdio_flags :: "(string \<times> int) list" where
  "uv_stdio_flags = c_enum
    [(''UV_IGNORE'', Some 0x0), (''UV_CREATE_PIPE'', Some 0x1), (''UV_INHERIT_FD'', Some 0x2),
     (''UV_INHERIT_STREAM'', Some 0x4), (''UV_READABLE_PIPE'', Some 0x10),
     (''UV_WRITABLE_PIPE'', Some 0x20), (''UV_NONBLOCK_PIPE'', Some 0x40),
     (''UV_OVERLAPPED_PIPE'', Some 0x40)]"

definition uv_process_flags :: "(string \<times> int) list" where
  "uv_process_flags = c_enum
    [(''UV_PROCESS_SETUID'', Some (push_bit 0 1)), (''UV_PROCESS_SETGID'', Some (push_bit 1 1)),
     (''UV_PROCESS_WINDOWS_VERBATIM_ARGUMENTS'', Some (push_bit 2 1)),
     (''UV_PROCESS_DETACHED'', Some (push_bit 3 1)),
     (''UV_PROCESS_WINDOWS_HIDE'', Some (push_bit 4 1)),
     (''UV_PROCESS_WINDOWS_HIDE_CONSOLE'', Some (push_bit 5 1)),
     (''UV_PROCESS_WINDOWS_HIDE_GUI'', Some (push_bit 6 1))]"

definition uv_dirent_type_t :: "(string \<times> int) list" where
  "uv_dirent_type_t = c_enum
    [(''UV_DIRENT_UNKNOWN'', None), (''UV_DIRENT_FILE'', None), (''UV_DIRENT_DIR'', None),
     (''UV_DIRENT_LINK'', None), (''UV_DIRENT_FIFO'', None), (''UV_DIRENT_SOCKET'', None),
     (''UV_DIRENT_CHAR'', None), (''UV_DIRENT_BLOCK'', None)]"

definition uv_fs_type :: "(string \<times> int) list" where
  "uv_fs_type = c_enum
    [(''UV_FS_UNKNOWN'', Some (- 1)), (''UV_FS_CUSTOM'', None), (''UV_FS_OPEN'', None),
     (''UV_FS_CLOSE'', None), (''UV_FS_READ'', None), (''UV_FS_WRITE'', None),
     (''UV_FS_SENDFILE'', None), (''UV_FS_STAT'', None), (''UV_FS_LSTAT'', None),
     (''UV_FS_FSTAT'', None), (''UV_FS_FTRUNCATE'', None), (''UV_FS_UTIME'', None),
     (''UV_FS_FUTIME'', None), (''UV_FS_ACCESS'', None), (''UV_FS_CHMOD'', None),
     (''UV_FS_FCHMOD'', None), (''UV_FS_FSYNC'', None), (''UV_FS_FDATASYNC'', None),
     (''UV_FS_UNLINK'', None), (''UV_FS_RMDIR'', None), (''UV_FS_MKDIR'', None),
     (''UV_FS_MKDTEMP'', None), (''UV_FS_RENAME'', None), (''UV_FS_SCANDIR'', None),
     (''UV_FS_LINK'', None), (''UV_FS_SYMLINK'', None), (''UV_FS_READLINK'', None),
     (''UV_FS_CHOWN'', None), (''UV_FS_FCHOWN'', None), (''UV_FS_REALPATH'', None),
     (''UV_FS_COPYFILE'', None), (''UV_FS_LCHOWN'', None), (''UV_FS_OPENDIR'', None),
     (''UV_FS_READDIR'', None), (''UV_FS_CLOSEDIR'', None), (''UV_FS_STATFS'', None),
     (''UV_FS_MKSTEMP'', None), (''UV_FS_LUTIME'', None)]"

definition uv_fs_event :: "(string \<times> int) list" where
  "uv_fs_event = c_enum
    [(''UV_RENAME'', Some 1), (''UV_CHANGE'', Some 2)]"

definition uv_fs_event_flags :: "(string \<times> int) list" where
  "uv_fs_event_flags = c_enum
    [(''UV_FS_EVENT_WATCH_ENTRY'', Some 1), (''UV_FS_EVENT_STAT'', Some 2),
     (''UV_FS_EVENT_RECURSIVE'', Some 4)]"

definition uv_thread_create_flags :: "(string \<times> int) list" where
  "uv_thread_create_flags = c_enum
    [(''UV_THREAD_NO_FLAGS'', Some 0x0), (''UV_THREAD_HAS_STACK_SIZE'', Some 0x1)]"

definition UV_FS_COPYFILE :: "(string \<times> int) list" where
  "UV_FS_COPYFILE =
    [(''UV_FS_COPYFILE_EXCL'', 0x0001), (''UV_FS_COPYFILE_FICLONE'', 0x0002),
     (''UV_FS_COPYFILE_FICLONE_FORCE'', 0x0004)]"

definition UV_FS_SYMLINK :: "(string \<times> int) list" where
  "UV_FS_SYMLINK = [(''UV_FS_SYMLINK_DIR'', 0x0001), (''UV_FS_SYMLINK_JUNCTION'', 0x0002)]"

section \<open>Flags for opening files\<close>

text \<open>
  On Unix a flag has the system's value where the system defines one (\<open>sys\<close>), else 0; \<open>mac\<close> says
  which macros of the compiler are defined. On Windows the values named after the C runtime's are
  \<open>rt\<close>.
\<close>

definition UV_FS_O_defined :: "(string \<Rightarrow> int option) \<Rightarrow> string \<Rightarrow> string \<times> int" where
  "UV_FS_O_defined sys c = (c, case sys (''O_'' @ c) of Some v \<Rightarrow> v | None \<Rightarrow> 0)"

definition UV_FS_O_DIRECT :: "(string \<Rightarrow> bool) \<Rightarrow> (string \<Rightarrow> int option) \<Rightarrow> int" where
  "UV_FS_O_DIRECT mac sys =
     (if mac ''__linux__'' \<and> mac ''__arm__'' then 0x10000
      else if mac ''__linux__'' \<and> mac ''__m68k__'' then 0x10000
      else if mac ''__linux__'' \<and> mac ''__mips__'' then 0x08000
      else if mac ''__linux__'' \<and> mac ''__powerpc__'' then 0x20000
      else if mac ''__linux__'' \<and> mac ''__s390x__'' then 0x04000
      else if mac ''__linux__'' \<and> mac ''__x86_64__'' then 0x04000
      else case sys ''O_DIRECT'' of Some v \<Rightarrow> v | None \<Rightarrow> 0)"

definition UV_FS_O_unix :: "(string \<Rightarrow> bool) \<Rightarrow> (string \<Rightarrow> int option) \<Rightarrow> (string \<times> int) list" where
  "UV_FS_O_unix mac sys =
     map (UV_FS_O_defined sys) [''APPEND'', ''CREAT''] @
     [(''DIRECT'', UV_FS_O_DIRECT mac sys)] @
     map (UV_FS_O_defined sys)
       [''DIRECTORY'', ''DSYNC'', ''EXCL'', ''EXLOCK'', ''NOATIME'', ''NOCTTY'', ''NOFOLLOW'',
        ''NONBLOCK'', ''RDONLY'', ''RDWR'', ''SYMLINK'', ''SYNC'', ''TRUNC'', ''WRONLY''] @
     map (\<lambda>c. (c, 0)) [''FILEMAP'', ''RANDOM'', ''SHORT_LIVED'', ''SEQUENTIAL'', ''TEMPORARY'']"

definition UV_FS_O_win :: "(string \<Rightarrow> int) \<Rightarrow> (string \<times> int) list" where
  "UV_FS_O_win rt =
    [(''APPEND'', rt ''_O_APPEND''), (''CREAT'', rt ''_O_CREAT''), (''EXCL'', rt ''_O_EXCL''),
     (''FILEMAP'', 0x20000000), (''RANDOM'', rt ''_O_RANDOM''), (''RDONLY'', rt ''_O_RDONLY''),
     (''RDWR'', rt ''_O_RDWR''), (''SEQUENTIAL'', rt ''_O_SEQUENTIAL''),
     (''SHORT_LIVED'', rt ''_O_SHORT_LIVED''), (''TEMPORARY'', rt ''_O_TEMPORARY''),
     (''TRUNC'', rt ''_O_TRUNC''), (''WRONLY'', rt ''_O_WRONLY''), (''DIRECT'', 0x02000000),
     (''DIRECTORY'', 0), (''DSYNC'', 0x04000000), (''EXLOCK'', 0x10000000), (''NOATIME'', 0),
     (''NOCTTY'', 0), (''NOFOLLOW'', 0), (''NONBLOCK'', 0), (''SYMLINK'', 0), (''SYNC'', 0x08000000)]"

section \<open>Values and names\<close>

text \<open>What a user of an enumeration relies on: a name has one value and a value one name.\<close>

locale enumeration =
  fixes xs :: "(string \<times> int) list"
  assumes names: "distinct (map fst xs)" and codes: "distinct (map snd xs)"
begin

lemma find_value:
  assumes "distinct (map snd ys)" and "(c, k) \<in> set ys"
  shows "find (\<lambda>(c, l). l = k) ys = Some (c, k)"
  using assms by (induction ys) (auto simp: image_iff)

lemma value_name: "(c, k) \<in> set xs \<Longrightarrow> map_of xs c = Some k \<and> enum_name xs k = Some c"
  using find_value [OF codes] names by (simp add: enum_name_def)

end

lemma or_absorb: "k OR k AND a = k" "k AND a OR k = (k :: int)"
  by (auto intro: bit_eqI simp: bit_simps)

text \<open>
  Flags are moreover bits apart from each other, so that a flag can be tested in any combination.
\<close>

locale flags = enumeration +
  assumes nonzero: "k \<in> set (map snd xs) \<Longrightarrow> k \<noteq> 0"
    and disjoint: "k \<in> set (map snd xs) \<Longrightarrow> l \<in> set (map snd xs) \<Longrightarrow> k \<noteq> l \<Longrightarrow> k AND l = 0"
begin

lemma combine_outside: "set ks \<subseteq> set (map snd xs) \<Longrightarrow> k \<in> set (map snd xs) \<Longrightarrow> k \<notin> set ks \<Longrightarrow> k AND combine ks = 0"
  by (induction ks) (auto simp: combine_def bit.conj_disj_distrib disjoint)

lemma combine_inside: "k \<in> set ks \<Longrightarrow> k AND combine ks = k"
  by (induction ks) (auto simp: combine_def bit.conj_disj_distrib or_absorb)

lemma flag_recovered:
  assumes "set ks \<subseteq> set (map snd xs)" and "k \<in> set (map snd xs)"
  shows "k AND combine ks \<noteq> 0 \<longleftrightarrow> k \<in> set ks"
  using combine_outside [OF assms] combine_inside [of k ks] nonzero [OF assms(2)] by metis

end

text \<open>The tests of both laws on a concrete table.\<close>

definition is_enumeration :: "(string \<times> int) list \<Rightarrow> bool" where
  "is_enumeration xs \<longleftrightarrow> distinct (map fst xs) \<and> distinct (map snd xs)"

fun apart :: "int list \<Rightarrow> bool" where
  "apart [] = True"
| "apart (k # ks) \<longleftrightarrow> k \<noteq> 0 \<and> list_all (\<lambda>l. k AND l = 0) ks \<and> apart ks"

lemma apart_nonzero: "apart ks \<Longrightarrow> k \<in> set ks \<Longrightarrow> k \<noteq> 0"
  by (induction ks) auto

lemma apart_disjoint: "apart ks \<Longrightarrow> k \<in> set ks \<Longrightarrow> l \<in> set ks \<Longrightarrow> k \<noteq> l \<Longrightarrow> k AND l = 0"
  by (induction ks) (auto simp: list_all_iff and.commute)

lemma enumerationI: "is_enumeration xs \<Longrightarrow> enumeration xs"
  by unfold_locales (simp_all add: is_enumeration_def)

lemma flagsI: "is_enumeration xs \<Longrightarrow> apart (map snd xs) \<Longrightarrow> flags xs"
  using apart_nonzero [of "map snd xs"] apart_disjoint [of "map snd xs"]
  by (intro flags.intro enumerationI flags_axioms.intro) auto

text \<open>Of the flags for standard streams and threads, without the empty one and the old name.\<close>

definition stdio_bits :: "(string \<times> int) list" where
  "stdio_bits = filter (\<lambda>(c, k). c \<notin> {''UV_IGNORE'', ''UV_OVERLAPPED_PIPE''}) uv_stdio_flags"

interpretation uv_handle_type: enumeration uv_handle_type by (rule enumerationI) code_simp
interpretation uv_req_type_unix: enumeration "uv_req_type UV_REQ_TYPE_PRIVATE_unix" by (rule enumerationI) code_simp
interpretation uv_req_type_win: enumeration "uv_req_type UV_REQ_TYPE_PRIVATE_win" by (rule enumerationI) code_simp
interpretation uv_loop_option: enumeration uv_loop_option by (rule enumerationI) code_simp
interpretation uv_run_mode: enumeration uv_run_mode by (rule enumerationI) code_simp
interpretation uv_membership: enumeration uv_membership by (rule enumerationI) code_simp
interpretation uv_tty_mode_t: enumeration uv_tty_mode_t by (rule enumerationI) code_simp
interpretation uv_tty_vtermstate_t: enumeration uv_tty_vtermstate_t by (rule enumerationI) code_simp
interpretation uv_dirent_type_t: enumeration uv_dirent_type_t by (rule enumerationI) code_simp
interpretation uv_fs_type: enumeration uv_fs_type by (rule enumerationI) code_simp
interpretation uv_thread_create_flags: enumeration uv_thread_create_flags by (rule enumerationI) code_simp
interpretation uv_tcp_flags: flags uv_tcp_flags by (rule flagsI; code_simp)
interpretation uv_udp_flags: flags uv_udp_flags by (rule flagsI; code_simp)
interpretation uv_poll_event: flags uv_poll_event by (rule flagsI; code_simp)
interpretation stdio_bits: flags stdio_bits by (rule flagsI; code_simp)
interpretation uv_process_flags: flags uv_process_flags by (rule flagsI; code_simp)
interpretation uv_fs_event: flags uv_fs_event by (rule flagsI; code_simp)
interpretation uv_fs_event_flags: flags uv_fs_event_flags by (rule flagsI; code_simp)
interpretation UV_FS_COPYFILE: flags UV_FS_COPYFILE by (rule flagsI; code_simp)
interpretation UV_FS_SYMLINK: flags UV_FS_SYMLINK by (rule flagsI; code_simp)

section \<open>Properties\<close>

text \<open>Every enumeration of \<open>uv.h\<close> can be read back: a name has one value, and from the value its
  name is found again, on Unix and on Windows, where requests have further types.\<close>

theorem uv_enums_roundtrip:
  assumes "E \<in> {uv_handle_type, uv_req_type UV_REQ_TYPE_PRIVATE_unix, uv_req_type UV_REQ_TYPE_PRIVATE_win,
      uv_loop_option, uv_run_mode, uv_membership, uv_tty_mode_t, uv_tty_vtermstate_t, uv_dirent_type_t,
      uv_fs_type, uv_thread_create_flags}"
    and "(c, k) \<in> set E"
  shows "map_of E c = Some k \<and> enum_name E k = Some c"
proof -
  have "enumeration E"
    using assms(1) uv_handle_type.enumeration_axioms uv_req_type_unix.enumeration_axioms
      uv_req_type_win.enumeration_axioms uv_loop_option.enumeration_axioms uv_run_mode.enumeration_axioms
      uv_membership.enumeration_axioms uv_tty_mode_t.enumeration_axioms
      uv_tty_vtermstate_t.enumeration_axioms uv_dirent_type_t.enumeration_axioms
      uv_fs_type.enumeration_axioms uv_thread_create_flags.enumeration_axioms
    by (elim insertE emptyE) simp_all
  then show ?thesis using assms(2) by (rule enumeration.value_name)
qed

theorem uv_enums_roundtrip_witness:
  "map_of uv_handle_type ''UV_TCP'' = Some 12 \<and> enum_name uv_handle_type 12 = Some ''UV_TCP''"
proof -
  have "(''UV_TCP'', 12) \<in> set uv_handle_type" by code_simp
  then show ?thesis using uv_enums_roundtrip [of uv_handle_type "''UV_TCP''" 12] by simp
qed



text \<open>
  The flags for opening files have the same names on Unix and on Windows, so a program that uses one
  compiles on both, whatever the system defines.
\<close>

lemma UV_FS_O_names:
  "map fst (UV_FS_O_unix mac sys) =
    [''APPEND'', ''CREAT'', ''DIRECT'', ''DIRECTORY'', ''DSYNC'', ''EXCL'', ''EXLOCK'', ''NOATIME'', ''NOCTTY'', ''NOFOLLOW'',
        ''NONBLOCK'', ''RDONLY'', ''RDWR'', ''SYMLINK'', ''SYNC'', ''TRUNC'', ''WRONLY'',
      ''FILEMAP'', ''RANDOM'', ''SHORT_LIVED'', ''SEQUENTIAL'', ''TEMPORARY'']"
  "map fst (UV_FS_O_win rt) =
    [''APPEND'', ''CREAT'', ''EXCL'', ''FILEMAP'', ''RANDOM'', ''RDONLY'', ''RDWR'', ''SEQUENTIAL'',
      ''SHORT_LIVED'', ''TEMPORARY'', ''TRUNC'', ''WRONLY'', ''DIRECT'', ''DIRECTORY'', ''DSYNC'', ''EXLOCK'',
      ''NOATIME'', ''NOCTTY'', ''NOFOLLOW'', ''NONBLOCK'', ''SYMLINK'', ''SYNC'']"
  by (simp_all add: UV_FS_O_unix_def UV_FS_O_win_def UV_FS_O_defined_def)

lemma open_flags_portable:
  "distinct (map fst (UV_FS_O_unix mac sys)) \<and> distinct (map fst (UV_FS_O_win rt)) \<and>
   set (map fst (UV_FS_O_unix mac sys)) = set (map fst (UV_FS_O_win rt))"
  unfolding UV_FS_O_names by code_simp

text \<open>A flag the system lacks is 0, so asking for it changes nothing.\<close>

lemma open_flags_missing:
  assumes "(c, v) \<in> set (UV_FS_O_unix mac sys)" and "sys (''O_'' @ c) = None" and "c \<noteq> ''DIRECT''"
  shows "v = 0"
  using assms unfolding UV_FS_O_unix_def set_append set_map Un_iff
  by (elim disjE) (auto simp only: UV_FS_O_defined_def image_iff prod.inject option.case set_simps singleton_iff simp_thms)

end
