(* ===== verification/Headers.thy ===== *)
theory Headers
  imports Prelude
begin

text \<open>
  Two of libuv's headers that compute: \<open>uv/stdint-msvc2008.h\<close>, which gives the compilers of Microsoft that
  have no \<open>stdint.h\<close> its types, limits and constants, and \<open>uv/version.h\<close>. The compiler's own limits
  (\<open>limits.h\<close>) are a parameter.
\<close>

section \<open>Integer types of the compiler\<close>

text \<open>The compiler's version and whether it compiles for 64 bits.\<close>

record msvc =
  MSC_VER :: nat
  WIN64 :: bool

datatype ctype = Signed nat | Unsigned nat

fun ctype_min :: "ctype \<Rightarrow> int" where
  "ctype_min (Signed n) = - (2 ^ (n - 1))"
| "ctype_min (Unsigned n) = 0"

fun ctype_max :: "ctype \<Rightarrow> int" where
  "ctype_max (Signed n) = 2 ^ (n - 1) - 1"
| "ctype_max (Unsigned n) = 2 ^ n - 1"

text \<open>Conversion to a type, as a cast does it.\<close>

fun cast :: "ctype \<Rightarrow> int \<Rightarrow> int" where
  "cast (Signed n) x = (x + 2 ^ (n - 1)) mod 2 ^ n - 2 ^ (n - 1)"
| "cast (Unsigned n) x = x mod 2 ^ n"

definition signed_char :: ctype where "signed_char = Signed 8"
definition signed_short :: ctype where "signed_short = Signed 16"
definition signed_int :: ctype where "signed_int = Signed 32"
definition unsigned_char :: ctype where "unsigned_char = Unsigned 8"
definition unsigned_short :: ctype where "unsigned_short = Unsigned 16"
definition unsigned_int :: ctype where "unsigned_int = Unsigned 32"

lemmas base_types =
  signed_char_def signed_short_def signed_int_def unsigned_char_def unsigned_short_def unsigned_int_def

section \<open>uv/stdint-msvc2008.h\<close>

text \<open>A \<open>typedef\<close> names a type of the compiler or one defined before it.\<close>

datatype tydef = Ty ctype | As string

definition exact_types :: "msvc \<Rightarrow> (string \<times> tydef) list" where
  "exact_types cc =
     (if MSC_VER cc < 1300 then
        [(''int8_t'', Ty signed_char), (''int16_t'', Ty signed_short), (''int32_t'', Ty signed_int),
         (''uint8_t'', Ty unsigned_char), (''uint16_t'', Ty unsigned_short), (''uint32_t'', Ty unsigned_int)]
      else
        [(''int8_t'', Ty (Signed 8)), (''int16_t'', Ty (Signed 16)), (''int32_t'', Ty (Signed 32)),
         (''uint8_t'', Ty (Unsigned 8)), (''uint16_t'', Ty (Unsigned 16)), (''uint32_t'', Ty (Unsigned 32))]) @
     [(''int64_t'', Ty (Signed 64)), (''uint64_t'', Ty (Unsigned 64))]"

definition least_types :: "(string \<times> tydef) list" where
  "least_types =
     [(''int_least8_t'', As ''int8_t''), (''int_least16_t'', As ''int16_t''), (''int_least32_t'', As ''int32_t''),
      (''int_least64_t'', As ''int64_t''), (''uint_least8_t'', As ''uint8_t''), (''uint_least16_t'', As ''uint16_t''),
      (''uint_least32_t'', As ''uint32_t''), (''uint_least64_t'', As ''uint64_t'')]"

definition fast_types :: "(string \<times> tydef) list" where
  "fast_types =
     [(''int_fast8_t'', As ''int8_t''), (''int_fast16_t'', As ''int16_t''), (''int_fast32_t'', As ''int32_t''),
      (''int_fast64_t'', As ''int64_t''), (''uint_fast8_t'', As ''uint8_t''), (''uint_fast16_t'', As ''uint16_t''),
      (''uint_fast32_t'', As ''uint32_t''), (''uint_fast64_t'', As ''uint64_t'')]"

definition pointer_types :: "msvc \<Rightarrow> (string \<times> tydef) list" where
  "pointer_types cc =
     (if WIN64 cc then [(''intptr_t'', Ty (Signed 64)), (''uintptr_t'', Ty (Unsigned 64))]
      else [(''intptr_t'', Ty signed_int), (''uintptr_t'', Ty unsigned_int)])"

definition greatest_types :: "(string \<times> tydef) list" where
  "greatest_types = [(''intmax_t'', As ''int64_t''), (''uintmax_t'', As ''uint64_t'')]"

definition stdint_types :: "msvc \<Rightarrow> (string \<times> tydef) list" where
  "stdint_types cc = exact_types cc @ least_types @ fast_types @ pointer_types cc @ greatest_types"

text \<open>What is defined so far, the last definition first; one that makes no sense has no value.\<close>

type_synonym 'v defs = "(string \<times> 'v option) list"

definition lookup :: "'v defs \<Rightarrow> string \<Rightarrow> 'v option" where
  "lookup D x = (case map_of D x of None \<Rightarrow> None | Some v \<Rightarrow> v)"

fun define_types :: "(string \<times> tydef) list \<Rightarrow> ctype defs \<Rightarrow> ctype defs" where
  "define_types [] T = T"
| "define_types ((x, d) # ds) T = define_types ds ((x, case d of Ty t \<Rightarrow> Some t | As y \<Rightarrow> lookup T y) # T)"

definition type_table :: "msvc \<Rightarrow> ctype defs" where
  "type_table cc = define_types (stdint_types cc) []"

text \<open>A macro expands to a number, another macro, or a cast of one.\<close>

datatype mexp = Num int | Mac string | Cast string string

definition exact_limits :: "(string \<times> mexp) list" where
  "exact_limits =
     [(''INT8_MIN'', Cast ''int8_t'' ''_I8_MIN''), (''INT8_MAX'', Mac ''_I8_MAX''),
      (''INT16_MIN'', Cast ''int16_t'' ''_I16_MIN''), (''INT16_MAX'', Mac ''_I16_MAX''),
      (''INT32_MIN'', Cast ''int32_t'' ''_I32_MIN''), (''INT32_MAX'', Mac ''_I32_MAX''),
      (''INT64_MIN'', Cast ''int64_t'' ''_I64_MIN''), (''INT64_MAX'', Mac ''_I64_MAX''),
      (''UINT8_MAX'', Mac ''_UI8_MAX''), (''UINT16_MAX'', Mac ''_UI16_MAX''),
      (''UINT32_MAX'', Mac ''_UI32_MAX''), (''UINT64_MAX'', Mac ''_UI64_MAX'')]"

definition least_limits :: "(string \<times> mexp) list" where
  "least_limits =
     [(''INT_LEAST8_MIN'', Mac ''INT8_MIN''), (''INT_LEAST8_MAX'', Mac ''INT8_MAX''),
      (''INT_LEAST16_MIN'', Mac ''INT16_MIN''), (''INT_LEAST16_MAX'', Mac ''INT16_MAX''),
      (''INT_LEAST32_MIN'', Mac ''INT32_MIN''), (''INT_LEAST32_MAX'', Mac ''INT32_MAX''),
      (''INT_LEAST64_MIN'', Mac ''INT64_MIN''), (''INT_LEAST64_MAX'', Mac ''INT64_MAX''),
      (''UINT_LEAST8_MAX'', Mac ''UINT8_MAX''), (''UINT_LEAST16_MAX'', Mac ''UINT16_MAX''),
      (''UINT_LEAST32_MAX'', Mac ''UINT32_MAX''), (''UINT_LEAST64_MAX'', Mac ''UINT64_MAX'')]"

definition fast_limits :: "(string \<times> mexp) list" where
  "fast_limits =
     [(''INT_FAST8_MIN'', Mac ''INT8_MIN''), (''INT_FAST8_MAX'', Mac ''INT8_MAX''),
      (''INT_FAST16_MIN'', Mac ''INT16_MIN''), (''INT_FAST16_MAX'', Mac ''INT16_MAX''),
      (''INT_FAST32_MIN'', Mac ''INT32_MIN''), (''INT_FAST32_MAX'', Mac ''INT32_MAX''),
      (''INT_FAST64_MIN'', Mac ''INT64_MIN''), (''INT_FAST64_MAX'', Mac ''INT64_MAX''),
      (''UINT_FAST8_MAX'', Mac ''UINT8_MAX''), (''UINT_FAST16_MAX'', Mac ''UINT16_MAX''),
      (''UINT_FAST32_MAX'', Mac ''UINT32_MAX''), (''UINT_FAST64_MAX'', Mac ''UINT64_MAX'')]"

definition pointer_limits :: "msvc \<Rightarrow> (string \<times> mexp) list" where
  "pointer_limits cc =
     (if WIN64 cc then
        [(''INTPTR_MIN'', Mac ''INT64_MIN''), (''INTPTR_MAX'', Mac ''INT64_MAX''), (''UINTPTR_MAX'', Mac ''UINT64_MAX'')]
      else
        [(''INTPTR_MIN'', Mac ''INT32_MIN''), (''INTPTR_MAX'', Mac ''INT32_MAX''), (''UINTPTR_MAX'', Mac ''UINT32_MAX'')])"

definition greatest_limits :: "(string \<times> mexp) list" where
  "greatest_limits =
     [(''INTMAX_MIN'', Mac ''INT64_MIN''), (''INTMAX_MAX'', Mac ''INT64_MAX''), (''UINTMAX_MAX'', Mac ''UINT64_MAX'')]"

text \<open>The last three are defined only if they are not yet.\<close>

definition other_limits :: "msvc \<Rightarrow> int defs \<Rightarrow> (string \<times> mexp) list" where
  "other_limits cc M =
     (if WIN64 cc then [(''PTRDIFF_MIN'', Mac ''_I64_MIN''), (''PTRDIFF_MAX'', Mac ''_I64_MAX'')]
      else [(''PTRDIFF_MIN'', Mac ''_I32_MIN''), (''PTRDIFF_MAX'', Mac ''_I32_MAX'')]) @
     [(''SIG_ATOMIC_MIN'', Mac ''INT_MIN''), (''SIG_ATOMIC_MAX'', Mac ''INT_MAX'')] @
     (if map_of M ''SIZE_MAX'' = None then
        (if WIN64 cc then [(''SIZE_MAX'', Mac ''_UI64_MAX'')] else [(''SIZE_MAX'', Mac ''_UI32_MAX'')]) else []) @
     (if map_of M ''WCHAR_MIN'' = None then [(''WCHAR_MIN'', Num 0)] else []) @
     (if map_of M ''WCHAR_MAX'' = None then [(''WCHAR_MAX'', Mac ''_UI16_MAX'')] else []) @
     [(''WINT_MIN'', Num 0), (''WINT_MAX'', Mac ''_UI16_MAX'')]"

definition stdint_limits :: "msvc \<Rightarrow> int defs \<Rightarrow> (string \<times> mexp) list" where
  "stdint_limits cc M =
     exact_limits @ least_limits @ fast_limits @ pointer_limits cc @ greatest_limits @ other_limits cc M"

fun expand :: "ctype defs \<Rightarrow> int defs \<Rightarrow> mexp \<Rightarrow> int option" where
  "expand T M (Num n) = Some n"
| "expand T M (Mac x) = lookup M x"
| "expand T M (Cast t x) =
     (case lookup T t of None \<Rightarrow> None | Some ty \<Rightarrow> map_option (cast ty) (lookup M x))"

fun define_macros :: "ctype defs \<Rightarrow> (string \<times> mexp) list \<Rightarrow> int defs \<Rightarrow> int defs" where
  "define_macros T [] M = M"
| "define_macros T ((x, d) # ds) M = define_macros T ds ((x, expand T M d) # M)"

text \<open>The macros after the header, \<open>M\<close> being those defined before it.\<close>

definition macro_table :: "msvc \<Rightarrow> int defs \<Rightarrow> int defs" where
  "macro_table cc M = define_macros (type_table cc) (stdint_limits cc M) M"

text \<open>\<open>INT8_C(val)\<close> and its kin paste a suffix to their argument.\<close>

definition const_macros :: "(string \<times> string) list" where
  "const_macros =
     [(''INT8_C'', ''i8''), (''INT16_C'', ''i16''), (''INT32_C'', ''i32''), (''INT64_C'', ''i64''),
      (''UINT8_C'', ''ui8''), (''UINT16_C'', ''ui16''), (''UINT32_C'', ''ui32''), (''UINT64_C'', ''ui64'')] @
     [(''INTMAX_C'', ''i64''), (''UINTMAX_C'', ''ui64'')]"

definition const_named :: "string \<Rightarrow> string \<Rightarrow> string option" where
  "const_named x val = map_option (\<lambda>suf. val @ suf) (map_of const_macros x)"

section \<open>What \<open>stdint.h\<close> has to provide\<close>

text \<open>What Microsoft documents of \<open>limits.h\<close>: the limits of its sized types and of \<open>int\<close>.\<close>

definition documented_limits :: "int defs" where
  "documented_limits =
     [(''_I8_MIN'', Some (- 128)), (''_I8_MAX'', Some 127), (''_I16_MIN'', Some (- 32768)), (''_I16_MAX'', Some 32767),
      (''_I32_MIN'', Some (- 2147483648)), (''_I32_MAX'', Some 2147483647),
      (''_I64_MIN'', Some (- 9223372036854775808)), (''_I64_MAX'', Some 9223372036854775807),
      (''_UI8_MAX'', Some 255), (''_UI16_MAX'', Some 65535), (''_UI32_MAX'', Some 4294967295),
      (''_UI64_MAX'', Some 18446744073709551615), (''INT_MIN'', Some (- 2147483648)), (''INT_MAX'', Some 2147483647)]"

definition has_limits_h :: "int defs \<Rightarrow> bool" where
  "has_limits_h M \<longleftrightarrow> list_all (\<lambda>(x, v). lookup M x = v) documented_limits"

text \<open>The width of a pointer.\<close>

definition pointer_bits :: "msvc \<Rightarrow> nat" where
  "pointer_bits cc = (if WIN64 cc then 64 else 32)"


text \<open>
  For each type its width and the macros of its limits (an unsigned type has no macro for the lower one).
\<close>

definition signed_names :: "msvc \<Rightarrow> (string \<times> string \<times> string \<times> nat) list" where
  "signed_names cc =
     [(''int8_t'', ''INT8_MIN'', ''INT8_MAX'', 8), (''int16_t'', ''INT16_MIN'', ''INT16_MAX'', 16),
      (''int32_t'', ''INT32_MIN'', ''INT32_MAX'', 32), (''int64_t'', ''INT64_MIN'', ''INT64_MAX'', 64),
      (''int_least8_t'', ''INT_LEAST8_MIN'', ''INT_LEAST8_MAX'', 8),
      (''int_least16_t'', ''INT_LEAST16_MIN'', ''INT_LEAST16_MAX'', 16),
      (''int_least32_t'', ''INT_LEAST32_MIN'', ''INT_LEAST32_MAX'', 32),
      (''int_least64_t'', ''INT_LEAST64_MIN'', ''INT_LEAST64_MAX'', 64),
      (''int_fast8_t'', ''INT_FAST8_MIN'', ''INT_FAST8_MAX'', 8),
      (''int_fast16_t'', ''INT_FAST16_MIN'', ''INT_FAST16_MAX'', 16),
      (''int_fast32_t'', ''INT_FAST32_MIN'', ''INT_FAST32_MAX'', 32),
      (''int_fast64_t'', ''INT_FAST64_MIN'', ''INT_FAST64_MAX'', 64),
      (''intptr_t'', ''INTPTR_MIN'', ''INTPTR_MAX'', pointer_bits cc),
      (''intmax_t'', ''INTMAX_MIN'', ''INTMAX_MAX'', 64)]"

definition unsigned_names :: "msvc \<Rightarrow> (string \<times> string \<times> nat) list" where
  "unsigned_names cc =
     [(''uint8_t'', ''UINT8_MAX'', 8), (''uint16_t'', ''UINT16_MAX'', 16), (''uint32_t'', ''UINT32_MAX'', 32),
      (''uint64_t'', ''UINT64_MAX'', 64), (''uint_least8_t'', ''UINT_LEAST8_MAX'', 8),
      (''uint_least16_t'', ''UINT_LEAST16_MAX'', 16), (''uint_least32_t'', ''UINT_LEAST32_MAX'', 32),
      (''uint_least64_t'', ''UINT_LEAST64_MAX'', 64), (''uint_fast8_t'', ''UINT_FAST8_MAX'', 8),
      (''uint_fast16_t'', ''UINT_FAST16_MAX'', 16), (''uint_fast32_t'', ''UINT_FAST32_MAX'', 32),
      (''uint_fast64_t'', ''UINT_FAST64_MAX'', 64),
      (''uintptr_t'', ''UINTPTR_MAX'', pointer_bits cc), (''uintmax_t'', ''UINTMAX_MAX'', 64)]"

text \<open>What Microsoft documents of the suffixes of constants.\<close>

definition suffix_types :: "(string \<times> ctype) list" where
  "suffix_types =
     [(''i8'', Signed 8), (''i16'', Signed 16), (''i32'', Signed 32), (''i64'', Signed 64),
      (''ui8'', Unsigned 8), (''ui16'', Unsigned 16), (''ui32'', Unsigned 32), (''ui64'', Unsigned 64)]"

definition const_names :: "(string \<times> string) list" where
  "const_names =
     [(''INT8_C'', ''int_least8_t''), (''INT16_C'', ''int_least16_t''), (''INT32_C'', ''int_least32_t''),
      (''INT64_C'', ''int_least64_t''), (''UINT8_C'', ''uint_least8_t''), (''UINT16_C'', ''uint_least16_t''),
      (''UINT32_C'', ''uint_least32_t''), (''UINT64_C'', ''uint_least64_t''), (''INTMAX_C'', ''intmax_t''),
      (''UINTMAX_C'', ''uintmax_t'')]"

lemma exact_types_eq:
  "exact_types cc =
     [(''int8_t'', Ty (Signed 8)), (''int16_t'', Ty (Signed 16)), (''int32_t'', Ty (Signed 32)),
      (''uint8_t'', Ty (Unsigned 8)), (''uint16_t'', Ty (Unsigned 16)), (''uint32_t'', Ty (Unsigned 32)),
      (''int64_t'', Ty (Signed 64)), (''uint64_t'', Ty (Unsigned 64))]"
  by (simp add: exact_types_def base_types)

lemma pointer_types_eq:
  "pointer_types cc = [(''intptr_t'', Ty (Signed (pointer_bits cc))), (''uintptr_t'', Ty (Unsigned (pointer_bits cc)))]"
  by (simp add: pointer_types_def pointer_bits_def base_types)

lemma lookup_simps [simp]:
  "lookup [] x = None" "lookup ((y, v) # D) x = (if x = y then v else lookup D x)"
  by (auto simp: lookup_def)

lemma define_macros_append:
  "define_macros T (ds @ es) M = define_macros T es (define_macros T ds M)"
  by (induction ds arbitrary: M) auto

lemma define_macros_other:
  "x \<notin> fst ` set ds \<Longrightarrow> lookup (define_macros T ds M) x = lookup M x"
  by (induction ds arbitrary: M) auto

text \<open>
  What the definitions \<open>ds\<close> make of the macros depends only on the macros they use, if each uses
  those of \<open>S\<close> and those defined before it.
\<close>

fun used :: "mexp \<Rightarrow> string list" where
  "used (Num n) = []"
| "used (Mac x) = [x]"
| "used (Cast t x) = [x]"

fun uses_only :: "string list \<Rightarrow> (string \<times> mexp) list \<Rightarrow> bool" where
  "uses_only S [] = True"
| "uses_only S ((x, d) # ds) = (list_all (\<lambda>y. y \<in> set S) (used d) \<and> uses_only (x # S) ds)"

lemma expand_cong: "\<forall>y \<in> set (used d). lookup M y = lookup M' y \<Longrightarrow> expand T M d = expand T M' d"
  by (cases d) (simp_all split: option.split)

lemma define_macros_cong:
  "\<forall>y \<in> set S. lookup M y = lookup M' y \<Longrightarrow> uses_only S ds \<Longrightarrow> x \<in> set S \<union> fst ` set ds \<Longrightarrow>
   lookup (define_macros T ds M) x = lookup (define_macros T ds M') x"
proof (induction ds arbitrary: S M M')
  case (Cons ad ds)
  obtain a d where ad: "ad = (a, d)" by (cases ad)
  have "expand T M d = expand T M' d"
    using Cons.prems(1,2) by (intro expand_cong) (auto simp: ad list_all_iff)
  then have "lookup (define_macros T ds ((a, expand T M d) # M)) x =
      lookup (define_macros T ds ((a, expand T M' d) # M')) x"
    using Cons.prems by (intro Cons.IH [of "a # S"]) (auto simp: ad)
  then show ?case by (simp add: ad)
qed simp

text \<open>So the limits can be computed from what is documented of \<open>limits.h\<close>, for each of the two widths.\<close>

definition named_limits :: "msvc \<Rightarrow> (string \<times> mexp) list" where
  "named_limits cc = exact_limits @ least_limits @ fast_limits @ pointer_limits cc @ greatest_limits"

abbreviation sized :: "bool \<Rightarrow> msvc" where
  "sized b \<equiv> \<lparr>MSC_VER = 0, WIN64 = b\<rparr>"

lemma sized_eqs:
  "named_limits cc = named_limits (sized (WIN64 cc))" "type_table cc = type_table (sized (WIN64 cc))"
  "signed_names cc = signed_names (sized (WIN64 cc))" "unsigned_names cc = unsigned_names (sized (WIN64 cc))"
  by (simp_all add: named_limits_def pointer_limits_def type_table_def stdint_types_def exact_types_eq
      pointer_types_eq pointer_bits_def signed_names_def unsigned_names_def)

lemma named_limits_use: "uses_only (map fst documented_limits) (named_limits (sized b))"
proof -
  have "uses_only (map fst documented_limits) (named_limits (sized True))"
    "uses_only (map fst documented_limits) (named_limits (sized False))" by code_simp+
  then show ?thesis by (cases b) simp_all
qed

definition other_names :: "string list" where
  "other_names = [''PTRDIFF_MIN'', ''PTRDIFF_MAX'', ''SIG_ATOMIC_MIN'', ''SIG_ATOMIC_MAX'', ''SIZE_MAX'',
     ''WCHAR_MIN'', ''WCHAR_MAX'', ''WINT_MIN'', ''WINT_MAX'']"

definition sized_macros :: "bool \<Rightarrow> int defs" where
  "sized_macros b = define_macros (type_table (sized b)) (named_limits (sized b)) documented_limits"

definition sized_value :: "bool \<Rightarrow> string \<Rightarrow> int option" where
  "sized_value b x = (if x \<in> set other_names then None else
     if x \<in> set (map fst (named_limits (sized b))) then lookup (sized_macros b) x else None)"

lemma macro_value:
  assumes "has_limits_h M" and "sized_value (WIN64 cc) x = Some v"
  shows "lookup (macro_table cc M) x = Some v"
proof -
  let ?T = "type_table (sized (WIN64 cc))" and ?ds = "named_limits (sized (WIN64 cc))"
  have x: "x \<notin> set other_names" "x \<in> fst ` set ?ds" and v: "lookup (define_macros ?T ?ds documented_limits) x = Some v"
    using assms(2) by (simp_all add: sized_value_def sized_macros_def split: if_splits)
  have "list_all (\<lambda>(x, v). lookup documented_limits x = v) documented_limits" by code_simp
  then have agree: "\<forall>y \<in> set (map fst documented_limits). lookup M y = lookup documented_limits y"
    using assms(1) by (fastforce simp: has_limits_h_def list_all_iff)
  have "x \<notin> fst ` set (other_limits cc M)"
    using x(1) by (auto simp: other_limits_def other_names_def)
  then have "lookup (macro_table cc M) x = lookup (define_macros (type_table cc) (named_limits cc) M) x"
    by (simp add: macro_table_def stdint_limits_def named_limits_def define_macros_append define_macros_other)
  also have "\<dots> = lookup (define_macros ?T ?ds M) x"
    using sized_eqs(1,2) [of cc] by simp
  also have "\<dots> = lookup (define_macros ?T ?ds documented_limits) x"
    using x(2) by (intro define_macros_cong [OF agree named_limits_use]) simp
  finally show ?thesis using v by simp
qed

lemma sized_macros_True:
  "sized_macros True =
    [(''UINTMAX_MAX'', Some 18446744073709551615), (''INTMAX_MAX'', Some 9223372036854775807),
     (''INTMAX_MIN'', Some (- 9223372036854775808)), (''UINTPTR_MAX'', Some 18446744073709551615),
     (''INTPTR_MAX'', Some 9223372036854775807), (''INTPTR_MIN'', Some (- 9223372036854775808)),
     (''UINT_FAST64_MAX'', Some 18446744073709551615), (''UINT_FAST32_MAX'', Some 4294967295),
     (''UINT_FAST16_MAX'', Some 65535), (''UINT_FAST8_MAX'', Some 255),
     (''INT_FAST64_MAX'', Some 9223372036854775807), (''INT_FAST64_MIN'', Some (- 9223372036854775808)),
     (''INT_FAST32_MAX'', Some 2147483647), (''INT_FAST32_MIN'', Some (- 2147483648)),
     (''INT_FAST16_MAX'', Some 32767), (''INT_FAST16_MIN'', Some (- 32768)), (''INT_FAST8_MAX'', Some 127),
     (''INT_FAST8_MIN'', Some (- 128)), (''UINT_LEAST64_MAX'', Some 18446744073709551615),
     (''UINT_LEAST32_MAX'', Some 4294967295), (''UINT_LEAST16_MAX'', Some 65535),
     (''UINT_LEAST8_MAX'', Some 255), (''INT_LEAST64_MAX'', Some 9223372036854775807),
     (''INT_LEAST64_MIN'', Some (- 9223372036854775808)), (''INT_LEAST32_MAX'', Some 2147483647),
     (''INT_LEAST32_MIN'', Some (- 2147483648)), (''INT_LEAST16_MAX'', Some 32767),
     (''INT_LEAST16_MIN'', Some (- 32768)), (''INT_LEAST8_MAX'', Some 127), (''INT_LEAST8_MIN'', Some (- 128)),
     (''UINT64_MAX'', Some 18446744073709551615), (''UINT32_MAX'', Some 4294967295),
     (''UINT16_MAX'', Some 65535), (''UINT8_MAX'', Some 255), (''INT64_MAX'', Some 9223372036854775807),
     (''INT64_MIN'', Some (- 9223372036854775808)), (''INT32_MAX'', Some 2147483647),
     (''INT32_MIN'', Some (- 2147483648)), (''INT16_MAX'', Some 32767), (''INT16_MIN'', Some (- 32768)),
     (''INT8_MAX'', Some 127), (''INT8_MIN'', Some (- 128))] @
    documented_limits"
  by code_simp

lemma sized_macros_False:
  "sized_macros False =
    [(''UINTMAX_MAX'', Some 18446744073709551615), (''INTMAX_MAX'', Some 9223372036854775807),
     (''INTMAX_MIN'', Some (- 9223372036854775808)), (''UINTPTR_MAX'', Some 4294967295),
     (''INTPTR_MAX'', Some 2147483647), (''INTPTR_MIN'', Some (- 2147483648)),
     (''UINT_FAST64_MAX'', Some 18446744073709551615), (''UINT_FAST32_MAX'', Some 4294967295),
     (''UINT_FAST16_MAX'', Some 65535), (''UINT_FAST8_MAX'', Some 255),
     (''INT_FAST64_MAX'', Some 9223372036854775807), (''INT_FAST64_MIN'', Some (- 9223372036854775808)),
     (''INT_FAST32_MAX'', Some 2147483647), (''INT_FAST32_MIN'', Some (- 2147483648)),
     (''INT_FAST16_MAX'', Some 32767), (''INT_FAST16_MIN'', Some (- 32768)), (''INT_FAST8_MAX'', Some 127),
     (''INT_FAST8_MIN'', Some (- 128)), (''UINT_LEAST64_MAX'', Some 18446744073709551615),
     (''UINT_LEAST32_MAX'', Some 4294967295), (''UINT_LEAST16_MAX'', Some 65535),
     (''UINT_LEAST8_MAX'', Some 255), (''INT_LEAST64_MAX'', Some 9223372036854775807),
     (''INT_LEAST64_MIN'', Some (- 9223372036854775808)), (''INT_LEAST32_MAX'', Some 2147483647),
     (''INT_LEAST32_MIN'', Some (- 2147483648)), (''INT_LEAST16_MAX'', Some 32767),
     (''INT_LEAST16_MIN'', Some (- 32768)), (''INT_LEAST8_MAX'', Some 127), (''INT_LEAST8_MIN'', Some (- 128)),
     (''UINT64_MAX'', Some 18446744073709551615), (''UINT32_MAX'', Some 4294967295),
     (''UINT16_MAX'', Some 65535), (''UINT8_MAX'', Some 255), (''INT64_MAX'', Some 9223372036854775807),
     (''INT64_MIN'', Some (- 9223372036854775808)), (''INT32_MAX'', Some 2147483647),
     (''INT32_MIN'', Some (- 2147483648)), (''INT16_MAX'', Some 32767), (''INT16_MIN'', Some (- 32768)),
     (''INT8_MAX'', Some 127), (''INT8_MIN'', Some (- 128))] @
    documented_limits"
  by code_simp

text \<open>What the tables say of a type, its limits and the constants of it.\<close>

definition sized_signed :: "bool \<Rightarrow> bool" where
  "sized_signed b \<longleftrightarrow> list_all (\<lambda>(ty, lo, hi, n). lookup (type_table (sized b)) ty = Some (Signed n) \<and>
     sized_value b lo = Some (ctype_min (Signed n)) \<and> sized_value b hi = Some (ctype_max (Signed n)))
     (signed_names (sized b))"

definition sized_unsigned :: "bool \<Rightarrow> bool" where
  "sized_unsigned b \<longleftrightarrow> list_all (\<lambda>(ty, hi, n). lookup (type_table (sized b)) ty = Some (Unsigned n) \<and>
     sized_value b hi = Some (ctype_max (Unsigned n))) (unsigned_names (sized b))"

definition sized_consts :: "bool \<Rightarrow> bool" where
  "sized_consts b \<longleftrightarrow> list_all (\<lambda>(x, ty). case map_of const_macros x of None \<Rightarrow> False
     | Some suf \<Rightarrow> map_of suffix_types suf = lookup (type_table (sized b)) ty) const_names"

lemma sized_checks: "sized_signed b" "sized_unsigned b" "sized_consts b"
proof -
  have "sized_signed True" "sized_unsigned True"
    unfolding sized_signed_def sized_unsigned_def sized_value_def sized_macros_True by code_simp+
  moreover have "sized_signed False" "sized_unsigned False"
    unfolding sized_signed_def sized_unsigned_def sized_value_def sized_macros_False by code_simp+
  ultimately show "sized_signed b" "sized_unsigned b" by (cases b; simp only:)+
  have "sized_consts True" "sized_consts False" by code_simp+
  then show "sized_consts b" by (cases b) (simp_all only:)
qed

text \<open>The limits that depend on the width of pointers only, as types of the compiler's own headers have them.\<close>

lemma pointer_sized_limits:
  assumes "has_limits_h M" and "map_of M ''SIZE_MAX'' = None"
  shows "lookup (macro_table cc M) ''SIZE_MAX'' = Some (ctype_max (Unsigned (pointer_bits cc)))"
    "lookup (macro_table cc M) ''PTRDIFF_MIN'' = Some (ctype_min (Signed (pointer_bits cc)))"
    "lookup (macro_table cc M) ''PTRDIFF_MAX'' = Some (ctype_max (Signed (pointer_bits cc)))"
    "lookup (macro_table cc M) ''SIG_ATOMIC_MIN'' = Some (ctype_min signed_int)"
    "lookup (macro_table cc M) ''SIG_ATOMIC_MAX'' = Some (ctype_max signed_int)"
proof -
  define M1 where "M1 = define_macros (type_table cc) (named_limits cc) M"
  have tab: "macro_table cc M = define_macros (type_table cc) (other_limits cc M) M1"
    by (simp add: macro_table_def stdint_limits_def named_limits_def define_macros_append M1_def)
  have "list_all (\<lambda>x. x \<notin> set (map fst (named_limits (sized b)))) (map fst documented_limits)" for b
  proof -
    have "list_all (\<lambda>x. x \<notin> set (map fst (named_limits (sized True)))) (map fst documented_limits)"
      "list_all (\<lambda>x. x \<notin> set (map fst (named_limits (sized False)))) (map fst documented_limits)" by code_simp+
    then show ?thesis by (cases b) (simp_all only:)
  qed
  from this [of "WIN64 cc"] have free: "\<forall>x \<in> fst ` set documented_limits. x \<notin> fst ` set (named_limits cc)"
    unfolding sized_eqs(1) [of cc, symmetric] by (simp add: list_all_iff)
  have "lookup M1 x = v" if "(x, v) \<in> set documented_limits" for x v
  proof -
    have "x \<notin> fst ` set (named_limits cc)" using free that by force
    moreover have "lookup M x = v" using assms(1) that by (auto simp: has_limits_h_def list_all_iff)
    ultimately show ?thesis by (simp add: M1_def define_macros_other)
  qed
  then have M1: "list_all (\<lambda>(x, v). lookup M1 x = v) documented_limits"
    by (auto simp: list_all_iff)
  show "lookup (macro_table cc M) ''SIZE_MAX'' = Some (ctype_max (Unsigned (pointer_bits cc)))"
    "lookup (macro_table cc M) ''PTRDIFF_MIN'' = Some (ctype_min (Signed (pointer_bits cc)))"
    "lookup (macro_table cc M) ''PTRDIFF_MAX'' = Some (ctype_max (Signed (pointer_bits cc)))"
    "lookup (macro_table cc M) ''SIG_ATOMIC_MIN'' = Some (ctype_min signed_int)"
    "lookup (macro_table cc M) ''SIG_ATOMIC_MAX'' = Some (ctype_max signed_int)"
    using M1 assms(2) by (simp_all add: tab other_limits_def documented_limits_def pointer_bits_def signed_int_def)
qed

section \<open>uv/version.h\<close>

unbundle bit_operations_syntax

definition UV_VERSION_MAJOR :: int where "UV_VERSION_MAJOR = 1"
definition UV_VERSION_MINOR :: int where "UV_VERSION_MINOR = 44"
definition UV_VERSION_PATCH :: int where "UV_VERSION_PATCH = 2"
definition UV_VERSION_IS_RELEASE :: int where "UV_VERSION_IS_RELEASE = 1"
definition UV_VERSION_SUFFIX :: string where "UV_VERSION_SUFFIX = []"

definition UV_VERSION_HEX :: int where
  "UV_VERSION_HEX = (push_bit 16 UV_VERSION_MAJOR OR push_bit 8 UV_VERSION_MINOR) OR UV_VERSION_PATCH"

lemma UV_VERSION_HEX_fields:
  "UV_VERSION_HEX div 2 ^ 16 = UV_VERSION_MAJOR" "UV_VERSION_HEX div 2 ^ 8 mod 2 ^ 8 = UV_VERSION_MINOR"
  "UV_VERSION_HEX mod 2 ^ 8 = UV_VERSION_PATCH" "cast signed_int UV_VERSION_HEX = UV_VERSION_HEX"
  by (simp_all add: UV_VERSION_HEX_def UV_VERSION_MAJOR_def UV_VERSION_MINOR_def UV_VERSION_PATCH_def
      signed_int_def)

section \<open>Properties\<close>

text \<open>C40: With \<open>stdint-msvc2008.h\<close>, on every version of the compiler and for both widths of pointers: each
  signed type has the width its name asks for, and the macros for its limits are its least and its greatest
  value; likewise for the unsigned types; and each macro for constants pastes the suffix of its type.\<close>

theorem stdint_exact:
  assumes "has_limits_h M"
  shows "(\<forall>(ty, lo, hi, n) \<in> set (signed_names cc). lookup (type_table cc) ty = Some (Signed n) \<and>
      lookup (macro_table cc M) lo = Some (- (2 ^ (n - 1))) \<and> lookup (macro_table cc M) hi = Some (2 ^ (n - 1) - 1)) \<and>
    (\<forall>(ty, hi, n) \<in> set (unsigned_names cc). lookup (type_table cc) ty = Some (Unsigned n) \<and>
      lookup (macro_table cc M) hi = Some (2 ^ n - 1)) \<and>
    (\<forall>(x, ty) \<in> set const_names. \<exists>suf. (\<forall>val. const_named x val = Some (val @ suf)) \<and>
      map_of suffix_types suf = lookup (type_table cc) ty)"
proof (intro conjI)
  let ?b = "WIN64 cc"
  have sg: "sized_value ?b lo = Some (- (2 ^ (n - 1)))" "sized_value ?b hi = Some (2 ^ (n - 1) - 1)"
      "lookup (type_table cc) ty = Some (Signed n)" if "(ty, lo, hi, n) \<in> set (signed_names cc)" for ty lo hi n
    using that sized_checks(1) [of ?b] sized_eqs(2,3) [of cc] by (auto simp: sized_signed_def list_all_iff)
  then show "\<forall>(ty, lo, hi, n) \<in> set (signed_names cc). lookup (type_table cc) ty = Some (Signed n) \<and>
      lookup (macro_table cc M) lo = Some (- (2 ^ (n - 1))) \<and> lookup (macro_table cc M) hi = Some (2 ^ (n - 1) - 1)"
    using macro_value [OF assms, of cc] by blast
  have us: "sized_value ?b hi = Some (2 ^ n - 1)" "lookup (type_table cc) ty = Some (Unsigned n)"
    if "(ty, hi, n) \<in> set (unsigned_names cc)" for ty hi n
    using that sized_checks(2) [of ?b] sized_eqs(2,4) [of cc] by (auto simp: sized_unsigned_def list_all_iff)
  then show "\<forall>(ty, hi, n) \<in> set (unsigned_names cc). lookup (type_table cc) ty = Some (Unsigned n) \<and>
      lookup (macro_table cc M) hi = Some (2 ^ n - 1)"
    using macro_value [OF assms, of cc] by blast
  show "\<forall>(x, ty) \<in> set const_names. \<exists>suf. (\<forall>val. const_named x val = Some (val @ suf)) \<and>
      map_of suffix_types suf = lookup (type_table cc) ty"
    using sized_checks(3) [of ?b] sized_eqs(2) [of cc]
    by (fastforce simp: sized_consts_def list_all_iff const_named_def split: option.splits)
qed

theorem stdint_exact_witness:
  "lookup (macro_table \<lparr>MSC_VER = 1500, WIN64 = True\<rparr> documented_limits) ''INTPTR_MIN'' = Some (- (2 ^ 63))"
proof -
  have "has_limits_h documented_limits" by code_simp
  from stdint_exact [OF this, of "\<lparr>MSC_VER = 1500, WIN64 = True\<rparr>"] show ?thesis
    by (simp add: signed_names_def pointer_bits_def)
qed

end
