(* ===== verification/Tree_Order.thy ===== *)
theory Tree_Order
  imports Prelude
begin

text \<open>
  What the trees of \<open>libs/libuv-1.44.2/include/uv/tree.h\<close> ask of the comparison that their user
  passes to the macros, and lists of elements in the order of their keys.
\<close>

type_synonym comparison = "addr \<Rightarrow> addr \<Rightarrow> int"

text \<open>
  The user's comparison reads keys that are linearly ordered; a tree holds its elements in strictly
  ascending order of their keys.
\<close>

definition orders :: "comparison \<Rightarrow> (addr \<Rightarrow> 'k::linorder) \<Rightarrow> bool" where
  "orders cmp key \<longleftrightarrow> (\<forall>a b. (cmp a b < 0 \<longleftrightarrow> key a < key b) \<and> (0 < cmp a b \<longleftrightarrow> key b < key a))"

lemma orders_less: "orders cmp key \<Longrightarrow> cmp a b < 0 \<longleftrightarrow> key a < key b"
  and orders_greater: "orders cmp key \<Longrightarrow> 0 < cmp a b \<longleftrightarrow> key b < key a"
  by (simp_all add: orders_def)

lemma orders_equal: "orders cmp key \<Longrightarrow> cmp a b = 0 \<longleftrightarrow> key a = key b"
  using orders_less [of cmp key a b] orders_greater [of cmp key a b] by (auto simp: not_less_iff_gr_or_eq)

definition ascending :: "(addr \<Rightarrow> 'k::linorder) \<Rightarrow> addr list \<Rightarrow> bool" where
  "ascending key xs = sorted_wrt (\<lambda>a b. key a < key b) xs"

lemma ascending_simps [simp]:
  "ascending key []"
  "ascending key (x # xs) \<longleftrightarrow> (\<forall>y\<in>set xs. key x < key y) \<and> ascending key xs"
  "ascending key (xs @ ys) \<longleftrightarrow>
     ascending key xs \<and> ascending key ys \<and> (\<forall>x\<in>set xs. \<forall>y\<in>set ys. key x < key y)"
  by (auto simp: ascending_def sorted_wrt_append)

lemma ascending_distinct: "ascending key xs \<Longrightarrow> distinct xs"
  by (induction xs) auto

lemma ascending_key_inj: "ascending key xs \<Longrightarrow> a \<in> set xs \<Longrightarrow> b \<in> set xs \<Longrightarrow> key a = key b \<Longrightarrow> a = b"
proof -
  assume asc: "ascending key xs" and ab: "a \<in> set xs" "b \<in> set xs" "key a = key b"
  from asc have "distinct (map key xs)"
    by (simp add: ascending_def strict_sorted_iff flip: sorted_wrt_map)
  with ab show "a = b" by (auto simp: distinct_map inj_on_def)
qed

lemma insort_between:
  "\<forall>a\<in>set xs. key a < key x \<Longrightarrow> \<forall>b\<in>set ys. key x < key b \<Longrightarrow>
   insort_key key x (xs @ ys) = xs @ x # ys"
proof (induction xs)
  case Nil
  then show ?case by (cases ys) auto
qed (auto simp: not_le)

section \<open>Searching and the ends of a list\<close>

lemma find_append_none: "\<forall>a\<in>set xs. \<not> P a \<Longrightarrow> find P (xs @ ys) = find P ys"
  by (induction xs) auto

lemma find_append_stop: "P a \<Longrightarrow> find P (xs @ a # ys) = (case find P xs of None \<Rightarrow> Some a | Some b \<Rightarrow> Some b)"
  by (induction xs) auto

lemma find_prefix: "\<forall>a\<in>set ys. \<not> P a \<Longrightarrow> find P (xs @ ys) = find P xs"
  by (induction xs) (auto simp: find_None_iff)

definition front :: "'x list \<Rightarrow> 'x option" where
  "front xs = (case xs of [] \<Rightarrow> None | x # _ \<Rightarrow> Some x)"

definition rear :: "'x list \<Rightarrow> 'x option" where
  "rear xs = front (rev xs)"

lemma front_simps [simp]: "front [] = None" "front (x # xs) = Some x" "xs \<noteq> [] \<Longrightarrow> front (xs @ ys) = front xs"
  by (auto simp: front_def split: list.split)

lemma rear_simps [simp]: "rear [] = None" "rear (xs @ [x]) = Some x" "ys \<noteq> [] \<Longrightarrow> rear (xs @ ys) = rear ys"
  by (auto simp: rear_def)

lemma rear_Cons [simp]: "ys \<noteq> [] \<Longrightarrow> rear (x # ys) = rear ys" "rear [x] = Some x"
  using rear_simps(3) [of ys "[x]"] rear_simps(2) [of "[]" x] by auto

section \<open>A concrete order\<close>

text \<open>Elements ordered by their addresses, for examples.\<close>

definition plain_cmp :: comparison where
  "plain_cmp a b = int a - int b"

lemma orders_plain: "orders plain_cmp (\<lambda>a. a)"
  by (simp add: orders_def plain_cmp_def)

end
