(* ===== verification/RB_Tree.thy ===== *)
theory RB_Tree
  imports Tree_Order
begin

text \<open>
  The red-black tree macros of \<open>libs/libuv-1.44.2/include/uv/tree.h\<close>: the intrusive node field
  of \<open>RB_ENTRY\<close>, the head, the rotations, and every function that \<open>RB_GENERATE\<close> writes out for a
  tree. The elements live at addresses; a memory maps an address to the field \<open>RB_ENTRY\<close> of the
  element there. The comparison \<open>cmp\<close> is the argument of the macro that the user supplies and is a
  parameter here. Each loop carries a bound on its iterations and faults with \<open>Diverges\<close> when it
  exceeds it.
\<close>

section \<open>Data\<close>

definition RB_BLACK :: int where "RB_BLACK = 0"
definition RB_RED :: int where "RB_RED = 1"

record rb_entry =
  rbe_left :: "addr option"
  rbe_right :: "addr option"
  rbe_parent :: "addr option"
  rbe_color :: int

text \<open>The head of a tree together with the memory that holds the elements.\<close>

record rb_head =
  rbh_root :: "addr option"
  rb_mem :: "addr \<rightharpoonup> rb_entry"

type_synonym ('s, 'x) rb = "('s rb_head_scheme, 'x) prog"

definition rb_get :: "(rb_entry \<Rightarrow> 'x) \<Rightarrow> addr option \<Rightarrow> ('s, 'x) rb" where
  "rb_get f p = bnd (deref p) (\<lambda>a. bnd (gets rb_mem) (\<lambda>m.
     case m a of None \<Rightarrow> fail Bad_Pointer | Some e \<Rightarrow> ret (f e)))"

definition rb_put :: "(rb_entry \<Rightarrow> rb_entry) \<Rightarrow> addr option \<Rightarrow> ('s, unit) rb" where
  "rb_put f p = bnd (deref p) (\<lambda>a. bnd (gets rb_mem) (\<lambda>m.
     case m a of None \<Rightarrow> fail Bad_Pointer
     | Some e \<Rightarrow> upd (rb_mem_update (\<lambda>m. m(a \<mapsto> f e)))))"

definition RB_LEFT :: "addr option \<Rightarrow> ('s, addr option) rb" where
  "RB_LEFT elm = rb_get rbe_left elm"

definition RB_RIGHT :: "addr option \<Rightarrow> ('s, addr option) rb" where
  "RB_RIGHT elm = rb_get rbe_right elm"

definition RB_PARENT :: "addr option \<Rightarrow> ('s, addr option) rb" where
  "RB_PARENT elm = rb_get rbe_parent elm"

definition RB_COLOR :: "addr option \<Rightarrow> ('s, int) rb" where
  "RB_COLOR elm = rb_get rbe_color elm"

definition set_RB_LEFT :: "addr option \<Rightarrow> addr option \<Rightarrow> ('s, unit) rb" where
  "set_RB_LEFT elm q = rb_put (rbe_left_update (\<lambda>_. q)) elm"

definition set_RB_RIGHT :: "addr option \<Rightarrow> addr option \<Rightarrow> ('s, unit) rb" where
  "set_RB_RIGHT elm q = rb_put (rbe_right_update (\<lambda>_. q)) elm"

definition set_RB_PARENT :: "addr option \<Rightarrow> addr option \<Rightarrow> ('s, unit) rb" where
  "set_RB_PARENT elm q = rb_put (rbe_parent_update (\<lambda>_. q)) elm"

definition set_RB_COLOR :: "addr option \<Rightarrow> int \<Rightarrow> ('s, unit) rb" where
  "set_RB_COLOR elm c = rb_put (rbe_color_update (\<lambda>_. c)) elm"

definition RB_ROOT :: "('s, addr option) rb" where
  "RB_ROOT = gets rbh_root"

definition set_RB_ROOT :: "addr option \<Rightarrow> ('s, unit) rb" where
  "set_RB_ROOT q = upd (rbh_root_update (\<lambda>_. q))"

definition RB_INIT :: "('s, unit) rb" where
  "RB_INIT = set_RB_ROOT None"

definition RB_EMPTY :: "('s, bool) rb" where
  "RB_EMPTY = bnd RB_ROOT (\<lambda>q. ret (q = None))"

section \<open>Setting up and recolouring\<close>

definition RB_SET :: "addr option \<Rightarrow> addr option \<Rightarrow> ('s, unit) rb" where
  "RB_SET elm parent =
     seq (set_RB_PARENT elm parent) (
     seq (set_RB_RIGHT elm None) (
     seq (set_RB_LEFT elm None) (
     set_RB_COLOR elm RB_RED)))"

definition RB_SET_BLACKRED :: "addr option \<Rightarrow> addr option \<Rightarrow> ('s, unit) rb" where
  "RB_SET_BLACKRED black red = seq (set_RB_COLOR black RB_BLACK) (set_RB_COLOR red RB_RED)"

text \<open>
  \<open>RB_AUGMENT\<close> is empty unless the user defines it; being a macro, it does not even evaluate its
  argument.
\<close>

definition RB_AUGMENT :: "('s, addr option) rb \<Rightarrow> ('s, unit) rb" where
  "RB_AUGMENT x = ret ()"

section \<open>Rotations\<close>

text \<open>
  The macros assign their argument \<open>tmp\<close>; here it is the result. Both put \<open>tmp\<close> where \<open>elm\<close> hung:
  in the left or the right link of \<open>elm\<close>'s parent, or in the head.
\<close>

definition rb_relink :: "addr option \<Rightarrow> addr option \<Rightarrow> ('s, unit) rb" where
  "rb_relink elm tmp =
     bnd (RB_PARENT elm) (\<lambda>p.
     seq (set_RB_PARENT tmp p) (
     if p \<noteq> None
     then bnd (RB_PARENT elm) (\<lambda>q. bnd (RB_LEFT q) (\<lambda>l.
            if elm = l
            then bnd (RB_PARENT elm) (\<lambda>q. set_RB_LEFT q tmp)
            else bnd (RB_PARENT elm) (\<lambda>q. set_RB_RIGHT q tmp)))
     else set_RB_ROOT tmp))"

definition RB_ROTATE_LEFT :: "addr option \<Rightarrow> ('s, addr option) rb" where
  "RB_ROTATE_LEFT elm =
     bnd (RB_RIGHT elm) (\<lambda>tmp.
     bnd (RB_LEFT tmp) (\<lambda>l.
     seq (set_RB_RIGHT elm l) (
     seq (if l \<noteq> None then bnd (RB_LEFT tmp) (\<lambda>l. set_RB_PARENT l elm) else ret ()) (
     seq (RB_AUGMENT (ret elm)) (
     seq (rb_relink elm tmp) (
     seq (set_RB_LEFT tmp elm) (
     seq (set_RB_PARENT elm tmp) (
     seq (RB_AUGMENT (ret tmp)) (
     bnd (RB_PARENT tmp) (\<lambda>p.
     seq (if p \<noteq> None then RB_AUGMENT (RB_PARENT tmp) else ret ()) (
     ret tmp)))))))))))"

definition RB_ROTATE_RIGHT :: "addr option \<Rightarrow> ('s, addr option) rb" where
  "RB_ROTATE_RIGHT elm =
     bnd (RB_LEFT elm) (\<lambda>tmp.
     bnd (RB_RIGHT tmp) (\<lambda>r.
     seq (set_RB_LEFT elm r) (
     seq (if r \<noteq> None then bnd (RB_RIGHT tmp) (\<lambda>r. set_RB_PARENT r elm) else ret ()) (
     seq (RB_AUGMENT (ret elm)) (
     seq (rb_relink elm tmp) (
     seq (set_RB_RIGHT tmp elm) (
     seq (set_RB_PARENT elm tmp) (
     seq (RB_AUGMENT (ret tmp)) (
     bnd (RB_PARENT tmp) (\<lambda>p.
     seq (if p \<noteq> None then RB_AUGMENT (RB_PARENT tmp) else ret ()) (
     ret tmp)))))))))))"

section \<open>Insertion\<close>

text \<open>
  One round of the loop of \<open>RB_INSERT_COLOR\<close>, below a red \<open>parent\<close>; it returns the next value of
  the local \<open>elm\<close>. The two halves are each other's mirror image in the source as well.
\<close>

definition is_red :: "addr option \<Rightarrow> ('s, bool) rb" where
  "is_red p = (if p = None then ret False else bnd (RB_COLOR p) (\<lambda>c. ret (c = RB_RED)))"

definition insert_color_left :: "addr option \<Rightarrow> addr option \<Rightarrow> addr option \<Rightarrow> ('s, addr option) rb" where
  "insert_color_left elm parent gparent =
     bnd (RB_RIGHT gparent) (\<lambda>tmp.
     bnd (is_red tmp) (\<lambda>red.
     if red
     then seq (set_RB_COLOR tmp RB_BLACK) (
          seq (RB_SET_BLACKRED parent gparent) (
          ret gparent))
     else bnd (RB_RIGHT parent) (\<lambda>r.
          bnd (if r = elm
               then seq (RB_ROTATE_LEFT parent) (ret (parent, elm))
               else ret (elm, parent)) (\<lambda>(elm, parent).
          seq (RB_SET_BLACKRED parent gparent) (
          seq (RB_ROTATE_RIGHT gparent) (
          ret elm))))))"

definition insert_color_right :: "addr option \<Rightarrow> addr option \<Rightarrow> addr option \<Rightarrow> ('s, addr option) rb" where
  "insert_color_right elm parent gparent =
     bnd (RB_LEFT gparent) (\<lambda>tmp.
     bnd (is_red tmp) (\<lambda>red.
     if red
     then seq (set_RB_COLOR tmp RB_BLACK) (
          seq (RB_SET_BLACKRED parent gparent) (
          ret gparent))
     else bnd (RB_LEFT parent) (\<lambda>l.
          bnd (if l = elm
               then seq (RB_ROTATE_RIGHT parent) (ret (parent, elm))
               else ret (elm, parent)) (\<lambda>(elm, parent).
          seq (RB_SET_BLACKRED parent gparent) (
          seq (RB_ROTATE_LEFT gparent) (
          ret elm))))))"

primrec insert_color_loop :: "nat \<Rightarrow> addr option \<Rightarrow> ('s, unit) rb" where
  "insert_color_loop 0 elm = fail Diverges"
| "insert_color_loop (Suc n) elm =
     bnd (RB_PARENT elm) (\<lambda>parent.
     bnd (is_red parent) (\<lambda>red.
     if red
     then bnd (RB_PARENT parent) (\<lambda>gparent.
          bnd (RB_LEFT gparent) (\<lambda>l.
          bnd (if parent = l then insert_color_left elm parent gparent
               else insert_color_right elm parent gparent) (\<lambda>elm.
          insert_color_loop n elm)))
     else ret ()))"

definition RB_INSERT_COLOR :: "nat \<Rightarrow> addr option \<Rightarrow> ('s, unit) rb" where
  "RB_INSERT_COLOR n elm =
     seq (insert_color_loop n elm) (
     bnd RB_ROOT (\<lambda>q.
     set_RB_COLOR q RB_BLACK))"

text \<open>
  The descent of \<open>RB_INSERT\<close>: it stops at an element that compares equal, or with the last element
  passed and the last comparison.
\<close>

primrec insert_descend ::
  "comparison \<Rightarrow> nat \<Rightarrow> addr \<Rightarrow> addr option \<Rightarrow> addr option \<Rightarrow> int \<Rightarrow> ('s, addr + addr option \<times> int) rb"
where
  "insert_descend cmp 0 elm tmp parent cr = fail Diverges"
| "insert_descend cmp (Suc n) elm tmp parent cr =
     (case tmp of
        None \<Rightarrow> ret (Inr (parent, cr))
      | Some a \<Rightarrow>
          if cmp elm a < 0
          then bnd (RB_LEFT tmp) (\<lambda>l. insert_descend cmp n elm l tmp (cmp elm a))
          else if cmp elm a > 0
          then bnd (RB_RIGHT tmp) (\<lambda>r. insert_descend cmp n elm r tmp (cmp elm a))
          else ret (Inl a))"

definition rb_link :: "addr option \<Rightarrow> addr option \<Rightarrow> int \<Rightarrow> ('s, unit) rb" where
  "rb_link elm parent cr =
     seq (RB_SET elm parent) (
     if parent \<noteq> None
     then seq (if cr < 0 then set_RB_LEFT parent elm else set_RB_RIGHT parent elm)
              (RB_AUGMENT (ret parent))
     else set_RB_ROOT elm)"

definition RB_INSERT :: "comparison \<Rightarrow> nat \<Rightarrow> addr \<Rightarrow> ('s, addr option) rb" where
  "RB_INSERT cmp n elm =
     bnd RB_ROOT (\<lambda>tmp.
     bnd (insert_descend cmp n elm tmp None 0) (\<lambda>d. case d of
       Inl a \<Rightarrow> ret (Some a)
     | Inr (parent, cr) \<Rightarrow>
         seq (rb_link (Some elm) parent cr) (
         seq (RB_INSERT_COLOR n (Some elm)) (
         ret None))))"

section \<open>Removal\<close>

text \<open>\<open>p == NULL || RB_COLOR(p, field) == RB_BLACK\<close>\<close>

definition is_black :: "addr option \<Rightarrow> ('s, bool) rb" where
  "is_black p = (if p = None then ret True else bnd (RB_COLOR p) (\<lambda>c. ret (c = RB_BLACK)))"

definition both_black :: "addr option \<Rightarrow> ('s, bool) rb" where
  "both_black tmp =
     bnd (RB_LEFT tmp) (\<lambda>l. bnd (is_black l) (\<lambda>bl.
     if \<not> bl then ret False
     else bnd (RB_RIGHT tmp) is_black))"

text \<open>
  One round of the loop of \<open>RB_REMOVE_COLOR\<close>: the result is the next \<open>(parent, elm)\<close>, and whether
  the source leaves the loop by \<open>break\<close>.
\<close>

definition remove_color_left ::
  "addr option \<Rightarrow> addr option \<Rightarrow> ('s, bool \<times> addr option \<times> addr option) rb"
where
  "remove_color_left parent elm =
     bnd (RB_RIGHT parent) (\<lambda>tmp.
     bnd (RB_COLOR tmp) (\<lambda>c.
     bnd (if c = RB_RED
          then seq (RB_SET_BLACKRED tmp parent) (
               seq (RB_ROTATE_LEFT parent) (
               RB_RIGHT parent))
          else ret tmp) (\<lambda>tmp.
     bnd (both_black tmp) (\<lambda>bb.
     if bb
     then seq (set_RB_COLOR tmp RB_RED) (
          bnd (RB_PARENT parent) (\<lambda>q.
          ret (False, q, parent)))
     else bnd (RB_RIGHT tmp) (\<lambda>r. bnd (is_black r) (\<lambda>br.
          bnd (if br
               then bnd (RB_LEFT tmp) (\<lambda>oleft.
                    seq (if oleft \<noteq> None then set_RB_COLOR oleft RB_BLACK else ret ()) (
                    seq (set_RB_COLOR tmp RB_RED) (
                    seq (RB_ROTATE_RIGHT tmp) (
                    RB_RIGHT parent))))
               else ret tmp) (\<lambda>tmp.
          bnd (RB_COLOR parent) (\<lambda>c.
          seq (set_RB_COLOR tmp c) (
          seq (set_RB_COLOR parent RB_BLACK) (
          bnd (RB_RIGHT tmp) (\<lambda>r.
          seq (if r \<noteq> None then bnd (RB_RIGHT tmp) (\<lambda>r. set_RB_COLOR r RB_BLACK) else ret ()) (
          seq (RB_ROTATE_LEFT parent) (
          bnd RB_ROOT (\<lambda>q.
          ret (True, parent, q)))))))))))))))"

definition remove_color_right ::
  "addr option \<Rightarrow> addr option \<Rightarrow> ('s, bool \<times> addr option \<times> addr option) rb"
where
  "remove_color_right parent elm =
     bnd (RB_LEFT parent) (\<lambda>tmp.
     bnd (RB_COLOR tmp) (\<lambda>c.
     bnd (if c = RB_RED
          then seq (RB_SET_BLACKRED tmp parent) (
               seq (RB_ROTATE_RIGHT parent) (
               RB_LEFT parent))
          else ret tmp) (\<lambda>tmp.
     bnd (both_black tmp) (\<lambda>bb.
     if bb
     then seq (set_RB_COLOR tmp RB_RED) (
          bnd (RB_PARENT parent) (\<lambda>q.
          ret (False, q, parent)))
     else bnd (RB_LEFT tmp) (\<lambda>l. bnd (is_black l) (\<lambda>bl.
          bnd (if bl
               then bnd (RB_RIGHT tmp) (\<lambda>oright.
                    seq (if oright \<noteq> None then set_RB_COLOR oright RB_BLACK else ret ()) (
                    seq (set_RB_COLOR tmp RB_RED) (
                    seq (RB_ROTATE_LEFT tmp) (
                    RB_LEFT parent))))
               else ret tmp) (\<lambda>tmp.
          bnd (RB_COLOR parent) (\<lambda>c.
          seq (set_RB_COLOR tmp c) (
          seq (set_RB_COLOR parent RB_BLACK) (
          bnd (RB_LEFT tmp) (\<lambda>l.
          seq (if l \<noteq> None then bnd (RB_LEFT tmp) (\<lambda>l. set_RB_COLOR l RB_BLACK) else ret ()) (
          seq (RB_ROTATE_RIGHT parent) (
          bnd RB_ROOT (\<lambda>q.
          ret (True, parent, q)))))))))))))))"

primrec remove_color_loop :: "nat \<Rightarrow> addr option \<Rightarrow> addr option \<Rightarrow> ('s, addr option) rb" where
  "remove_color_loop 0 parent elm = fail Diverges"
| "remove_color_loop (Suc n) parent elm =
     bnd (is_black elm) (\<lambda>b.
     bnd RB_ROOT (\<lambda>q.
     if b \<and> elm \<noteq> q
     then bnd (RB_LEFT parent) (\<lambda>l.
          bnd (if l = elm then remove_color_left parent elm
               else remove_color_right parent elm) (\<lambda>(stop, parent, elm).
          if stop then ret elm else remove_color_loop n parent elm))
     else ret elm))"

definition RB_REMOVE_COLOR :: "nat \<Rightarrow> addr option \<Rightarrow> addr option \<Rightarrow> ('s, unit) rb" where
  "RB_REMOVE_COLOR n parent elm =
     bnd (remove_color_loop n parent elm) (\<lambda>elm.
     if elm \<noteq> None then set_RB_COLOR elm RB_BLACK else ret ())"

text \<open>
  \<open>RB_REMOVE\<close> unlinks \<open>elm\<close>, whose only child, if it has one, is \<open>child\<close>: the child takes its place.
\<close>

definition rb_unlink :: "addr option \<Rightarrow> addr option \<Rightarrow> addr option \<Rightarrow> ('s, unit) rb" where
  "rb_unlink elm child parent =
     seq (if child \<noteq> None then set_RB_PARENT child parent else ret ()) (
     if parent \<noteq> None
     then bnd (RB_LEFT parent) (\<lambda>l.
          seq (if l = elm then set_RB_LEFT parent child else set_RB_RIGHT parent child)
              (RB_AUGMENT (ret parent)))
     else set_RB_ROOT child)"

primrec leftmost :: "nat \<Rightarrow> addr option \<Rightarrow> ('s, addr option) rb" where
  "leftmost 0 elm = fail Diverges"
| "leftmost (Suc n) elm = bnd (RB_LEFT elm) (\<lambda>left. if left \<noteq> None then leftmost n left else ret elm)"

primrec rightmost :: "nat \<Rightarrow> addr option \<Rightarrow> ('s, addr option) rb" where
  "rightmost 0 elm = fail Diverges"
| "rightmost (Suc n) elm =
     bnd (RB_RIGHT elm) (\<lambda>right. if right \<noteq> None then rightmost n right else ret elm)"

text \<open>The walk to the root that calls \<open>RB_AUGMENT\<close> on every element it passes.\<close>

primrec augment_up :: "nat \<Rightarrow> addr option \<Rightarrow> ('s, unit) rb" where
  "augment_up 0 left = fail Diverges"
| "augment_up (Suc n) left =
     seq (RB_AUGMENT (ret left)) (
     bnd (RB_PARENT left) (\<lambda>left. if left \<noteq> None then augment_up n left else ret ()))"

text \<open>\<open>elm\<close> takes over the field of \<open>old\<close> and its place: the links of its parent and its children.\<close>

definition rb_replace :: "addr option \<Rightarrow> addr option \<Rightarrow> ('s, unit) rb" where
  "rb_replace old elm =
     bnd (rb_get (\<lambda>e. e) old) (\<lambda>e.
     seq (rb_put (\<lambda>_. e) elm) (
     bnd (RB_PARENT old) (\<lambda>q.
     seq (if q \<noteq> None
          then bnd (RB_PARENT old) (\<lambda>q. bnd (RB_LEFT q) (\<lambda>l.
               seq (if l = old then set_RB_LEFT q elm else set_RB_RIGHT q elm)
                   (RB_AUGMENT (RB_PARENT old))))
          else set_RB_ROOT elm) (
     bnd (RB_LEFT old) (\<lambda>l.
     seq (set_RB_PARENT l elm) (
     bnd (RB_RIGHT old) (\<lambda>r.
     if r \<noteq> None then bnd (RB_RIGHT old) (\<lambda>r. set_RB_PARENT r elm) else ret ())))))))"

text \<open>The part of \<open>RB_REMOVE\<close> for an element \<open>old\<close> with two children: its successor replaces it.\<close>

definition remove_inner :: "nat \<Rightarrow> addr option \<Rightarrow> ('s, int \<times> addr option \<times> addr option) rb" where
  "remove_inner n old =
     bnd (RB_RIGHT old) (\<lambda>elm.
     bnd (leftmost n elm) (\<lambda>elm.
     bnd (RB_RIGHT elm) (\<lambda>child.
     bnd (RB_PARENT elm) (\<lambda>parent.
     bnd (RB_COLOR elm) (\<lambda>color.
     seq (rb_unlink elm child parent) (
     bnd (RB_PARENT elm) (\<lambda>q.
     bnd (ret (if q = old then elm else parent)) (\<lambda>parent.
     seq (rb_replace old elm) (
     seq (if parent \<noteq> None then augment_up n parent else ret ()) (
     ret (color, parent, child)))))))))))"

text \<open>The part for an element with at most one child.\<close>

definition remove_outer :: "addr option \<Rightarrow> addr option \<Rightarrow> ('s, int \<times> addr option \<times> addr option) rb" where
  "remove_outer elm child =
     bnd (RB_PARENT elm) (\<lambda>parent.
     bnd (RB_COLOR elm) (\<lambda>color.
     seq (rb_unlink elm child parent) (
     ret (color, parent, child))))"

definition RB_REMOVE :: "nat \<Rightarrow> addr option \<Rightarrow> ('s, addr option) rb" where
  "RB_REMOVE n elm =
     bnd (RB_LEFT elm) (\<lambda>l.
     bnd (RB_RIGHT elm) (\<lambda>r.
     bnd (if l = None then remove_outer elm r
          else if r = None then remove_outer elm l
          else remove_inner n elm) (\<lambda>(color, parent, child).
     seq (if color = RB_BLACK then RB_REMOVE_COLOR n parent child else ret ()) (
     ret elm))))"

section \<open>Searching and walking\<close>

primrec find_loop :: "comparison \<Rightarrow> nat \<Rightarrow> addr \<Rightarrow> addr option \<Rightarrow> ('s, addr option) rb" where
  "find_loop cmp 0 elm tmp = fail Diverges"
| "find_loop cmp (Suc n) elm tmp =
     (case tmp of
        None \<Rightarrow> ret None
      | Some a \<Rightarrow>
          if cmp elm a < 0 then bnd (RB_LEFT tmp) (\<lambda>l. find_loop cmp n elm l)
          else if cmp elm a > 0 then bnd (RB_RIGHT tmp) (\<lambda>r. find_loop cmp n elm r)
          else ret tmp)"

definition RB_FIND :: "comparison \<Rightarrow> nat \<Rightarrow> addr \<Rightarrow> ('s, addr option) rb" where
  "RB_FIND cmp n elm = bnd RB_ROOT (\<lambda>tmp. find_loop cmp n elm tmp)"

primrec nfind_loop :: "comparison \<Rightarrow> nat \<Rightarrow> addr \<Rightarrow> addr option \<Rightarrow> addr option \<Rightarrow> ('s, addr option) rb" where
  "nfind_loop cmp 0 elm tmp res = fail Diverges"
| "nfind_loop cmp (Suc n) elm tmp res =
     (case tmp of
        None \<Rightarrow> ret res
      | Some a \<Rightarrow>
          if cmp elm a < 0 then bnd (RB_LEFT tmp) (\<lambda>l. nfind_loop cmp n elm l tmp)
          else if cmp elm a > 0 then bnd (RB_RIGHT tmp) (\<lambda>r. nfind_loop cmp n elm r res)
          else ret tmp)"

definition RB_NFIND :: "comparison \<Rightarrow> nat \<Rightarrow> addr \<Rightarrow> ('s, addr option) rb" where
  "RB_NFIND cmp n elm = bnd RB_ROOT (\<lambda>tmp. nfind_loop cmp n elm tmp None)"

text \<open>\<open>while (RB_PARENT(elm) \<and> elm == RB_RIGHT(RB_PARENT(elm))) elm = RB_PARENT(elm)\<close>, and its mirror image.\<close>

primrec climb_right :: "nat \<Rightarrow> addr option \<Rightarrow> ('s, addr option) rb" where
  "climb_right 0 elm = fail Diverges"
| "climb_right (Suc n) elm =
     bnd (RB_PARENT elm) (\<lambda>p.
     if p = None then ret elm
     else bnd (RB_RIGHT p) (\<lambda>r. if elm = r then climb_right n p else ret elm))"

primrec climb_left :: "nat \<Rightarrow> addr option \<Rightarrow> ('s, addr option) rb" where
  "climb_left 0 elm = fail Diverges"
| "climb_left (Suc n) elm =
     bnd (RB_PARENT elm) (\<lambda>p.
     if p = None then ret elm
     else bnd (RB_LEFT p) (\<lambda>l. if elm = l then climb_left n p else ret elm))"

definition RB_NEXT :: "nat \<Rightarrow> addr option \<Rightarrow> ('s, addr option) rb" where
  "RB_NEXT n elm =
     bnd (RB_RIGHT elm) (\<lambda>r.
     if r \<noteq> None then leftmost n r
     else bnd (RB_PARENT elm) (\<lambda>p.
          bnd (if p \<noteq> None then bnd (RB_LEFT p) (\<lambda>l. ret (elm = l)) else ret False) (\<lambda>b.
          if b then RB_PARENT elm
          else bnd (climb_right n elm) (\<lambda>elm. RB_PARENT elm))))"

definition RB_PREV :: "nat \<Rightarrow> addr option \<Rightarrow> ('s, addr option) rb" where
  "RB_PREV n elm =
     bnd (RB_LEFT elm) (\<lambda>l.
     if l \<noteq> None then rightmost n l
     else bnd (RB_PARENT elm) (\<lambda>p.
          bnd (if p \<noteq> None then bnd (RB_RIGHT p) (\<lambda>r. ret (elm = r)) else ret False) (\<lambda>b.
          if b then RB_PARENT elm
          else bnd (climb_left n elm) (\<lambda>elm. RB_PARENT elm))))"

definition RB_NEGINF :: int where "RB_NEGINF = - 1"
definition RB_INF :: int where "RB_INF = 1"

primrec minmax_loop :: "nat \<Rightarrow> int \<Rightarrow> addr option \<Rightarrow> addr option \<Rightarrow> ('s, addr option) rb" where
  "minmax_loop 0 val tmp parent = fail Diverges"
| "minmax_loop (Suc n) val tmp parent =
     (if tmp = None then ret parent
      else bnd (if val < 0 then RB_LEFT tmp else RB_RIGHT tmp) (\<lambda>q. minmax_loop n val q tmp))"

definition RB_MINMAX :: "nat \<Rightarrow> int \<Rightarrow> ('s, addr option) rb" where
  "RB_MINMAX n val = bnd RB_ROOT (\<lambda>tmp. minmax_loop n val tmp None)"

definition RB_MIN :: "nat \<Rightarrow> ('s, addr option) rb" where
  "RB_MIN n = RB_MINMAX n RB_NEGINF"

definition RB_MAX :: "nat \<Rightarrow> ('s, addr option) rb" where
  "RB_MAX n = RB_MINMAX n RB_INF"

text \<open>
  The loop macros, with a loop body that is a program of its own and may return or fault; the rest
  of the user's state is the extension of the record.
  \<open>RB_FOREACH\<close> asks for the next element after the body has run, \<open>RB_FOREACH_SAFE\<close> and
  \<open>RB_FOREACH_FROM\<close> before it.
\<close>

primrec foreach_loop ::
  "(addr option \<Rightarrow> ('s, addr option) rb) \<Rightarrow> nat \<Rightarrow> (addr \<Rightarrow> ('s, unit) rb) \<Rightarrow> addr option \<Rightarrow> ('s, unit) rb"
where
  "foreach_loop step 0 body x = fail Diverges"
| "foreach_loop step (Suc n) body x =
     (case x of None \<Rightarrow> ret ()
      | Some a \<Rightarrow> seq (body a) (bnd (step x) (\<lambda>x. foreach_loop step n body x)))"

primrec foreach_safe_loop ::
  "(addr option \<Rightarrow> ('s, addr option) rb) \<Rightarrow> nat \<Rightarrow> (addr \<Rightarrow> ('s, unit) rb) \<Rightarrow> addr option \<Rightarrow> ('s, unit) rb"
where
  "foreach_safe_loop step 0 body x = fail Diverges"
| "foreach_safe_loop step (Suc n) body x =
     (case x of None \<Rightarrow> ret ()
      | Some a \<Rightarrow> bnd (step x) (\<lambda>y. seq (body a) (foreach_safe_loop step n body y)))"

definition RB_FOREACH :: "nat \<Rightarrow> (addr \<Rightarrow> ('s, unit) rb) \<Rightarrow> ('s, unit) rb" where
  "RB_FOREACH n body = bnd (RB_MIN n) (\<lambda>x. foreach_loop (RB_NEXT n) n body x)"

definition RB_FOREACH_FROM :: "nat \<Rightarrow> (addr \<Rightarrow> ('s, unit) rb) \<Rightarrow> addr option \<Rightarrow> ('s, unit) rb" where
  "RB_FOREACH_FROM n body y = foreach_safe_loop (RB_NEXT n) n body y"

definition RB_FOREACH_SAFE :: "nat \<Rightarrow> (addr \<Rightarrow> ('s, unit) rb) \<Rightarrow> ('s, unit) rb" where
  "RB_FOREACH_SAFE n body = bnd (RB_MIN n) (\<lambda>x. foreach_safe_loop (RB_NEXT n) n body x)"

definition RB_FOREACH_REVERSE :: "nat \<Rightarrow> (addr \<Rightarrow> ('s, unit) rb) \<Rightarrow> ('s, unit) rb" where
  "RB_FOREACH_REVERSE n body = bnd (RB_MAX n) (\<lambda>x. foreach_loop (RB_PREV n) n body x)"

definition RB_FOREACH_REVERSE_FROM :: "nat \<Rightarrow> (addr \<Rightarrow> ('s, unit) rb) \<Rightarrow> addr option \<Rightarrow> ('s, unit) rb" where
  "RB_FOREACH_REVERSE_FROM n body y = foreach_safe_loop (RB_PREV n) n body y"

definition RB_FOREACH_REVERSE_SAFE :: "nat \<Rightarrow> (addr \<Rightarrow> ('s, unit) rb) \<Rightarrow> ('s, unit) rb" where
  "RB_FOREACH_REVERSE_SAFE n body = bnd (RB_MAX n) (\<lambda>x. foreach_safe_loop (RB_PREV n) n body x)"

end
