(* ===== verification/RB_Shape.thy ===== *)
theory RB_Shape
  imports RB_Tree
begin

text \<open>
  Which memory a red-black tree is: coloured trees of addresses, the memory that stores one, trees
  seen from one of their nodes (a subtree in the context of the path above it), and what the field
  accesses and the rotations of \<open>tree.h\<close> do to such a memory, as equations between trees.
\<close>

section \<open>Trees\<close>

datatype colour = Red | Black

definition shade :: "colour \<Rightarrow> int" where
  "shade c = (case c of Red \<Rightarrow> RB_RED | Black \<Rightarrow> RB_BLACK)"

lemma shade_simps [simp]:
  "shade Red = RB_RED" "shade Black = RB_BLACK"
  "shade c = RB_RED \<longleftrightarrow> c = Red" "shade c = RB_BLACK \<longleftrightarrow> c = Black"
  "RB_RED = shade c \<longleftrightarrow> c = Red" "RB_BLACK = shade c \<longleftrightarrow> c = Black"
  "RB_RED \<noteq> RB_BLACK" "RB_BLACK \<noteq> RB_RED"
  by (simp_all add: shade_def RB_RED_def RB_BLACK_def split: colour.split)

datatype rbt = Lf | Nd colour rbt addr rbt

fun root_of :: "rbt \<Rightarrow> addr option" where
  "root_of Lf = None"
| "root_of (Nd c l a r) = Some a"

fun col :: "rbt \<Rightarrow> colour" where
  "col Lf = Black"
| "col (Nd c l a r) = c"

fun paint :: "colour \<Rightarrow> rbt \<Rightarrow> rbt" where
  "paint k Lf = Lf"
| "paint k (Nd c l a r) = Nd k l a r"

fun elems :: "rbt \<Rightarrow> addr list" where
  "elems Lf = []"
| "elems (Nd c l a r) = elems l @ a # elems r"

fun rb_height :: "rbt \<Rightarrow> nat" where
  "rb_height Lf = 0"
| "rb_height (Nd c l a r) = Suc (max (rb_height l) (rb_height r))"

lemma root_of_None [simp]: "root_of t = None \<longleftrightarrow> t = Lf"
  by (cases t) simp_all

lemma root_of_paint [simp]: "root_of (paint k t) = root_of t"
  by (cases t) simp_all

lemma elems_paint [simp]: "elems (paint k t) = elems t"
  by (cases t) simp_all

lemma root_in_elems: "root_of t = Some a \<Longrightarrow> a \<in> set (elems t)"
  by (cases t) simp_all

lemma root_of_other [simp]:
  "a \<notin> set (elems t) \<Longrightarrow> root_of t \<noteq> Some a" "a \<notin> set (elems t) \<Longrightarrow> Some a \<noteq> root_of t"
  using root_in_elems [of t a] by auto

text \<open>Disjointness read from both sides, for rewriting.\<close>

lemma disjoint_both: "A \<inter> B = {} \<longleftrightarrow> (\<forall>x\<in>A. x \<notin> B) \<and> (\<forall>x\<in>B. x \<notin> A)"
  by auto

section \<open>Memories that store a tree\<close>

fun store :: "(addr \<rightharpoonup> rb_entry) \<Rightarrow> addr option \<Rightarrow> rbt \<Rightarrow> (addr \<rightharpoonup> rb_entry)" where
  "store m p Lf = m"
| "store m p (Nd c l a r) =
     (store (store m (Some a) l) (Some a) r)
       (a \<mapsto> \<lparr>rbe_left = root_of l, rbe_right = root_of r, rbe_parent = p, rbe_color = shade c\<rparr>)"

fun tree_at :: "(addr \<rightharpoonup> rb_entry) \<Rightarrow> addr option \<Rightarrow> rbt \<Rightarrow> bool" where
  "tree_at m p Lf = True"
| "tree_at m p (Nd c l a r) =
     (m a = Some \<lparr>rbe_left = root_of l, rbe_right = root_of r, rbe_parent = p, rbe_color = shade c\<rparr> \<and>
      tree_at m (Some a) l \<and> tree_at m (Some a) r)"

lemma tree_at_upd [simp]: "a \<notin> set (elems t) \<Longrightarrow> tree_at (m(a := e)) p t = tree_at m p t"
  by (induction t arbitrary: p) auto

lemma tree_at_cong:
  "(\<And>a. a \<in> set (elems t) \<Longrightarrow> m a = m' a) \<Longrightarrow> tree_at m p t = tree_at m' p t"
  by (induction t arbitrary: p) auto

lemma store_outside: "a \<notin> set (elems t) \<Longrightarrow> store m p t a = m a"
  by (induction t arbitrary: m p) auto

lemma tree_at_store: "distinct (elems t) \<Longrightarrow> tree_at (store m p t) p t"
proof (induction t arbitrary: m p)
  case (Nd c l a r)
  let ?m = "store m (Some a) l"
  have "tree_at (store ?m (Some a) r) (Some a) l = tree_at ?m (Some a) l"
    using Nd.prems by (intro tree_at_cong store_outside) auto
  with Nd show ?case unfolding store.simps tree_at.simps by (subst tree_at_upd, simp)+ simp
qed simp

lemma tree_at_unique: "tree_at m p t \<Longrightarrow> tree_at m' p t \<Longrightarrow> a \<in> set (elems t) \<Longrightarrow> m a = m' a"
  by (induction t arbitrary: p) auto

lemma store_eqI:
  "tree_at m' p t \<Longrightarrow> (\<And>a. a \<notin> set (elems t) \<Longrightarrow> m' a = m a) \<Longrightarrow> distinct (elems t) \<Longrightarrow>
   m' = store m p t"
  by (rule ext) (metis tree_at_store tree_at_unique store_outside)

text \<open>The state \<open>w\<close> with the tree \<open>t\<close> put into its head and memory.\<close>

definition rb_state :: "'s rb_head_scheme \<Rightarrow> rbt \<Rightarrow> 's rb_head_scheme" where
  "rb_state w t = w\<lparr>rbh_root := root_of t, rb_mem := store (rb_mem w) None t\<rparr>"

lemma rb_root_state [simp]: "rbh_root (rb_state w t) = root_of t"
  by (simp add: rb_state_def)

lemma rb_state_eqI:
  assumes "distinct (elems t)" and "tree_at m None t" and "\<And>a. a \<notin> set (elems t) \<Longrightarrow> m a = rb_mem w a"
    and "q = root_of t"
  shows "w\<lparr>rbh_root := q, rb_mem := m\<rparr> = rb_state w t"
  using store_eqI [of m None t "rb_mem w"] assms by (simp add: rb_state_def)

lemma RB_ROOT_state [simp]: "RB_ROOT (rb_state w t) = Inr (root_of t, rb_state w t)"
  by (simp add: RB_ROOT_def)

section \<open>A node and the path above it\<close>

text \<open>\<open>LeftF c a r\<close>: the way down from the node \<open>a\<close> of colour \<open>c\<close>, with right subtree \<open>r\<close>, to its left.\<close>

datatype frame = LeftF colour addr rbt | RightF colour rbt addr

fun fill :: "frame \<Rightarrow> rbt \<Rightarrow> rbt" where
  "fill (LeftF c a r) t = Nd c t a r"
| "fill (RightF c l a) t = Nd c l a t"

fun plug :: "frame list \<Rightarrow> rbt \<Rightarrow> rbt" where
  "plug [] t = t"
| "plug (f # cs) t = plug cs (fill f t)"

fun node_of :: "frame \<Rightarrow> addr" where
  "node_of (LeftF c a r) = a"
| "node_of (RightF c l a) = a"

fun colour_of :: "frame \<Rightarrow> colour" where
  "colour_of (LeftF c a r) = c"
| "colour_of (RightF c l a) = c"

fun parent_of :: "frame list \<Rightarrow> addr option" where
  "parent_of [] = None"
| "parent_of (f # cs) = Some (node_of f)"

fun before :: "frame list \<Rightarrow> addr list" where
  "before [] = []"
| "before (LeftF c a r # cs) = before cs"
| "before (RightF c l a # cs) = before cs @ elems l @ [a]"

fun after :: "frame list \<Rightarrow> addr list" where
  "after [] = []"
| "after (LeftF c a r # cs) = a # elems r @ after cs"
| "after (RightF c l a # cs) = after cs"

lemma elems_plug [simp]: "elems (plug cs t) = before cs @ elems t @ after cs"
proof (induction cs arbitrary: t)
  case (Cons f cs)
  then show ?case by (cases f) simp_all
qed simp

lemma plug_append: "plug (ds @ cs) t = plug cs (plug ds t)"
  by (induction ds arbitrary: t) simp_all

lemma root_of_plug: "root_of (plug (cs @ [f]) t) = Some (node_of f)"
  by (induction cs arbitrary: t) (cases f; simp)+

lemma height_plug: "length cs + rb_height t \<le> rb_height (plug cs t)"
proof (induction cs arbitrary: t)
  case (Cons f cs)
  have "length cs + rb_height (fill f t) \<le> rb_height (plug cs (fill f t))" by (rule Cons)
  moreover have "Suc (rb_height t) \<le> rb_height (fill f t)" by (cases f) simp_all
  ultimately show ?case by simp
qed simp

text \<open>The path above a node whose subtree has root \<open>x\<close>, in a memory whose head points to \<open>q\<close>.\<close>

fun path_at :: "(addr \<rightharpoonup> rb_entry) \<Rightarrow> addr option \<Rightarrow> frame list \<Rightarrow> bool" where
  "path_at m x [] = True"
| "path_at m x (LeftF c a r # cs) =
     (m a = Some \<lparr>rbe_left = x, rbe_right = root_of r, rbe_parent = parent_of cs, rbe_color = shade c\<rparr> \<and>
      tree_at m (Some a) r \<and> path_at m (Some a) cs)"
| "path_at m x (RightF c l a # cs) =
     (m a = Some \<lparr>rbe_left = root_of l, rbe_right = x, rbe_parent = parent_of cs, rbe_color = shade c\<rparr> \<and>
      tree_at m (Some a) l \<and> path_at m (Some a) cs)"

lemma tree_at_plug:
  "tree_at m None (plug cs t) \<longleftrightarrow> path_at m (root_of t) cs \<and> tree_at m (parent_of cs) t"
proof (induction cs arbitrary: t)
  case (Cons f cs)
  then show ?case by (cases f) auto
qed simp

lemma path_at_upd [simp]:
  "a \<notin> set (before cs) \<Longrightarrow> a \<notin> set (after cs) \<Longrightarrow> path_at (m(a := e)) x cs = path_at m x cs"
  by (induction m x cs rule: path_at.induct) auto

text \<open>What is hung below the path only shows in the head and in the node at its end.\<close>

lemma root_of_plug_cong:
  "root_of (plug cs t) = (if cs = [] then root_of t else Some (node_of (last cs)))"
  using root_of_plug [of "butlast cs" "last cs" t] by auto

lemma parent_of_None [simp]: "parent_of cs = None \<longleftrightarrow> cs = []"
  by (cases cs) simp_all

section \<open>Field accesses\<close>

lemma rb_get_eq: "rb_mem s a = Some e \<Longrightarrow> rb_get f (Some a) s = Inr (f e, s)"
  by (simp add: rb_get_def)

lemma rb_put_eq:
  "rb_mem s a = Some e \<Longrightarrow> rb_put f (Some a) s = Inr ((), s\<lparr>rb_mem := (rb_mem s)(a \<mapsto> f e)\<rparr>)"
  by (simp add: rb_put_def)

lemmas rb_fields = RB_LEFT_def RB_RIGHT_def RB_PARENT_def RB_COLOR_def set_RB_LEFT_def
  set_RB_RIGHT_def set_RB_PARENT_def set_RB_COLOR_def set_RB_ROOT_def

lemma tree_at_state: "distinct (elems t) \<Longrightarrow> tree_at (rb_mem (rb_state w t)) None t"
  by (simp add: rb_state_def tree_at_store)

text \<open>
  Reading and recolouring a node anywhere in the subtree \<open>t\<close> below a path, as functions on the
  tree that rewriting can evaluate.
\<close>

fun entry :: "addr option \<Rightarrow> rbt \<Rightarrow> addr \<Rightarrow> rb_entry option" where
  "entry p Lf a = None"
| "entry p (Nd c l b r) a =
     (if a = b
      then Some \<lparr>rbe_left = root_of l, rbe_right = root_of r, rbe_parent = p, rbe_color = shade c\<rparr>
      else if a \<in> set (elems l) then entry (Some b) l a else entry (Some b) r a)"

fun recolour :: "addr \<Rightarrow> colour \<Rightarrow> rbt \<Rightarrow> rbt" where
  "recolour a k Lf = Lf"
| "recolour a k (Nd c l b r) = Nd (if a = b then k else c) (recolour a k l) b (recolour a k r)"

lemma entry_other [simp]: "a \<notin> set (elems t) \<Longrightarrow> entry p t a = None"
  by (induction t arbitrary: p) auto

lemma recolour_other [simp]: "a \<notin> set (elems t) \<Longrightarrow> recolour a k t = t"
  by (induction t) auto

lemma root_of_recolour [simp]: "root_of (recolour a k t) = root_of t"
  by (cases t) auto

lemma elems_recolour [simp]: "elems (recolour a k t) = elems t"
  by (induction t) auto

lemma recolour_root [simp]: "root_of t = Some a \<Longrightarrow> distinct (elems t) \<Longrightarrow> recolour a k t = paint k t"
  by (cases t) auto

lemma tree_at_entry:
  "tree_at m p t \<Longrightarrow> distinct (elems t) \<Longrightarrow> a \<in> set (elems t) \<Longrightarrow> m a = entry p t a \<and> entry p t a \<noteq> None"
  by (induction t arbitrary: p) auto

lemma tree_at_recolour:
  "tree_at m p t \<Longrightarrow> distinct (elems t) \<Longrightarrow> m a = Some e \<Longrightarrow>
   tree_at (m(a \<mapsto> e\<lparr>rbe_color := shade k\<rparr>)) p (recolour a k t)"
  by (induction t arbitrary: p) auto

lemma rb_mem_at:
  assumes "distinct (elems (plug cs t))" and "a \<in> set (elems t)"
  obtains e where "entry (parent_of cs) t a = Some e" and "rb_mem (rb_state w (plug cs t)) a = Some e"
proof -
  have "tree_at (rb_mem (rb_state w (plug cs t))) (parent_of cs) t"
    using tree_at_state [OF assms(1), of w] by (simp add: tree_at_plug)
  from tree_at_entry [OF this, of a] assms
  have "rb_mem (rb_state w (plug cs t)) a = entry (parent_of cs) t a"
    and "\<exists>e. entry (parent_of cs) t a = Some e" by simp_all
  with that show ?thesis by auto
qed

lemma rb_get_at:
  assumes "distinct (elems (plug cs t))" and "a \<in> set (elems t)"
  shows "rb_get f (Some a) (rb_state w (plug cs t)) =
           Inr (f (the (entry (parent_of cs) t a)), rb_state w (plug cs t))"
  by (rule rb_mem_at [OF assms, of w]) (simp add: rb_get_eq)

lemma set_RB_COLOR_at:
  assumes "distinct (elems (plug cs t))" and "a \<in> set (elems t)"
  shows "set_RB_COLOR (Some a) (shade k) (rb_state w (plug cs t)) =
           Inr ((), rb_state w (plug cs (recolour a k t)))"
proof -
  let ?s = "rb_state w (plug cs t)"
  obtain e where e: "rb_mem ?s a = Some e" by (rule rb_mem_at [OF assms, of w])
  let ?m = "(rb_mem ?s)(a \<mapsto> e\<lparr>rbe_color := shade k\<rparr>)"
  have "tree_at (rb_mem ?s) None (plug cs t)" by (rule tree_at_state) fact
  moreover have "a \<notin> set (before cs)" "a \<notin> set (after cs)" "distinct (elems t)" using assms by auto
  ultimately have t: "tree_at ?m None (plug cs (recolour a k t))"
    using e by (simp add: tree_at_plug tree_at_recolour)
  have "w\<lparr>rbh_root := root_of (plug cs t), rb_mem := ?m\<rparr> = rb_state w (plug cs (recolour a k t))"
    by (rule rb_state_eqI) (use assms t in \<open>auto simp: rb_state_def store_outside root_of_plug_cong\<close>)
  moreover have "set_RB_COLOR (Some a) (shade k) ?s = Inr ((), ?s\<lparr>rb_mem := ?m\<rparr>)"
    by (simp add: rb_fields rb_put_eq [OF e])
  ultimately show ?thesis by (simp add: rb_state_def)
qed

section \<open>Rotations\<close>

text \<open>
  A state as the base \<open>w\<close>, a head and a memory, in the form that running a program on it keeps.
\<close>

definition rb_with :: "'s rb_head_scheme \<Rightarrow> addr option \<Rightarrow> (addr \<rightharpoonup> rb_entry) \<Rightarrow> 's rb_head_scheme" where
  "rb_with w q m = w\<lparr>rbh_root := q, rb_mem := m\<rparr>"

lemma rb_with_get: "m a = Some e \<Longrightarrow> rb_get f (Some a) (rb_with w q m) = Inr (f e, rb_with w q m)"
  by (simp add: rb_get_def rb_with_def)

lemma rb_with_put:
  "m a = Some e \<Longrightarrow> rb_put f (Some a) (rb_with w q m) = Inr ((), rb_with w q (m(a \<mapsto> f e)))"
  by (simp add: rb_put_def rb_with_def)

lemma rb_with_root: "set_RB_ROOT p (rb_with w q m) = Inr ((), rb_with w p m)"
  by (simp add: set_RB_ROOT_def rb_with_def)

lemmas rb_run = rb_with_get rb_with_put rb_with_root RB_LEFT_def RB_RIGHT_def RB_PARENT_def
  RB_COLOR_def set_RB_LEFT_def set_RB_RIGHT_def set_RB_PARENT_def set_RB_COLOR_def RB_AUGMENT_def

lemma rb_state_with: "rb_state w t = rb_with w (root_of t) (store (rb_mem w) None t)"
  by (simp add: rb_state_def rb_with_def)

lemma rb_with_eqI:
  assumes "distinct (elems t)" and "tree_at m None t" and "\<And>a. a \<notin> set (elems t) \<Longrightarrow> m a = rb_mem w a"
    and "q = root_of t"
  shows "rb_with w q m = rb_state w t"
  unfolding rb_with_def using assms by (rule rb_state_eqI)

text \<open>Giving the root of a subtree another parent, and hanging another subtree below a path.\<close>

fun reparent :: "rbt \<Rightarrow> addr option \<Rightarrow> (addr \<rightharpoonup> rb_entry) \<Rightarrow> (addr \<rightharpoonup> rb_entry)" where
  "reparent Lf q m = m"
| "reparent (Nd c l a r) q m =
     m(a \<mapsto> \<lparr>rbe_left = root_of l, rbe_right = root_of r, rbe_parent = q, rbe_color = shade c\<rparr>)"

fun hang :: "frame list \<Rightarrow> addr option \<Rightarrow> (addr \<rightharpoonup> rb_entry) \<Rightarrow> (addr \<rightharpoonup> rb_entry)" where
  "hang [] y m = m"
| "hang (LeftF c a r # cs) y m =
     m(a \<mapsto> \<lparr>rbe_left = y, rbe_right = root_of r, rbe_parent = parent_of cs, rbe_color = shade c\<rparr>)"
| "hang (RightF c l a # cs) y m =
     m(a \<mapsto> \<lparr>rbe_left = root_of l, rbe_right = y, rbe_parent = parent_of cs, rbe_color = shade c\<rparr>)"

fun head_of :: "frame list \<Rightarrow> addr option \<Rightarrow> addr option" where
  "head_of [] y = y"
| "head_of (f # cs) y = Some (node_of (last (f # cs)))"

lemma head_of_plug: "root_of (plug cs t) = head_of cs (root_of t)"
  by (cases cs) (simp_all add: root_of_plug_cong del: plug.simps)

lemma reparent_other [simp]: "a \<notin> set (elems t) \<Longrightarrow> reparent t q m a = m a"
  by (cases t) auto

lemma tree_at_reparent [simp]:
  "tree_at m p t \<Longrightarrow> distinct (elems t) \<Longrightarrow> tree_at (reparent t q m) q t"
  by (cases t) auto

lemma tree_at_reparent_other [simp]:
  "set (elems t) \<inter> set (elems u) = {} \<Longrightarrow> tree_at (reparent u q m) p t = tree_at m p t"
  by (cases u) auto

lemma path_at_reparent [simp]:
  "set (before cs) \<inter> set (elems u) = {} \<Longrightarrow> set (after cs) \<inter> set (elems u) = {} \<Longrightarrow>
   path_at (reparent u q m) x cs = path_at m x cs"
  by (cases u) auto

lemma hang_other [simp]: "a \<notin> set (before cs) \<Longrightarrow> a \<notin> set (after cs) \<Longrightarrow> hang cs y m a = m a"
  by (cases cs rule: before.cases) auto

lemma tree_at_hang [simp]:
  "set (before cs) \<inter> set (elems t) = {} \<Longrightarrow> set (after cs) \<inter> set (elems t) = {} \<Longrightarrow>
   tree_at (hang cs y m) p t = tree_at m p t"
  by (cases cs rule: before.cases) auto

lemma path_at_hang [simp]:
  "path_at m x cs \<Longrightarrow> distinct (before cs) \<Longrightarrow> distinct (after cs) \<Longrightarrow>
   set (before cs) \<inter> set (after cs) = {} \<Longrightarrow> path_at (hang cs y m) y cs"
  by (cases cs rule: before.cases) auto

lemma run_reparent:
  assumes "tree_at m p t"
  shows "(if t \<noteq> Lf then set_RB_PARENT (root_of t) q else ret ()) (rb_with w h m) =
           Inr ((), rb_with w h (reparent t q m))"
  using assms by (cases t) (simp_all add: rb_run)

lemma run_reparent_link:
  assumes "m y = Some e" and "tree_at m p t"
  shows "rbe_left e = root_of t \<Longrightarrow>
         (if t \<noteq> Lf then bnd (RB_LEFT (Some y)) (\<lambda>l. set_RB_PARENT l q) else ret ()) (rb_with w h m) =
           Inr ((), rb_with w h (reparent t q m))"
    and "rbe_right e = root_of t \<Longrightarrow>
         (if t \<noteq> Lf then bnd (RB_RIGHT (Some y)) (\<lambda>l. set_RB_PARENT l q) else ret ()) (rb_with w h m) =
           Inr ((), rb_with w h (reparent t q m))"
  using assms by (cases t; simp add: rb_run)+

lemma no_augment [simp]: "(if b then RB_AUGMENT x else ret ()) = ret ()"
  by (simp add: RB_AUGMENT_def)

lemma run_relink:
  assumes "path_at m (Some x) cs" "m x = Some ex" "rbe_parent ex = parent_of cs" "m y = Some ey"
    "x \<noteq> y" "y \<notin> set (before cs)" "y \<notin> set (after cs)" "x \<notin> set (before cs)" "x \<notin> set (after cs)"
  shows "rb_relink (Some x) (Some y) (rb_with w (head_of cs (Some x)) m) =
    Inr ((), rb_with w (head_of cs (Some y)) (hang cs (Some y) (m(y \<mapsto> ey\<lparr>rbe_parent := parent_of cs\<rparr>))))"
  using assms by (cases cs rule: before.cases) (auto simp: rb_relink_def rb_run)

text \<open>What distinct addresses say about the nodes and the three subtrees of a rotation.\<close>

lemma rotation_apart:
  assumes "distinct (P @ A @ x # B @ y # E @ Q)"
  shows "x \<notin> set P" "x \<notin> set Q" "y \<notin> set P" "y \<notin> set Q" "x \<noteq> y"
    "x \<notin> set A" "y \<notin> set A" "x \<notin> set B" "y \<notin> set B" "x \<notin> set E" "y \<notin> set E"
    "set P \<inter> set A = {}" "set Q \<inter> set A = {}" "set P \<inter> set B = {}" "set Q \<inter> set B = {}"
    "set P \<inter> set E = {}" "set Q \<inter> set E = {}" "set A \<inter> set B = {}" "set E \<inter> set B = {}"
    "set P \<inter> set Q = {}"
  using assms by auto

lemma rotate_left_focus:
  assumes dist: "distinct (elems (plug cs (Nd c a x (Nd d b y e))))"
  shows "RB_ROTATE_LEFT (Some x) (rb_state w (plug cs (Nd c a x (Nd d b y e)))) =
           Inr (Some y, rb_state w (plug cs (Nd d (Nd c a x b) y e)))"
proof -
  let ?t = "plug cs (Nd c a x (Nd d b y e))"
  obtain m where m: "store (rb_mem w) None ?t = m" by simp
  have at: "path_at m (Some x) cs" "tree_at m (parent_of cs) (Nd c a x (Nd d b y e))"
    using tree_at_store [OF dist, of "rb_mem w" None] by (simp_all add: m tree_at_plug)
  have out: "m z = rb_mem w z" if "z \<notin> set (elems ?t)" for z
    unfolding m [symmetric] using that by (rule store_outside)
  have "distinct (before cs @ elems a @ x # elems b @ y # elems e @ after cs)" using dist by simp
  note far = rotation_apart [OF this]
  let ?m1 = "reparent b (Some x) (m(x \<mapsto>
               \<lparr>rbe_left = root_of a, rbe_right = root_of b, rbe_parent = parent_of cs, rbe_color = shade c\<rparr>))"
  let ?m2 = "hang cs (Some y) (?m1(y \<mapsto>
               \<lparr>rbe_left = root_of b, rbe_right = root_of e, rbe_parent = parent_of cs, rbe_color = shade d\<rparr>))"
  let ?m3 = "?m2(y \<mapsto> \<lparr>rbe_left = Some x, rbe_right = root_of e, rbe_parent = parent_of cs, rbe_color = shade d\<rparr>,
              x \<mapsto> \<lparr>rbe_left = root_of a, rbe_right = root_of b, rbe_parent = Some y, rbe_color = shade c\<rparr>)"
  have "RB_ROTATE_LEFT (Some x) (rb_with w (head_of cs (Some x)) m) =
          Inr (Some y, rb_with w (head_of cs (Some y)) ?m3)"
    using at far
    by (simp add: RB_ROTATE_LEFT_def rb_run run_reparent_link [where p = "Some y"] run_relink
        del: not_None_eq split del: if_split)
  moreover have "rb_with w (head_of cs (Some y)) ?m3 = rb_state w (plug cs (Nd d (Nd c a x b) y e))"
  proof (rule rb_with_eqI)
    show "tree_at ?m3 None (plug cs (Nd d (Nd c a x b) y e))"
      using at far dist by (simp add: tree_at_plug tree_at_reparent [where p = "Some y"])
  qed (use dist out in \<open>auto simp: head_of_plug\<close>)
  ultimately show ?thesis
    by (simp add: rb_state_with m head_of_plug)
qed

lemma rotate_right_focus:
  assumes dist: "distinct (elems (plug cs (Nd d (Nd c a x b) y e)))"
  shows "RB_ROTATE_RIGHT (Some y) (rb_state w (plug cs (Nd d (Nd c a x b) y e))) =
           Inr (Some x, rb_state w (plug cs (Nd c a x (Nd d b y e))))"
proof -
  let ?t = "plug cs (Nd d (Nd c a x b) y e)"
  obtain m where m: "store (rb_mem w) None ?t = m" by simp
  have at: "path_at m (Some y) cs" "tree_at m (parent_of cs) (Nd d (Nd c a x b) y e)"
    using tree_at_store [OF dist, of "rb_mem w" None] by (simp_all add: m tree_at_plug)
  have out: "m z = rb_mem w z" if "z \<notin> set (elems ?t)" for z
    unfolding m [symmetric] using that by (rule store_outside)
  have "distinct (before cs @ elems a @ x # elems b @ y # elems e @ after cs)" using dist by simp
  note far = rotation_apart [OF this]
  let ?m1 = "reparent b (Some y) (m(y \<mapsto>
               \<lparr>rbe_left = root_of b, rbe_right = root_of e, rbe_parent = parent_of cs, rbe_color = shade d\<rparr>))"
  let ?m2 = "hang cs (Some x) (?m1(x \<mapsto>
               \<lparr>rbe_left = root_of a, rbe_right = root_of b, rbe_parent = parent_of cs, rbe_color = shade c\<rparr>))"
  let ?m3 = "?m2(x \<mapsto> \<lparr>rbe_left = root_of a, rbe_right = Some y, rbe_parent = parent_of cs, rbe_color = shade c\<rparr>,
              y \<mapsto> \<lparr>rbe_left = root_of b, rbe_right = root_of e, rbe_parent = Some x, rbe_color = shade d\<rparr>)"
  have "RB_ROTATE_RIGHT (Some y) (rb_with w (head_of cs (Some y)) m) =
          Inr (Some x, rb_with w (head_of cs (Some x)) ?m3)"
    using at far
    by (simp add: RB_ROTATE_RIGHT_def rb_run run_reparent_link [where p = "Some x"] run_relink
        del: not_None_eq split del: if_split)
  moreover have "rb_with w (head_of cs (Some x)) ?m3 = rb_state w (plug cs (Nd c a x (Nd d b y e)))"
  proof (rule rb_with_eqI)
    show "tree_at ?m3 None (plug cs (Nd c a x (Nd d b y e)))"
      using at far dist by (simp add: tree_at_plug tree_at_reparent [where p = "Some x"])
  qed (use dist out in \<open>auto simp: head_of_plug\<close>)
  ultimately show ?thesis
    by (simp add: rb_state_with m head_of_plug)
qed

section \<open>Running programs on a tree below a path\<close>

text \<open>
  The rules by which the proofs about the generated functions evaluate them: the program point sees
  a subtree of known shape below a path that stays abstract.
\<close>

named_theorems rb_at \<open>field accesses, recolourings and rotations of a tree below a path\<close>

lemma RB_LEFT_at [rb_at]:
  "distinct (elems (plug cs t)) \<Longrightarrow> a \<in> set (elems t) \<Longrightarrow>
   RB_LEFT (Some a) (rb_state w (plug cs t)) =
     Inr (rbe_left (the (entry (parent_of cs) t a)), rb_state w (plug cs t))"
  by (simp add: RB_LEFT_def rb_get_at)

lemma RB_RIGHT_at [rb_at]:
  "distinct (elems (plug cs t)) \<Longrightarrow> a \<in> set (elems t) \<Longrightarrow>
   RB_RIGHT (Some a) (rb_state w (plug cs t)) =
     Inr (rbe_right (the (entry (parent_of cs) t a)), rb_state w (plug cs t))"
  by (simp add: RB_RIGHT_def rb_get_at)

lemma RB_PARENT_at [rb_at]:
  "distinct (elems (plug cs t)) \<Longrightarrow> a \<in> set (elems t) \<Longrightarrow>
   RB_PARENT (Some a) (rb_state w (plug cs t)) =
     Inr (rbe_parent (the (entry (parent_of cs) t a)), rb_state w (plug cs t))"
  by (simp add: RB_PARENT_def rb_get_at)

lemma RB_COLOR_at [rb_at]:
  "distinct (elems (plug cs t)) \<Longrightarrow> a \<in> set (elems t) \<Longrightarrow>
   RB_COLOR (Some a) (rb_state w (plug cs t)) =
     Inr (rbe_color (the (entry (parent_of cs) t a)), rb_state w (plug cs t))"
  by (simp add: RB_COLOR_def rb_get_at)

lemma set_RB_COLOR_const_at [rb_at]:
  assumes "distinct (elems (plug cs t))" and "a \<in> set (elems t)"
  shows "set_RB_COLOR (Some a) RB_RED (rb_state w (plug cs t)) =
           Inr ((), rb_state w (plug cs (recolour a Red t)))"
    and "set_RB_COLOR (Some a) RB_BLACK (rb_state w (plug cs t)) =
           Inr ((), rb_state w (plug cs (recolour a Black t)))"
  using set_RB_COLOR_at [OF assms, of Red w] set_RB_COLOR_at [OF assms, of Black w] by simp_all

declare set_RB_COLOR_at [rb_at] rotate_left_focus [rb_at] rotate_right_focus [rb_at]

lemmas rotate_left_in_left [rb_at] = rotate_left_focus [of "LeftF k g u # cs" for k g u cs, simplified plug.simps fill.simps]
lemmas rotate_left_in_right [rb_at] = rotate_left_focus [of "RightF k u g # cs" for k g u cs, simplified plug.simps fill.simps]
lemmas rotate_right_in_left [rb_at] = rotate_right_focus [of "LeftF k g u # cs" for k g u cs, simplified plug.simps fill.simps]
lemmas rotate_right_in_right [rb_at] = rotate_right_focus [of "RightF k u g # cs" for k g u cs, simplified plug.simps fill.simps]

end
