(* ===== verification/RB_Invariant.thy ===== *)
theory RB_Invariant
  imports RB_Shape
begin

text \<open>
  The conditions that the comment of \<open>tree.h\<close> states for a red-black tree, for trees and for the
  path above a subtree, and the bound on the height that follows from them.
\<close>

section \<open>The red-black conditions\<close>

text \<open>
  A red node has black children; every path from a node to a leaf passes the same number of black
  nodes; the root is black. \<open>path_inv cs h c\<close> says of a path that a subtree of black height \<open>h\<close>
  whose root has colour \<open>c\<close> fits below it.
\<close>

fun bh :: "rbt \<Rightarrow> nat" where
  "bh Lf = 0"
| "bh (Nd c l a r) = (if c = Black then Suc (bh l) else bh l)"

fun invc :: "rbt \<Rightarrow> bool" where
  "invc Lf = True"
| "invc (Nd c l a r) = (invc l \<and> invc r \<and> (c = Red \<longrightarrow> col l = Black \<and> col r = Black))"

fun invh :: "rbt \<Rightarrow> bool" where
  "invh Lf = True"
| "invh (Nd c l a r) = (invh l \<and> invh r \<and> bh l = bh r)"

definition rb_inv :: "rbt \<Rightarrow> bool" where
  "rb_inv t \<longleftrightarrow> invc t \<and> invh t \<and> col t = Black"

fun path_inv :: "frame list \<Rightarrow> nat \<Rightarrow> colour \<Rightarrow> bool" where
  "path_inv [] h c = (c = Black)"
| "path_inv (LeftF k a r # cs) h c =
     (invc r \<and> invh r \<and> bh r = h \<and> (k = Red \<longrightarrow> c = Black \<and> col r = Black) \<and>
      path_inv cs (if k = Black then Suc h else h) k)"
| "path_inv (RightF k l a # cs) h c =
     (invc l \<and> invh l \<and> bh l = h \<and> (k = Red \<longrightarrow> c = Black \<and> col l = Black) \<and>
      path_inv cs (if k = Black then Suc h else h) k)"

lemma rb_inv_plug: "rb_inv (plug cs t) \<longleftrightarrow> path_inv cs (bh t) (col t) \<and> invc t \<and> invh t"
proof (induction cs arbitrary: t)
  case Nil
  then show ?case by (auto simp: rb_inv_def)
next
  case (Cons f cs)
  then show ?case by (cases f) auto
qed

lemma path_inv_Black: "path_inv cs h c \<Longrightarrow> path_inv cs h Black"
  by (cases cs rule: before.cases) auto

lemma colour_cases: "c \<noteq> Black \<longleftrightarrow> c = Red" "c \<noteq> Red \<longleftrightarrow> c = Black"
  by (cases c; simp)+

lemma col_paint [simp]: "col (paint Black t) = Black"
  by (cases t) simp_all

lemma inv_paint [simp]: "invc t \<Longrightarrow> invc (paint Black t)" "invh (paint k t) = invh t"
  "bh (paint Black t) = (if col t = Red then Suc (bh t) else bh t)"
  by (cases t; simp add: colour_cases)+

lemma paint_black: "rb_inv t \<Longrightarrow> paint Black t = t"
  by (cases t) (auto simp: rb_inv_def)

section \<open>Height\<close>

text \<open>
  The bound that the comment of \<open>tree.h\<close> states: a tree of $n$ elements is at most $2 \lg (n + 1)$
  high.
\<close>

lemma height_bh: "invc t \<Longrightarrow> invh t \<Longrightarrow> rb_height t \<le> 2 * bh t + (if col t = Red then 1 else 0)"
  by (induction t) (auto simp: max_def colour_cases split: if_splits)

lemma bh_size: "invh t \<Longrightarrow> 2 ^ bh t \<le> length (elems t) + 1"
  by (induction t) (auto split: if_splits)

lemma height_log:
  assumes "rb_inv t"
  shows "2 ^ rb_height t \<le> (length (elems t) + 1)\<^sup>2"
proof -
  have "rb_height t \<le> 2 * bh t" and "2 ^ bh t \<le> length (elems t) + 1"
    using assms height_bh [of t] bh_size [of t] by (auto simp: rb_inv_def)
  then have "(2::nat) ^ rb_height t \<le> (2 ^ bh t)\<^sup>2"
    by (simp flip: power_mult add: mult.commute [of 2])
  also have "\<dots> \<le> (length (elems t) + 1)\<^sup>2"
    using \<open>2 ^ bh t \<le> length (elems t) + 1\<close> by (rule power_mono) simp
  finally show ?thesis .
qed

text \<open>Enough rounds for every loop over a tree that holds the elements \<open>xs\<close>.\<close>

definition enough :: "nat \<Rightarrow> addr list \<Rightarrow> bool" where
  "enough n xs \<longleftrightarrow> (length xs + 1)\<^sup>2 < 2 ^ n"

lemma enough_height: "rb_inv t \<Longrightarrow> enough n (elems t) \<Longrightarrow> rb_height t < n"
  using height_log [of t] by (auto simp: enough_def dest: le_less_trans)

section \<open>Search trees\<close>

definition rbtree :: "(addr \<Rightarrow> 'k::linorder) \<Rightarrow> rbt \<Rightarrow> bool" where
  "rbtree key t \<longleftrightarrow> rb_inv t \<and> ascending key (elems t)"

lemma set_RB_COLOR_root:
  assumes "distinct (elems t)" and "t \<noteq> Lf"
  shows "set_RB_COLOR (root_of t) RB_BLACK (rb_state w t) = Inr ((), rb_state w (paint Black t))"
proof -
  obtain a where a: "root_of t = Some a" using assms(2) by (cases t) auto
  then show ?thesis
    using set_RB_COLOR_at [of "[]" t a Black w] assms root_in_elems [OF a] by simp
qed

section \<open>A small tree\<close>

text \<open>A memory in which every address holds an element, and three elements in a tree, for examples.\<close>

definition rb_blank :: rb_head where
  "rb_blank = \<lparr>rbh_root = None, rb_mem = (\<lambda>a. Some \<lparr>rbe_left = None, rbe_right = None, rbe_parent = None, rbe_color = 0\<rparr>)\<rparr>"

definition small_tree :: rbt where
  "small_tree = Nd Black (Nd Red Lf 2 Lf) 4 (Nd Red Lf 6 Lf)"

lemma small_tree_facts:
  "rbtree (\<lambda>a. a) small_tree" "elems small_tree = [2, 4, 6]" "enough 5 (elems small_tree)"
  by (simp_all add: small_tree_def rbtree_def rb_inv_def enough_def power2_eq_square)

lemma rb_blank_mem: "rb_mem rb_blank x \<noteq> None"
  by (simp add: rb_blank_def)

end
