(* ===== verification/RB_Insert.thy ===== *)
theory RB_Insert
  imports RB_Invariant
begin

text \<open>
  Insertion into a red-black tree: what \<open>RB_INSERT_COLOR\<close> and \<open>RB_INSERT\<close> do to a tree, that the
  result is again a red-black tree with the new element at its place, and that the loops end.
\<close>

section \<open>One round of RB_INSERT_COLOR\<close>

lemma is_red_Some [simp]: "is_red (Some a) s = bnd (RB_COLOR (Some a)) (\<lambda>c. ret (c = RB_RED)) s"
  by (simp add: is_red_def)

lemma is_red_None [simp]: "is_red None s = Inr (False, s)"
  by (simp add: is_red_def)

lemma insert_color_left_red:
  assumes "distinct (elems (plug cs (Nd k (Nd c l p r) g u)))" and "col u = Red"
  shows "insert_color_left x (Some p) (Some g) (rb_state w (plug cs (Nd k (Nd c l p r) g u))) =
           Inr (Some g, rb_state w (plug cs (Nd Red (Nd Black l p r) g (paint Black u))))"
  using assms by (cases u) (auto simp: insert_color_left_def rb_at RB_SET_BLACKRED_def)

lemma insert_color_right_red:
  assumes "distinct (elems (plug cs (Nd k u g (Nd c l p r))))" and "col u = Red"
  shows "insert_color_right x (Some p) (Some g) (rb_state w (plug cs (Nd k u g (Nd c l p r)))) =
           Inr (Some g, rb_state w (plug cs (Nd Red (paint Black u) g (Nd Black l p r))))"
  using assms by (cases u) (auto simp: insert_color_right_def rb_at RB_SET_BLACKRED_def)

lemma insert_color_left_outer:
  assumes "distinct (elems (plug cs (Nd k (Nd c l p r) g u)))" and "col u = Black" and "root_of r \<noteq> x"
  shows "insert_color_left x (Some p) (Some g) (rb_state w (plug cs (Nd k (Nd c l p r) g u))) =
           Inr (x, rb_state w (plug cs (Nd Black l p (Nd Red r g u))))"
  using assms by (cases u) (auto simp: insert_color_left_def rb_at RB_SET_BLACKRED_def)

lemma insert_color_right_outer:
  assumes "distinct (elems (plug cs (Nd k u g (Nd c l p r))))" and "col u = Black" and "root_of l \<noteq> x"
  shows "insert_color_right x (Some p) (Some g) (rb_state w (plug cs (Nd k u g (Nd c l p r)))) =
           Inr (x, rb_state w (plug cs (Nd Black (Nd Red u g l) p r)))"
  using assms by (cases u) (auto simp: insert_color_right_def rb_at RB_SET_BLACKRED_def)

lemma insert_color_left_inner:
  assumes "distinct (elems (plug cs (Nd k (Nd c l p (Nd d a x b)) g u)))" and "col u = Black"
  shows "insert_color_left (Some x) (Some p) (Some g)
             (rb_state w (plug cs (Nd k (Nd c l p (Nd d a x b)) g u))) =
           Inr (Some p, rb_state w (plug cs (Nd Black (Nd c l p a) x (Nd Red b g u))))"
  using assms by (cases u) (auto simp: insert_color_left_def rb_at RB_SET_BLACKRED_def)

lemma insert_color_right_inner:
  assumes "distinct (elems (plug cs (Nd k u g (Nd c (Nd d a x b) p r))))" and "col u = Black"
  shows "insert_color_right (Some x) (Some p) (Some g)
             (rb_state w (plug cs (Nd k u g (Nd c (Nd d a x b) p r)))) =
           Inr (Some p, rb_state w (plug cs (Nd Black (Nd Red u g a) x (Nd c b p r))))"
  using assms by (cases u) (auto simp: insert_color_right_def rb_at RB_SET_BLACKRED_def)

lemmas insert_color_rounds =
  insert_color_left_red insert_color_left_outer insert_color_left_inner
  insert_color_right_red insert_color_right_outer insert_color_right_inner

section \<open>The loop as a function on trees\<close>

text \<open>
  \<open>repair cs l x r\<close> is the tree that the loop leaves when it starts at a red node \<open>x\<close> with subtrees
  \<open>l\<close> and \<open>r\<close> below the path \<open>cs\<close>.
\<close>

fun repair :: "frame list \<Rightarrow> rbt \<Rightarrow> addr \<Rightarrow> rbt \<Rightarrow> rbt" where
  "repair (LeftF Red p r # LeftF k g u # cs) a x b =
     (if col u = Red then repair cs (Nd Black (Nd Red a x b) p r) g (paint Black u)
      else plug cs (Nd Black (Nd Red a x b) p (Nd Red r g u)))"
| "repair (RightF Red l p # LeftF k g u # cs) a x b =
     (if col u = Red then repair cs (Nd Black l p (Nd Red a x b)) g (paint Black u)
      else plug cs (Nd Black (Nd Red l p a) x (Nd Red b g u)))"
| "repair (LeftF Red p r # RightF k u g # cs) a x b =
     (if col u = Red then repair cs (paint Black u) g (Nd Black (Nd Red a x b) p r)
      else plug cs (Nd Black (Nd Red u g a) x (Nd Red b p r)))"
| "repair (RightF Red l p # RightF k u g # cs) a x b =
     (if col u = Red then repair cs (paint Black u) g (Nd Black l p (Nd Red a x b))
      else plug cs (Nd Black (Nd Red u g l) p (Nd Red a x b)))"
| "repair cs a x b = plug cs (Nd Red a x b)"

lemma elems_repair [simp]: "elems (repair cs a x b) = before cs @ elems a @ x # elems b @ after cs"
  by (induction cs a x b rule: repair.induct) (auto simp del: plug.simps)

text \<open>
  A red parent is never the root: below such a path the loop finds the grandparent it asks for.
\<close>

fun red_has_parent :: "frame list \<Rightarrow> bool" where
  "red_has_parent [] = True"
| "red_has_parent [f] = (colour_of f = Black)"
| "red_has_parent (f # cs) = red_has_parent cs"

lemma red_has_parent_Cons: "red_has_parent (f # cs) \<Longrightarrow> red_has_parent cs"
  by (cases cs) simp_all

lemma insert_color_stop:
  assumes "0 < n"
  shows "distinct (elems (plug cs (Nd Black (Nd Red a x b) p r))) \<Longrightarrow>
         insert_color_loop n (Some x) (rb_state w (plug cs (Nd Black (Nd Red a x b) p r))) =
           Inr ((), rb_state w (plug cs (Nd Black (Nd Red a x b) p r)))"
    and "distinct (elems (plug cs (Nd Black l p (Nd Red a x b)))) \<Longrightarrow>
         insert_color_loop n (Some x) (rb_state w (plug cs (Nd Black l p (Nd Red a x b)))) =
           Inr ((), rb_state w (plug cs (Nd Black l p (Nd Red a x b))))"
  using assms by (cases n; auto simp: rb_at)+

lemma insert_color_root:
  assumes "0 < n" and "distinct (elems (Nd Red a x b))"
  shows "insert_color_loop n (Some x) (rb_state w (Nd Red a x b)) = Inr ((), rb_state w (Nd Red a x b))"
  using assms RB_PARENT_at [of "[]" "Nd Red a x b" x w] by (cases n) auto

lemma insert_color_done:
  assumes "0 < n" and "distinct (elems (plug cs (Nd Red a x b)))" and "cs = [] \<or> colour_of (hd cs) = Black"
  shows "insert_color_loop n (Some x) (rb_state w (plug cs (Nd Red a x b))) =
           Inr ((), rb_state w (plug cs (Nd Red a x b)))"
  using assms by (cases cs rule: before.cases) (auto simp: insert_color_root insert_color_stop)

lemma insert_color_loop_repair:
  assumes "distinct (elems (plug cs (Nd Red a x b)))" and "red_has_parent cs" and "length cs < 2 * n"
  shows "insert_color_loop n (Some x) (rb_state w (plug cs (Nd Red a x b))) =
           Inr ((), rb_state w (repair cs a x b))"
  using assms
proof (induction cs a x b arbitrary: n rule: repair.induct)
  case (1 p r k g u cs a x b)
  then obtain n' where "n = Suc n'" "length cs < 2 * n'" by (cases n) auto
  with 1 show ?case
    by (cases "col u") (auto simp: rb_at insert_color_rounds insert_color_stop dest: red_has_parent_Cons)
next
  case (2 l p k g u cs a x b)
  then obtain n' where "n = Suc n'" "length cs < 2 * n'" by (cases n) auto
  with 2 show ?case
    by (cases "col u") (auto simp: rb_at insert_color_rounds insert_color_stop dest: red_has_parent_Cons)
next
  case (3 p r k u g cs a x b)
  then obtain n' where "n = Suc n'" "length cs < 2 * n'" by (cases n) auto
  with 3 show ?case
    by (cases "col u") (auto simp: rb_at insert_color_rounds insert_color_stop dest: red_has_parent_Cons)
next
  case (4 l p k u g cs a x b)
  then obtain n' where "n = Suc n'" "length cs < 2 * n'" by (cases n) auto
  with 4 show ?case
    by (cases "col u") (auto simp: rb_at insert_color_rounds insert_color_stop dest: red_has_parent_Cons)
qed (auto simp: insert_color_done simp del: plug.simps elems_plug)

lemma path_inv_red_has_parent: "path_inv cs h c \<Longrightarrow> red_has_parent cs"
proof (induction cs arbitrary: h c rule: red_has_parent.induct)
  case (2 f)
  then show ?case by (cases f) auto
next
  case (3 f g cs)
  then show ?case by (cases f) auto
qed simp

lemma repair_stop_inv:
  assumes "path_inv cs (bh b) Black" and "invc a" "invh a" "invc b" "invh b" "bh a = bh b"
    "col a = Black" "col b = Black" and "length cs \<le> 1 \<or> colour_of (hd cs) = Black"
  shows "rb_inv (paint Black (plug cs (Nd Red a x b)))"
proof (cases cs)
  case Nil
  with assms show ?thesis by (simp add: rb_inv_def)
next
  case (Cons f ds)
  with assms have "rb_inv (plug cs (Nd Red a x b))"
    by (cases f) (auto simp: rb_inv_plug)
  then show ?thesis by (simp add: paint_black)
qed

lemma repair_inv:
  assumes "path_inv cs (bh a) Black" and "invc a" "invh a" "invc b" "invh b" "bh a = bh b"
    "col a = Black" "col b = Black"
  shows "rb_inv (paint Black (repair cs a x b))"
  using assms
proof (induction cs a x b rule: repair.induct)
  case (1 p r k g u cs a x b)
  then show ?case by (cases k; cases "col u") (simp_all add: rb_inv_plug paint_black)
next
  case (2 l p k g u cs a x b)
  then show ?case by (cases k; cases "col u") (simp_all add: rb_inv_plug paint_black)
next
  case (3 p r k u g cs a x b)
  then show ?case by (cases k; cases "col u") (simp_all add: rb_inv_plug paint_black)
next
  case (4 l p k u g cs a x b)
  then show ?case by (cases k; cases "col u") (simp_all add: rb_inv_plug paint_black)
qed (simp_all add: repair_stop_inv del: plug.simps path_inv.simps)

section \<open>The descent of RB_INSERT\<close>

fun locate :: "comparison \<Rightarrow> addr \<Rightarrow> rbt \<Rightarrow> frame list \<Rightarrow> addr + frame list" where
  "locate cmp x Lf cs = Inr cs"
| "locate cmp x (Nd c l a r) cs =
     (if cmp x a < 0 then locate cmp x l (LeftF c a r # cs)
      else if cmp x a > 0 then locate cmp x r (RightF c l a # cs)
      else Inl a)"

text \<open>The last comparison tells on which side of its parent the new element goes.\<close>

fun sided :: "frame list \<Rightarrow> int \<Rightarrow> bool" where
  "sided [] v = True"
| "sided (LeftF c a r # cs) v = (v < 0)"
| "sided (RightF c l a # cs) v = (\<not> v < 0)"

lemma insert_descend_found:
  assumes "distinct (elems (plug cs t))" and "rb_height t < n" and "locate cmp x t cs = Inl a"
  shows "insert_descend cmp n x (root_of t) (parent_of cs) v (rb_state w (plug cs t)) =
           Inr (Inl a, rb_state w (plug cs t))"
  using assms
proof (induction t arbitrary: cs n v)
  case (Nd c l b r)
  then obtain n' where "n = Suc n'" "rb_height l < n'" "rb_height r < n'" by (cases n) auto
  with Nd.prems Nd.IH(1) [of "LeftF c b r # cs" n'] Nd.IH(2) [of "RightF c l b # cs" n']
  show ?case by (auto simp: rb_at split: if_splits)
qed simp

lemma insert_descend_free:
  assumes "distinct (elems (plug cs t))" and "rb_height t < n" and "locate cmp x t cs = Inr ds"
    and "sided cs v"
  shows "\<exists>v'. sided ds v' \<and>
    insert_descend cmp n x (root_of t) (parent_of cs) v (rb_state w (plug cs t)) =
      Inr (Inr (parent_of ds, v'), rb_state w (plug cs t))"
  using assms
proof (induction t arbitrary: cs n v)
  case Lf
  then show ?case by (cases n) auto
next
  case (Nd c l b r)
  then obtain n' where "n = Suc n'" "rb_height l < n'" "rb_height r < n'" by (cases n) auto
  with Nd.prems Nd.IH(1) [of "LeftF c b r # cs" n' "cmp x b"]
    Nd.IH(2) [of "RightF c l b # cs" n' "cmp x b"]
  show ?case by (auto simp: rb_at split: if_splits)
qed

lemma locate_free: "locate cmp x t cs = Inr ds \<Longrightarrow> plug ds Lf = plug cs t"
  by (induction t arbitrary: cs) (auto split: if_splits)

text \<open>Linking a new element in below a path.\<close>

lemma insert_link:
  assumes "distinct (elems (plug cs (Nd Red Lf x Lf)))" and "rb_mem w x \<noteq> None" and "sided cs v"
  shows "rb_link (Some x) (parent_of cs) v (rb_state w (plug cs Lf)) =
           Inr ((), rb_state w (plug cs (Nd Red Lf x Lf)))"
proof -
  obtain m where m: "store (rb_mem w) None (plug cs Lf) = m" by simp
  have d: "distinct (elems (plug cs Lf))" and x: "x \<notin> set (elems (plug cs Lf))"
    using assms(1) by auto
  have at: "path_at m None cs"
    using tree_at_store [OF d, of "rb_mem w" None] by (simp add: m tree_at_plug)
  have out: "m z = rb_mem w z" if "z \<notin> set (elems (plug cs Lf))" for z
    unfolding m [symmetric] using that by (rule store_outside)
  obtain e where e: "m x = Some e" using assms(2) out [OF x] by auto
  let ?m = "hang cs (Some x) (m(x \<mapsto>
    \<lparr>rbe_left = None, rbe_right = None, rbe_parent = parent_of cs, rbe_color = shade Red\<rparr>))"
  have "rb_link (Some x) (parent_of cs) v (rb_with w (head_of cs None) m) =
           Inr ((), rb_with w (head_of cs (Some x)) ?m)"
    using at e x assms(3) by (cases e; cases cs rule: before.cases) (auto simp: rb_run RB_SET_def rb_link_def)
  moreover have "rb_with w (head_of cs (Some x)) ?m = rb_state w (plug cs (Nd Red Lf x Lf))"
  proof (rule rb_with_eqI)
    show "tree_at ?m None (plug cs (Nd Red Lf x Lf))"
      using at x d by (simp add: tree_at_plug)
  qed (use assms out in \<open>auto simp: head_of_plug\<close>)
  ultimately show ?thesis by (simp add: rb_state_with m head_of_plug)
qed

lemma locate_Inl:
  "orders cmp key \<Longrightarrow> locate cmp x t cs = Inl a \<Longrightarrow> a \<in> set (elems t) \<and> key a = key x"
  by (induction t arbitrary: cs) (auto simp: orders_less orders_greater split: if_splits)

lemma locate_Inr:
  assumes "orders cmp key" and "locate cmp x t cs = Inr ds" and "ascending key (elems t)"
    and "\<forall>a\<in>set (before cs). key a < key x" and "\<forall>a\<in>set (after cs). key x < key a"
  shows "(\<forall>a\<in>set (before ds). key a < key x) \<and> (\<forall>a\<in>set (after ds). key x < key a)"
  using assms(2-)
proof (induction t arbitrary: cs)
  case (Nd c l a r)
  consider "key x < key a" | "key a < key x" | "locate cmp x (Nd c l a r) cs = Inl a"
    by (cases "key x" "key a" rule: linorder_cases)
      (auto simp: orders_less [OF assms(1)] orders_greater [OF assms(1)])
  then show ?case
  proof cases
    case 1
    with Nd.prems have "\<forall>b\<in>set (after (LeftF c a r # cs)). key x < key b" by (auto intro: less_trans [OF 1])
    moreover have "locate cmp x l (LeftF c a r # cs) = Inr ds"
      using 1 Nd.prems(1) by (simp add: orders_less [OF assms(1)])
    ultimately show ?thesis using Nd.prems(2,3) by (intro Nd.IH(1) [of "LeftF c a r # cs"]) simp_all
  next
    case 2
    with Nd.prems have "\<forall>b\<in>set (before (RightF c l a # cs)). key b < key x" by (auto intro: less_trans [OF _ 2])
    moreover have "locate cmp x r (RightF c l a # cs) = Inr ds"
      using 2 Nd.prems(1) by (auto simp: orders_less [OF assms(1)] orders_greater [OF assms(1)] split: if_splits)
    ultimately show ?thesis using Nd.prems(2,4) by (intro Nd.IH(2) [of "RightF c l a # cs"]) simp_all
  next
    case 3
    with Nd.prems show ?thesis by simp
  qed
qed simp

section \<open>RB_INSERT\<close>

lemma repair_not_Lf [simp]: "repair cs a x b \<noteq> Lf"
proof
  assume "repair cs a x b = Lf"
  then have "elems (repair cs a x b) = []" by simp
  then show False by (simp del: elems.simps)
qed

lemma RB_INSERT_COLOR_repair:
  assumes "distinct (elems (plug cs (Nd Red a x b)))" and "red_has_parent cs" and "length cs < 2 * n"
  shows "RB_INSERT_COLOR n (Some x) (rb_state w (plug cs (Nd Red a x b))) =
           Inr ((), rb_state w (paint Black (repair cs a x b)))"
proof -
  have "distinct (elems (repair cs a x b))" using assms(1) by simp
  from set_RB_COLOR_root [OF this, of w] insert_color_loop_repair [OF assms, of w]
  show ?thesis by (simp add: RB_INSERT_COLOR_def)
qed

text \<open>
  With enough rounds the insertion returns; without an equal element it links the new one in at its
  place, and the tree is a red-black tree again; with one it leaves the state alone and returns it.
\<close>

lemma RB_INSERT_new:
  assumes "orders cmp key" and "rbtree key t" and "rb_height t < n"
    and "key x \<notin> key ` set (elems t)" and "rb_mem w x \<noteq> None"
  shows "\<exists>t'. RB_INSERT cmp n x (rb_state w t) = Inr (None, rb_state w t') \<and>
    rbtree key t' \<and> elems t' = insort_key key x (elems t)"
proof -
  have asc: "ascending key (elems t)" and inv: "rb_inv t" using assms(2) by (auto simp: rbtree_def)
  have "locate cmp x t [] \<noteq> Inl a" for a
    using locate_Inl [OF assms(1), of x t "[]" a] assms(4) by (metis image_eqI)
  then obtain ds where ds: "locate cmp x t [] = Inr ds" by (cases "locate cmp x t []") auto
  have t: "plug ds Lf = t" using locate_free [OF ds] by simp
  have key: "\<forall>a\<in>set (before ds). key a < key x" "\<forall>a\<in>set (after ds). key x < key a"
    using locate_Inr [OF assms(1) ds asc] by auto
  have els: "elems t = before ds @ after ds" using elems_plug [of ds Lf] by (simp add: t)
  have els': "before ds @ x # after ds = insort_key key x (elems t)"
    using insort_between [OF key] by (simp add: els)
  have asc': "ascending key (before ds @ x # after ds)" using asc key by (auto simp: els)
  have dist: "distinct (elems (plug ds (Nd Red Lf x Lf)))" using ascending_distinct [OF asc'] by simp
  have pinv: "path_inv ds 0 Black" using inv rb_inv_plug [of ds Lf] by (simp add: t)
  have len: "length ds < 2 * n" using height_plug [of ds Lf] assms(3) by (simp add: t)
  obtain v where v: "sided ds v" and
    run: "insert_descend cmp n x (root_of t) None 0 (rb_state w t) = Inr (Inr (parent_of ds, v), rb_state w t)"
    using insert_descend_free [of "[]" t n cmp x ds 0 w] ds assms(3) ascending_distinct [OF asc] by auto
  have "RB_INSERT cmp n x (rb_state w t) = Inr (None, rb_state w (paint Black (repair ds Lf x Lf)))"
    using insert_link [OF dist assms(5) v]
      RB_INSERT_COLOR_repair [OF dist path_inv_red_has_parent [OF pinv] len, of w]
    by (simp add: RB_INSERT_def run t)
  moreover have "rb_inv (paint Black (repair ds Lf x Lf))" using pinv by (intro repair_inv) auto
  ultimately show ?thesis using asc' els' by (auto simp: rbtree_def)
qed

lemma RB_INSERT_equal:
  assumes "orders cmp key" and "rbtree key t" and "rb_height t < n" and "a \<in> set (elems t)" and "key a = key x"
  shows "RB_INSERT cmp n x (rb_state w t) = Inr (Some a, rb_state w t)"
proof -
  have asc: "ascending key (elems t)" using assms(2) by (auto simp: rbtree_def)
  have "locate cmp x t [] \<noteq> Inr ds" for ds
  proof
    assume ds: "locate cmp x t [] = Inr ds"
    from locate_Inr [OF assms(1) ds asc] have "key a \<noteq> key x" if "a \<in> set (elems (plug ds Lf))" for a
      using that by auto
    with locate_free [OF ds] assms(4,5) show False by auto
  qed
  then obtain b where b: "locate cmp x t [] = Inl b" by (cases "locate cmp x t []") auto
  with locate_Inl [OF assms(1) b] ascending_key_inj [OF asc] assms(4,5) have "b = a" by auto
  with insert_descend_found [of "[]" t n cmp x b 0 w] b assms(3) ascending_distinct [OF asc]
  show ?thesis by (simp add: RB_INSERT_def)
qed

text \<open>C24: \<open>RB_INSERT\<close> returns within a number of rounds that is logarithmic in the number of elements.
  If the tree has an element with the same key it returns that element and changes nothing;
  otherwise it returns NULL and the memory holds a red-black tree in which the new element stands at
  its place in the order.\<close>

theorem rb_insert:
  assumes "orders cmp key" and "rbtree key t" and "enough n (elems t)" and "rb_mem w x \<noteq> None"
  shows "if key x \<in> key ` set (elems t)
    then \<exists>a\<in>set (elems t). key a = key x \<and> RB_INSERT cmp n x (rb_state w t) = Inr (Some a, rb_state w t)
    else \<exists>t'. RB_INSERT cmp n x (rb_state w t) = Inr (None, rb_state w t') \<and>
      rbtree key t' \<and> elems t' = insort_key key x (elems t)"
proof -
  have h: "rb_height t < n" using assms(2,3) by (auto simp: rbtree_def intro: enough_height)
  show ?thesis
    using RB_INSERT_equal [OF assms(1,2) h, of _ x w] RB_INSERT_new [OF assms(1,2) h _ assms(4)] by auto
qed

theorem rb_insert_witness:
  "\<exists>t'. RB_INSERT plain_cmp 5 5 (rb_state rb_blank small_tree) = Inr (None, rb_state rb_blank t') \<and>
     rbtree (\<lambda>a. a) t' \<and> elems t' = [2, 4, 5, 6]"
  using rb_insert [OF orders_plain small_tree_facts(1,3), of rb_blank 5] rb_blank_mem
  by (simp add: small_tree_facts(2))

end
