(* ===== verification/RB_Remove.thy ===== *)
theory RB_Remove
  imports RB_Invariant
begin

text \<open>
  Removal from a red-black tree: what \<open>RB_REMOVE_COLOR\<close> and \<open>RB_REMOVE\<close> do to a tree, that the
  result is again a red-black tree without the element, and that the loops end.
\<close>

section \<open>One round of RB_REMOVE_COLOR\<close>

lemma is_black_Some [simp]: "is_black (Some a) s = bnd (RB_COLOR (Some a)) (\<lambda>c. ret (c = RB_BLACK)) s"
  by (simp add: is_black_def)

lemma is_black_None [simp]: "is_black None s = Inr (True, s)"
  by (simp add: is_black_def)

lemmas rotate_left_deep = rotate_left_focus [of "LeftF k g u # RightF k' u' g' # cs" for k g u k' u' g' cs, simplified plug.simps fill.simps]
lemmas rotate_right_deep = rotate_right_focus [of "RightF k u g # LeftF k' g' u' # cs" for k g u k' u' g' cs, simplified plug.simps fill.simps]

lemmas remove_run = rb_at RB_SET_BLACKRED_def rotate_left_deep rotate_right_deep

text \<open>Testing the colour of a whole subtree.\<close>

fun sub :: "rbt \<Rightarrow> rbt \<Rightarrow> bool" where
  "sub u Lf = (u = Lf)"
| "sub u (Nd c l a r) = (u = Nd c l a r \<or> sub u l \<or> sub u r)"

lemma sub_refl [simp]: "sub u u"
  by (cases u) simp_all

lemma tree_at_sub: "sub u t \<Longrightarrow> tree_at m p t \<Longrightarrow> \<exists>q. tree_at m q u"
  by (induction t arbitrary: p) auto

lemma is_black_at:
  assumes "distinct (elems (plug cs t))" and "sub u t"
  shows "is_black (root_of u) (rb_state w (plug cs t)) = Inr (col u = Black, rb_state w (plug cs t))"
proof -
  have "tree_at (rb_mem (rb_state w (plug cs t))) (parent_of cs) t"
    using tree_at_state [OF assms(1), of w] by (simp add: tree_at_plug)
  from tree_at_sub [OF assms(2) this] obtain q where "tree_at (rb_mem (rb_state w (plug cs t))) q u" ..
  then show ?thesis by (cases u) (auto simp: RB_COLOR_def rb_get_eq)
qed

lemma sub_trans: "sub u t \<Longrightarrow> sub t t' \<Longrightarrow> sub u t'"
  by (induction t') auto

lemma sub_elems: "sub (Nd d l a r) t \<Longrightarrow> a \<in> set (elems t)"
  by (induction t) auto

lemma both_black_at:
  assumes "distinct (elems (plug cs t))" and "sub (Nd d l a r) t"
  shows "both_black (Some a) (rb_state w (plug cs t)) =
           Inr (col l = Black \<and> col r = Black, rb_state w (plug cs t))"
proof -
  have "tree_at (rb_mem (rb_state w (plug cs t))) (parent_of cs) t"
    using tree_at_state [OF assms(1), of w] by (simp add: tree_at_plug)
  from tree_at_sub [OF assms(2) this] obtain e where
    "rb_mem (rb_state w (plug cs t)) a = Some e" "rbe_left e = root_of l" "rbe_right e = root_of r" by auto
  moreover have "sub l t" "sub r t" using sub_trans [OF _ assms(2)] by auto
  ultimately show ?thesis
    by (simp add: both_black_def RB_LEFT_def RB_RIGHT_def rb_get_eq is_black_at [OF assms(1)])
qed

lemma remove_color_left_up:
  assumes "distinct (elems (plug cs (Nd k t p (Nd Black b s c))))" and "col b = Black" "col c = Black"
  shows "remove_color_left (Some p) e (rb_state w (plug cs (Nd k t p (Nd Black b s c)))) =
           Inr ((False, parent_of cs, Some p), rb_state w (plug cs (Nd k t p (Nd Red b s c))))"
  using assms
  by (simp add: remove_color_left_def remove_run is_black_at head_of_plug
      both_black_at [where d = Black and l = "b" and r = "c"])

lemma remove_color_left_inner:
  assumes "distinct (elems (plug cs (Nd k t p (Nd Black (Nd Red b1 v b2) s c))))" and "col c = Black"
  shows "remove_color_left (Some p) e (rb_state w (plug cs (Nd k t p (Nd Black (Nd Red b1 v b2) s c)))) =
           Inr ((True, Some p, head_of cs (Some v)), rb_state w (plug cs (Nd k (Nd Black t p b1) v (Nd Black b2 s c))))"
  using assms
  by (simp add: remove_color_left_def remove_run is_black_at head_of_plug
      both_black_at [where d = Black and l = "Nd Red b1 v b2" and r = "c"])

lemma remove_color_left_outer:
  assumes "distinct (elems (plug cs (Nd k t p (Nd Black b s (Nd Red c1 v c2)))))"
  shows "remove_color_left (Some p) e (rb_state w (plug cs (Nd k t p (Nd Black b s (Nd Red c1 v c2))))) =
           Inr ((True, Some p, head_of cs (Some s)), rb_state w (plug cs (Nd k (Nd Black t p b) s (Nd Black c1 v c2))))"
  using assms
  by (simp add: remove_color_left_def remove_run is_black_at head_of_plug
      both_black_at [where d = Black and l = "b" and r = "Nd Red c1 v c2"])

lemma remove_color_left_red_up:
  assumes "distinct (elems (plug cs (Nd Black t p (Nd Red (Nd Black b x c) s d))))" and "col b = Black" "col c = Black"
  shows "remove_color_left (Some p) e (rb_state w (plug cs (Nd Black t p (Nd Red (Nd Black b x c) s d)))) =
           Inr ((False, Some s, Some p), rb_state w (plug cs (Nd Black (Nd Red t p (Nd Red b x c)) s d)))"
  using assms
  by (simp add: remove_color_left_def remove_run is_black_at head_of_plug
      both_black_at [where d = Black and l = "b" and r = "c"])

lemma remove_color_left_red_inner:
  assumes "distinct (elems (plug cs (Nd Black t p (Nd Red (Nd Black (Nd Red b1 v b2) x c) s d))))" and "col c = Black"
  shows "remove_color_left (Some p) e (rb_state w (plug cs (Nd Black t p (Nd Red (Nd Black (Nd Red b1 v b2) x c) s d)))) =
           Inr ((True, Some p, head_of cs (Some s)), rb_state w (plug cs (Nd Black (Nd Red (Nd Black t p b1) v (Nd Black b2 x c)) s d)))"
  using assms
  by (simp add: remove_color_left_def remove_run is_black_at head_of_plug
      both_black_at [where d = Black and l = "Nd Red b1 v b2" and r = "c"])

lemma remove_color_left_red_outer:
  assumes "distinct (elems (plug cs (Nd Black t p (Nd Red (Nd Black b x (Nd Red c1 v c2)) s d))))"
  shows "remove_color_left (Some p) e (rb_state w (plug cs (Nd Black t p (Nd Red (Nd Black b x (Nd Red c1 v c2)) s d)))) =
           Inr ((True, Some p, head_of cs (Some s)), rb_state w (plug cs (Nd Black (Nd Red (Nd Black t p b) x (Nd Black c1 v c2)) s d)))"
  using assms
  by (simp add: remove_color_left_def remove_run is_black_at head_of_plug
      both_black_at [where d = Black and l = "b" and r = "Nd Red c1 v c2"])

lemma remove_color_right_up:
  assumes "distinct (elems (plug cs (Nd k (Nd Black c s b) p t)))" and "col b = Black" "col c = Black"
  shows "remove_color_right (Some p) e (rb_state w (plug cs (Nd k (Nd Black c s b) p t))) =
           Inr ((False, parent_of cs, Some p), rb_state w (plug cs (Nd k (Nd Red c s b) p t)))"
  using assms
  by (simp add: remove_color_right_def remove_run is_black_at head_of_plug
      both_black_at [where d = Black and l = "c" and r = "b"])

lemma remove_color_right_inner:
  assumes "distinct (elems (plug cs (Nd k (Nd Black c s (Nd Red b2 v b1)) p t)))" and "col c = Black"
  shows "remove_color_right (Some p) e (rb_state w (plug cs (Nd k (Nd Black c s (Nd Red b2 v b1)) p t))) =
           Inr ((True, Some p, head_of cs (Some v)), rb_state w (plug cs (Nd k (Nd Black c s b2) v (Nd Black b1 p t))))"
  using assms
  by (simp add: remove_color_right_def remove_run is_black_at head_of_plug
      both_black_at [where d = Black and l = "c" and r = "Nd Red b2 v b1"])

lemma remove_color_right_outer:
  assumes "distinct (elems (plug cs (Nd k (Nd Black (Nd Red c2 v c1) s b) p t)))"
  shows "remove_color_right (Some p) e (rb_state w (plug cs (Nd k (Nd Black (Nd Red c2 v c1) s b) p t))) =
           Inr ((True, Some p, head_of cs (Some s)), rb_state w (plug cs (Nd k (Nd Black c2 v c1) s (Nd Black b p t))))"
  using assms
  by (simp add: remove_color_right_def remove_run is_black_at head_of_plug
      both_black_at [where d = Black and l = "Nd Red c2 v c1" and r = "b"])

lemma remove_color_right_red_up:
  assumes "distinct (elems (plug cs (Nd Black (Nd Red d s (Nd Black c x b)) p t)))" and "col b = Black" "col c = Black"
  shows "remove_color_right (Some p) e (rb_state w (plug cs (Nd Black (Nd Red d s (Nd Black c x b)) p t))) =
           Inr ((False, Some s, Some p), rb_state w (plug cs (Nd Black d s (Nd Red (Nd Red c x b) p t))))"
  using assms
  by (simp add: remove_color_right_def remove_run is_black_at head_of_plug
      both_black_at [where d = Black and l = "c" and r = "b"])

lemma remove_color_right_red_inner:
  assumes "distinct (elems (plug cs (Nd Black (Nd Red d s (Nd Black c x (Nd Red b2 v b1))) p t)))" and "col c = Black"
  shows "remove_color_right (Some p) e (rb_state w (plug cs (Nd Black (Nd Red d s (Nd Black c x (Nd Red b2 v b1))) p t))) =
           Inr ((True, Some p, head_of cs (Some s)), rb_state w (plug cs (Nd Black d s (Nd Red (Nd Black c x b2) v (Nd Black b1 p t)))))"
  using assms
  by (simp add: remove_color_right_def remove_run is_black_at head_of_plug
      both_black_at [where d = Black and l = "c" and r = "Nd Red b2 v b1"])

lemma remove_color_right_red_outer:
  assumes "distinct (elems (plug cs (Nd Black (Nd Red d s (Nd Black (Nd Red c2 v c1) x b)) p t)))"
  shows "remove_color_right (Some p) e (rb_state w (plug cs (Nd Black (Nd Red d s (Nd Black (Nd Red c2 v c1) x b)) p t))) =
           Inr ((True, Some p, head_of cs (Some s)), rb_state w (plug cs (Nd Black d s (Nd Red (Nd Black c2 v c1) x (Nd Black b p t)))))"
  using assms
  by (simp add: remove_color_right_def remove_run is_black_at head_of_plug
      both_black_at [where d = Black and l = "Nd Red c2 v c1" and r = "b"])

section \<open>The loop as a function on trees\<close>

text \<open>
  What a round does at a node \<open>p\<close> whose subtree \<open>t\<close> is short of a black node and whose other
  subtree has a black root: it stops with a subtree of the right height, or moves on to the parent.
\<close>

fun lift_left :: "colour \<Rightarrow> rbt \<Rightarrow> addr \<Rightarrow> rbt \<Rightarrow> bool \<times> rbt" where
  "lift_left k t p (Nd d b s c) =
     (if col b = Black \<and> col c = Black then (False, Nd k t p (Nd Red b s c))
      else if col c = Black
      then (case b of
              Nd e b1 v b2 \<Rightarrow> (True, Nd k (Nd Black t p b1) v (Nd Black b2 s c))
            | Lf \<Rightarrow> (True, Lf))
      else (True, Nd k (Nd Black t p b) s (paint Black c)))"
| "lift_left k t p Lf = (True, Lf)"

fun lift_right :: "colour \<Rightarrow> rbt \<Rightarrow> addr \<Rightarrow> rbt \<Rightarrow> bool \<times> rbt" where
  "lift_right k t p (Nd d c s b) =
     (if col b = Black \<and> col c = Black then (False, Nd k (Nd Red c s b) p t)
      else if col c = Black
      then (case b of
              Nd e b2 v b1 \<Rightarrow> (True, Nd k (Nd Black c s b2) v (Nd Black b1 p t))
            | Lf \<Rightarrow> (True, Lf))
      else (True, Nd k (paint Black c) s (Nd Black b p t)))"
| "lift_right k t p Lf = (True, Lf)"

lemma red_root: "col t = Red \<Longrightarrow> \<exists>l a r. t = Nd Red l a r"
  by (cases t) auto

lemma round_left_black:
  assumes "distinct (elems (plug cs (Nd k t p (Nd Black b s c))))"
    and "lift_left k t p (Nd Black b s c) = (stop, u)"
  shows "remove_color_left (Some p) e (rb_state w (plug cs (Nd k t p (Nd Black b s c)))) =
           Inr ((stop, if stop then (Some p, root_of (plug cs u)) else (parent_of cs, Some p)),
                rb_state w (plug cs u))"
  using assms
  by (cases "col b"; cases "col c")
    (auto simp: head_of_plug remove_color_left_up remove_color_left_inner remove_color_left_outer
      simp del: elems_plug dest!: red_root)

lemma round_right_black:
  assumes "distinct (elems (plug cs (Nd k (Nd Black c s b) p t)))"
    and "lift_right k t p (Nd Black c s b) = (stop, u)"
  shows "remove_color_right (Some p) e (rb_state w (plug cs (Nd k (Nd Black c s b) p t))) =
           Inr ((stop, if stop then (Some p, root_of (plug cs u)) else (parent_of cs, Some p)),
                rb_state w (plug cs u))"
  using assms
  by (cases "col b"; cases "col c")
    (auto simp: head_of_plug remove_color_right_up remove_color_right_inner remove_color_right_outer
      simp del: elems_plug dest!: red_root)

lemma round_left_red:
  assumes "distinct (elems (plug cs (Nd Black t p (Nd Red (Nd Black b x c) s d))))"
    and "lift_left Red t p (Nd Black b x c) = (stop, u)"
  shows "remove_color_left (Some p) e (rb_state w (plug cs (Nd Black t p (Nd Red (Nd Black b x c) s d)))) =
           Inr ((stop, if stop then (Some p, head_of cs (Some s)) else (Some s, Some p)),
                rb_state w (plug cs (Nd Black u s d)))"
  using assms
  by (cases "col b"; cases "col c")
    (auto simp: head_of_plug remove_color_left_red_up remove_color_left_red_inner remove_color_left_red_outer
      simp del: elems_plug dest!: red_root)

lemma round_right_red:
  assumes "distinct (elems (plug cs (Nd Black (Nd Red d s (Nd Black c x b)) p t)))"
    and "lift_right Red t p (Nd Black c x b) = (stop, u)"
  shows "remove_color_right (Some p) e (rb_state w (plug cs (Nd Black (Nd Red d s (Nd Black c x b)) p t))) =
           Inr ((stop, if stop then (Some p, head_of cs (Some s)) else (Some s, Some p)),
                rb_state w (plug cs (Nd Black d s u)))"
  using assms
  by (cases "col b"; cases "col c")
    (auto simp: head_of_plug remove_color_right_red_up remove_color_right_red_inner remove_color_right_red_outer
      simp del: elems_plug dest!: red_root)

text \<open>
  \<open>refill cs t\<close> is the tree that \<open>RB_REMOVE_COLOR\<close> leaves when it starts at a subtree \<open>t\<close> that is
  short of a black node below the path \<open>cs\<close>.
\<close>

fun refill :: "frame list \<Rightarrow> rbt \<Rightarrow> rbt" where
  "refill [] t = paint Black t"
| "refill (LeftF k p s # cs) t =
     (if col t = Red then plug cs (Nd k (paint Black t) p s)
      else case s of
        Nd Red b w c \<Rightarrow>
          (case lift_left Red t p b of (stop, u) \<Rightarrow>
             if stop then paint Black (plug cs (Nd Black u w c)) else plug cs (Nd Black (paint Black u) w c))
      | _ \<Rightarrow>
          (case lift_left k t p s of (stop, u) \<Rightarrow> if stop then paint Black (plug cs u) else refill cs u))"
| "refill (RightF k s p # cs) t =
     (if col t = Red then plug cs (Nd k s p (paint Black t))
      else case s of
        Nd Red c w b \<Rightarrow>
          (case lift_right Red t p b of (stop, u) \<Rightarrow>
             if stop then paint Black (plug cs (Nd Black c w u)) else plug cs (Nd Black c w (paint Black u)))
      | _ \<Rightarrow>
          (case lift_right k t p s of (stop, u) \<Rightarrow> if stop then paint Black (plug cs u) else refill cs u))"

lemma lift_left_elems:
  "bh s \<noteq> 0 \<Longrightarrow> lift_left k t p s = (stop, u) \<Longrightarrow> elems u = elems t @ p # elems s"
  by (cases s) (auto simp: colour_cases split: if_splits rbt.splits)

lemma lift_right_elems:
  "bh s \<noteq> 0 \<Longrightarrow> lift_right k t p s = (stop, u) \<Longrightarrow> elems u = elems s @ p # elems t"
  by (cases s) (auto simp: colour_cases split: if_splits rbt.splits)

lemma lift_left_inv:
  assumes "lift_left k t p s = (stop, u)" and "invc s" "invh s" "col s = Black" "bh s = Suc (bh t)"
    and "invc t" "invh t" "col t = Black"
  shows "col u = k \<and> invh u \<and> invc (paint Black u) \<and>
    (if stop then invc u \<and> bh u = (if k = Black then Suc (bh s) else bh s)
     else bh u = (if k = Black then bh s else bh t))"
  using assms by (cases s) (auto simp: colour_cases split: if_splits rbt.splits)

lemma lift_right_inv:
  assumes "lift_right k t p s = (stop, u)" and "invc s" "invh s" "col s = Black" "bh s = Suc (bh t)"
    and "invc t" "invh t" "col t = Black"
  shows "col u = k \<and> invh u \<and> invc (paint Black u) \<and>
    (if stop then invc u \<and> bh u = (if k = Black then Suc (bh s) else bh s)
     else bh u = (if k = Black then bh s else bh t))"
  using assms by (cases s) (auto simp: colour_cases split: if_splits rbt.splits)

lemma loop_exit:
  assumes "distinct (elems (plug cs t))" and "cs = [] \<or> col t = Red" and "0 < n"
  shows "RB_REMOVE_COLOR n (parent_of cs) (root_of t) (rb_state w (plug cs t)) =
           Inr ((), rb_state w (plug cs (paint Black t)))"
proof -
  obtain n' where n: "n = Suc n'" using assms(3) by (cases n) auto
  have "is_black (root_of t) (rb_state w (plug cs t)) = Inr (col t = Black, rb_state w (plug cs t))"
    by (rule is_black_at [OF assms(1)]) simp
  with assms(2) n have "remove_color_loop n (parent_of cs) (root_of t) (rb_state w (plug cs t)) =
      Inr (root_of t, rb_state w (plug cs t))" by auto
  then show ?thesis
    using assms(1) by (cases t) (auto simp: RB_REMOVE_COLOR_def rb_at)
qed

text \<open>The subtree that is short is not the whole tree, and is told apart from its sibling.\<close>

lemma node_in_path: "f \<in> set cs \<Longrightarrow> node_of f \<in> set (before cs) \<union> set (after cs)"
  by (induction cs rule: before.induct) auto

lemma not_whole:
  assumes "distinct (elems (plug (f # cs) t))"
  shows "root_of t \<noteq> root_of (plug (f # cs) t)"
proof
  assume eq: "root_of t = root_of (plug (f # cs) t)"
  let ?b = "node_of (last (f # cs))"
  have "?b \<in> set (before (f # cs)) \<union> set (after (f # cs))" by (intro node_in_path last_in_set) simp
  moreover have "?b \<in> set (elems t)" using eq by (intro root_in_elems) (simp add: head_of_plug del: plug.simps)
  ultimately show False using assms by (auto simp del: plug.simps)
qed

lemma loop_enter:
  assumes "distinct (elems (plug (f # cs) t))" and "col t = Black"
  shows "f = LeftF k p s \<Longrightarrow>
      remove_color_loop (Suc n) (Some p) (root_of t) (rb_state w (plug (f # cs) t)) =
        bnd (remove_color_left (Some p) (root_of t))
          (\<lambda>(stop, parent, elm). if stop then ret elm else remove_color_loop n parent elm)
          (rb_state w (plug (f # cs) t))"
    and "f = RightF k s p \<Longrightarrow> s \<noteq> Lf \<Longrightarrow>
      remove_color_loop (Suc n) (Some p) (root_of t) (rb_state w (plug (f # cs) t)) =
        bnd (remove_color_right (Some p) (root_of t))
          (\<lambda>(stop, parent, elm). if stop then ret elm else remove_color_loop n parent elm)
          (rb_state w (plug (f # cs) t))"
proof -
  have black: "is_black (root_of t) (rb_state w (plug (f # cs) t)) = Inr (True, rb_state w (plug (f # cs) t))"
    using is_black_at [OF assms(1), of t w] assms(2) by simp
  note root = not_whole [OF assms(1)]
  show "remove_color_loop (Suc n) (Some p) (root_of t) (rb_state w (plug (f # cs) t)) =
        bnd (remove_color_left (Some p) (root_of t))
          (\<lambda>(stop, parent, elm). if stop then ret elm else remove_color_loop n parent elm)
          (rb_state w (plug (f # cs) t))" if "f = LeftF k p s"
    using black root assms(1) that by (simp add: rb_at)
  show "remove_color_loop (Suc n) (Some p) (root_of t) (rb_state w (plug (f # cs) t)) =
        bnd (remove_color_right (Some p) (root_of t))
          (\<lambda>(stop, parent, elm). if stop then ret elm else remove_color_loop n parent elm)
          (rb_state w (plug (f # cs) t))" if "f = RightF k s p" "s \<noteq> Lf"
  proof -
    have "root_of s \<noteq> root_of t"
      using that assms(1) by (cases s; cases t) auto
    with black root assms(1) that show ?thesis by (simp add: rb_at)
  qed
qed

lemma paint_root:
  "distinct (elems t) \<Longrightarrow>
   (if root_of t \<noteq> None then set_RB_COLOR (root_of t) RB_BLACK else ret ()) (rb_state w t) =
     Inr ((), rb_state w (paint Black t))"
  by (cases "t = Lf") (simp_all add: set_RB_COLOR_root)

lemma remove_color_step:
  assumes "remove_color_loop (Suc n) p e s =
      bnd m (\<lambda>(stop, parent, elm). if stop then ret elm else remove_color_loop n parent elm) s"
    and "m s = Inr ((stop, if stop then (q, root_of t) else (q', e')), rb_state w t)"
    and "distinct (elems t)"
  shows "RB_REMOVE_COLOR (Suc n) p e s =
    (if stop then Inr ((), rb_state w (paint Black t)) else RB_REMOVE_COLOR n q' e' (rb_state w t))"
  using assms(1,2) paint_root [OF assms(3), of w]
  by (cases stop) (simp_all add: RB_REMOVE_COLOR_def bnd_def del: remove_color_loop.simps not_None_eq root_of_None)

lemma refill_left_black:
  assumes "distinct (elems (plug (LeftF k p (Nd Black b x c) # cs) t))" and "col t = Black"
    and "lift_left k t p (Nd Black b x c) = (stop, u)" and "distinct (elems (plug cs u))" and "root_of u = Some p \<or> stop"
  shows "RB_REMOVE_COLOR (Suc n) (Some p) (root_of t) (rb_state w (plug (LeftF k p (Nd Black b x c) # cs) t)) =
    (if stop then Inr ((), rb_state w (paint Black (plug cs u)))
     else RB_REMOVE_COLOR n (parent_of cs) (root_of u) (rb_state w (plug cs u)))"
proof -
  have "remove_color_left (Some p) (root_of t) (rb_state w (plug (LeftF k p (Nd Black b x c) # cs) t)) =
      Inr ((stop, if stop then (Some p, root_of (plug cs u)) else (parent_of cs, Some p)), rb_state w (plug cs u))"
    using round_left_black [OF _ assms(3), of cs "root_of t" w] assms(1) by simp
  from remove_color_step [OF loop_enter(1) [OF assms(1,2) refl] this assms(4)] assms(5) show ?thesis
    by (cases stop) (simp_all del: plug.simps)
qed

lemma refill_left_red:
  assumes "distinct (elems (plug (LeftF Black p (Nd Red (Nd Black b x c) r d) # cs) t))" and "col t = Black"
    and "lift_left Red t p (Nd Black b x c) = (stop, u)" and "distinct (elems (plug cs (Nd Black u r d)))"
    and "root_of u = Some p \<and> col u = Red \<or> stop" and "0 < n"
  shows "RB_REMOVE_COLOR (Suc n) (Some p) (root_of t) (rb_state w (plug (LeftF Black p (Nd Red (Nd Black b x c) r d) # cs) t)) =
    Inr ((), rb_state w (if stop then paint Black (plug cs (Nd Black u r d)) else plug cs (Nd Black (paint Black u) r d)))"
proof -
  have "remove_color_left (Some p) (root_of t) (rb_state w (plug (LeftF Black p (Nd Red (Nd Black b x c) r d) # cs) t)) =
      Inr ((stop, if stop then (Some p, root_of (plug cs (Nd Black u r d))) else (Some r, Some p)), rb_state w (plug cs (Nd Black u r d)))"
    using round_left_red [OF _ assms(3), of cs r d "root_of t" w] assms(1) by (simp add: head_of_plug)
  from remove_color_step [OF loop_enter(1) [OF assms(1,2) refl] this assms(4)] loop_exit [of "LeftF Black r d # cs" u n w] assms(4-) show ?thesis
    by (cases stop) (simp_all del: elems_plug)
qed

lemma refill_right_black:
  assumes "distinct (elems (plug (RightF k (Nd Black c x b) p # cs) t))" and "col t = Black"
    and "lift_right k t p (Nd Black c x b) = (stop, u)" and "distinct (elems (plug cs u))" and "root_of u = Some p \<or> stop"
  shows "RB_REMOVE_COLOR (Suc n) (Some p) (root_of t) (rb_state w (plug (RightF k (Nd Black c x b) p # cs) t)) =
    (if stop then Inr ((), rb_state w (paint Black (plug cs u)))
     else RB_REMOVE_COLOR n (parent_of cs) (root_of u) (rb_state w (plug cs u)))"
proof -
  note enter = loop_enter(2) [OF assms(1,2) refl rbt.distinct(2), of n w]
  have "remove_color_right (Some p) (root_of t) (rb_state w (plug (RightF k (Nd Black c x b) p # cs) t)) =
      Inr ((stop, if stop then (Some p, root_of (plug cs u)) else (parent_of cs, Some p)), rb_state w (plug cs u))"
    using round_right_black [OF _ assms(3), of cs "root_of t" w] assms(1) by simp
  from remove_color_step [OF enter this assms(4)] assms(5) show ?thesis
    by (cases stop) (simp_all del: plug.simps)
qed

lemma refill_right_red:
  assumes "distinct (elems (plug (RightF Black (Nd Red d r (Nd Black c x b)) p # cs) t))" and "col t = Black"
    and "lift_right Red t p (Nd Black c x b) = (stop, u)" and "distinct (elems (plug cs (Nd Black d r u)))"
    and "root_of u = Some p \<and> col u = Red \<or> stop" and "0 < n"
  shows "RB_REMOVE_COLOR (Suc n) (Some p) (root_of t) (rb_state w (plug (RightF Black (Nd Red d r (Nd Black c x b)) p # cs) t)) =
    Inr ((), rb_state w (if stop then paint Black (plug cs (Nd Black d r u)) else plug cs (Nd Black d r (paint Black u))))"
proof -
  note enter = loop_enter(2) [OF assms(1,2) refl rbt.distinct(2), of n w]
  have "remove_color_right (Some p) (root_of t) (rb_state w (plug (RightF Black (Nd Red d r (Nd Black c x b)) p # cs) t)) =
      Inr ((stop, if stop then (Some p, root_of (plug cs (Nd Black d r u))) else (Some r, Some p)), rb_state w (plug cs (Nd Black d r u)))"
    using round_right_red [OF _ assms(3), of cs d r "root_of t" w] assms(1) by (simp add: head_of_plug)
  from remove_color_step [OF enter this assms(4)] loop_exit [of "RightF Black d r # cs" u n w] assms(4-) show ?thesis
    by (cases stop) (simp_all del: elems_plug)
qed

lemma lift_left_up: "lift_left k t p s = (False, u) \<Longrightarrow> root_of u = Some p \<and> col u = k"
  by (cases s) (auto split: if_splits rbt.splits)

lemma lift_right_up: "lift_right k t p s = (False, u) \<Longrightarrow> root_of u = Some p \<and> col u = k"
  by (cases s) (auto split: if_splits rbt.splits)

lemma black_node: "col t = Black \<Longrightarrow> bh t \<noteq> 0 \<Longrightarrow> \<exists>l a r. t = Nd Black l a r"
  by (cases t) auto

text \<open>What \<open>RB_REMOVE_COLOR\<close> promises for one subtree that is short of a black node.\<close>

definition refills :: "frame list \<Rightarrow> rbt \<Rightarrow> nat \<Rightarrow> 's rb_head_scheme \<Rightarrow> bool" where
  "refills cs t n w \<longleftrightarrow>
     RB_REMOVE_COLOR n (parent_of cs) (root_of t) (rb_state w (plug cs t)) =
       Inr ((), rb_state w (refill cs t)) \<and>
     rb_inv (refill cs t) \<and> elems (refill cs t) = elems (plug cs t)"

lemma refills_left:
  assumes dist: "distinct (elems (plug (LeftF k p s # cs) t))"
    and path: "path_inv (LeftF k p s # cs) (Suc (bh t)) Black"
    and inv: "invc t" "invh t" "col t = Black" and n: "0 < n"
    and up: "\<And>u. distinct (elems (plug cs u)) \<Longrightarrow> path_inv cs (Suc (bh u)) Black \<Longrightarrow>
      invc (paint Black u) \<Longrightarrow> invh u \<Longrightarrow> refills cs u n w"
  shows "refills (LeftF k p s # cs) t (Suc n) w"
proof (cases "col s")
  case Black
  with path obtain b x c where s: "s = Nd Black b x c" using black_node [of s] by auto
  obtain stop u where lift: "lift_left k t p s = (stop, u)" by fastforce
  have els: "elems u = elems t @ p # elems s" using lift_left_elems [OF _ lift] path by auto
  have dist': "distinct (elems (plug cs u))" using dist els by simp
  have u: "col u = k \<and> invh u \<and> invc (paint Black u) \<and>
    (if stop then invc u \<and> bh u = (if k = Black then Suc (bh s) else bh s)
     else bh u = (if k = Black then bh s else bh t))"
    by (rule lift_left_inv [OF lift]) (use path inv Black in auto)
  note run = refill_left_black [OF dist [unfolded s] inv(3) lift [unfolded s] dist', of n w]
  show ?thesis
  proof (cases stop)
    case True
    have "rb_inv (plug cs u)" using u path True by (auto simp: rb_inv_plug split: if_splits)
    with run True inv(3) lift els show ?thesis by (simp add: refills_def s paint_black)
  next
    case False
    have "refills cs u n w"
      using u path False path_inv_Black by (intro up dist') (auto split: if_splits)
    with run False lift_left_up [of k t p s u] inv(3) lift els show ?thesis by (simp add: refills_def s)
  qed
next
  case Red
  then obtain d r e where s: "s = Nd Red d r e" using red_root by blast
  with path have k: "k = Black" by (cases k) auto
  obtain b x c where d: "d = Nd Black b x c" using black_node [of d] path s by auto
  obtain stop u where lift: "lift_left Red t p d = (stop, u)" by fastforce
  have els: "elems u = elems t @ p # elems d" using lift_left_elems [OF _ lift] d by auto
  have dist': "distinct (elems (plug cs (Nd Black u r e)))" using dist els s by simp
  have u: "col u = Red \<and> invh u \<and> invc (paint Black u) \<and>
    (if stop then invc u \<and> bh u = bh d else bh u = bh t)"
    using lift_left_inv [OF lift] path inv s d by auto
  note run = refill_left_red [OF dist [unfolded s d k] inv(3) lift [unfolded d] dist', of n w]
  have "rb_inv (plug cs (Nd Black (if stop then u else paint Black u) r e))"
    using u path s k by (auto simp: rb_inv_plug)
  with run n inv(3) lift els u s d k lift_left_up [of Red t p d u] show ?thesis
    by (cases stop) (auto simp: refills_def paint_black)
qed

lemma refills_right:
  assumes dist: "distinct (elems (plug (RightF k s p # cs) t))"
    and path: "path_inv (RightF k s p # cs) (Suc (bh t)) Black"
    and inv: "invc t" "invh t" "col t = Black" and n: "0 < n"
    and up: "\<And>u. distinct (elems (plug cs u)) \<Longrightarrow> path_inv cs (Suc (bh u)) Black \<Longrightarrow>
      invc (paint Black u) \<Longrightarrow> invh u \<Longrightarrow> refills cs u n w"
  shows "refills (RightF k s p # cs) t (Suc n) w"
proof (cases "col s")
  case Black
  with path obtain c x b where s: "s = Nd Black c x b" using black_node [of s] by auto
  obtain stop u where lift: "lift_right k t p s = (stop, u)" by fastforce
  have els: "elems u = elems s @ p # elems t" using lift_right_elems [OF _ lift] path by auto
  have dist': "distinct (elems (plug cs u))" using dist els by simp
  have u: "col u = k \<and> invh u \<and> invc (paint Black u) \<and>
    (if stop then invc u \<and> bh u = (if k = Black then Suc (bh s) else bh s)
     else bh u = (if k = Black then bh s else bh t))"
    by (rule lift_right_inv [OF lift]) (use path inv Black in auto)
  note run = refill_right_black [OF dist [unfolded s] inv(3) lift [unfolded s] dist', of n w]
  show ?thesis
  proof (cases stop)
    case True
    have "rb_inv (plug cs u)" using u path True by (auto simp: rb_inv_plug split: if_splits)
    with run True inv(3) lift els show ?thesis by (simp add: refills_def s paint_black)
  next
    case False
    have "refills cs u n w"
      using u path False path_inv_Black by (intro up dist') (auto split: if_splits)
    with run False lift_right_up [of k t p s u] inv(3) lift els show ?thesis by (simp add: refills_def s)
  qed
next
  case Red
  then obtain e r d where s: "s = Nd Red e r d" using red_root by blast
  with path have k: "k = Black" by (cases k) auto
  obtain c x b where d: "d = Nd Black c x b" using black_node [of d] path s by auto
  obtain stop u where lift: "lift_right Red t p d = (stop, u)" by fastforce
  have els: "elems u = elems d @ p # elems t" using lift_right_elems [OF _ lift] d by auto
  have dist': "distinct (elems (plug cs (Nd Black e r u)))" using dist els s by simp
  have u: "col u = Red \<and> invh u \<and> invc (paint Black u) \<and>
    (if stop then invc u \<and> bh u = bh d else bh u = bh t)"
    using lift_right_inv [OF lift] path inv s d by auto
  note run = refill_right_red [OF dist [unfolded s d k] inv(3) lift [unfolded d] dist', of n w]
  have "rb_inv (plug cs (Nd Black e r (if stop then u else paint Black u)))"
    using u path s k by (auto simp: rb_inv_plug)
  with run n inv(3) lift els u s d k lift_right_up [of Red t p d u] show ?thesis
    by (cases stop) (auto simp: refills_def paint_black)
qed

lemma refills_short:
  assumes "distinct (elems (plug cs t))" and "path_inv cs (Suc (bh t)) Black"
    and "invc (paint Black t)" "invh t" and "length cs < n"
  shows "refills cs t n w"
  using assms
proof (induction cs arbitrary: t n)
  case Nil
  then show ?case using loop_exit [of "[]" t n w] by (auto simp: rb_inv_def refills_def)
next
  case (Cons f cs)
  show ?case
  proof (cases "col t")
    case Red
    with Cons.prems show ?thesis
      using loop_exit [of "f # cs" t n w] rb_inv_plug [of "f # cs" "paint Black t"]
      by (cases f) (auto simp: refills_def)
  next
    case Black
    with Cons.prems have "invc t" by (cases t) auto
    obtain m where "n = Suc m" "length cs < m" using Cons.prems(5) by (cases n) auto
    with Black \<open>invc t\<close> Cons.prems Cons.IH show ?thesis
      by (cases f) (auto intro!: refills_left refills_right simp del: path_inv.simps elems_plug plug.simps)
  qed
qed

section \<open>Walks along a tree\<close>

text \<open>The node from which no left link leads on, and the path down to it.\<close>

fun first_path :: "rbt \<Rightarrow> frame list \<Rightarrow> frame list \<times> rbt" where
  "first_path (Nd c l a r) cs = (if l = Lf then (cs, Nd c l a r) else first_path l (LeftF c a r # cs))"
| "first_path Lf cs = (cs, Lf)"

lemma first_path_plug: "first_path t cs = (ds, u) \<Longrightarrow> plug ds u = plug cs t"
  by (induction t arbitrary: cs) (auto split: if_splits)

lemma first_path_node: "t \<noteq> Lf \<Longrightarrow> first_path t cs = (ds, u) \<Longrightarrow> \<exists>c a r. u = Nd c Lf a r"
  by (induction t arbitrary: cs) (auto split: if_splits)

lemma first_path_append:
  "first_path t cs = (ds, u) \<Longrightarrow> \<exists>es. ds = es @ cs \<and> plug es u = t \<and> (\<forall>f\<in>set es. \<exists>c a r. f = LeftF c a r)"
proof (induction t arbitrary: cs)
  case (Nd c l a r)
  show ?case
  proof (cases "l = Lf")
    case True
    with Nd.prems show ?thesis by auto
  next
    case False
    with Nd.prems have "first_path l (LeftF c a r # cs) = (ds, u)" by simp
    from Nd.IH(1) [OF this] obtain es where
      "ds = es @ LeftF c a r # cs" "plug es u = l" "\<forall>f\<in>set es. \<exists>c a r. f = LeftF c a r" by blast
    then show ?thesis
      by (intro exI [of _ "es @ [LeftF c a r]"]) (auto simp: plug_append)
  qed
qed simp

lemma before_left_path: "\<forall>f\<in>set es. \<exists>c a r. f = LeftF c a r \<Longrightarrow> before es = []"
  by (induction es rule: before.induct) auto

lemma leftmost_first:
  assumes "distinct (elems (plug cs t))" and "t \<noteq> Lf" and "rb_height t \<le> n" and "first_path t cs = (ds, u)"
  shows "leftmost n (root_of t) (rb_state w (plug cs t)) = Inr (root_of u, rb_state w (plug cs t))"
  using assms
proof (induction t arbitrary: cs n)
  case (Nd c l a r)
  then obtain n' where "n = Suc n'" "rb_height l \<le> n'" by (cases n) auto
  with Nd.prems Nd.IH(1) [of "LeftF c a r # cs" n'] show ?case
    by (cases "l = Lf") (auto simp: rb_at)
qed simp

lemma augment_up_path:
  assumes "distinct (elems (plug (f # cs) t))" and "length cs < n"
  shows "augment_up n (Some (node_of f)) (rb_state w (plug (f # cs) t)) = Inr ((), rb_state w (plug (f # cs) t))"
  using assms
proof (induction cs arbitrary: f t n)
  case Nil
  then obtain n' where "n = Suc n'" by (cases n) auto
  with Nil show ?case using RB_PARENT_at [of "[]" "plug [f] t" "node_of f" w]
    by (cases f) (auto simp: RB_AUGMENT_def)
next
  case (Cons g cs)
  then obtain n' where n: "n = Suc n'" "length cs < n'" by (cases n) auto
  have "RB_PARENT (Some (node_of f)) (rb_state w (plug (f # g # cs) t)) =
      Inr (Some (node_of g), rb_state w (plug (f # g # cs) t))"
    using RB_PARENT_at [of "g # cs" "fill f t" "node_of f" w] Cons.prems(1) by (cases f) auto
  with n Cons.IH [of g "fill f t" n'] Cons.prems show ?case
    by (simp add: RB_AUGMENT_def)
qed

section \<open>Unlinking and replacing\<close>

text \<open>The element that leaves the tree keeps the contents \<open>e\<close> of its field.\<close>

definition left_behind :: "'s rb_head_scheme \<Rightarrow> addr \<Rightarrow> rb_entry \<Rightarrow> 's rb_head_scheme" where
  "left_behind w x e = w\<lparr>rb_mem := (rb_mem w)(x \<mapsto> e)\<rparr>"

lemma rb_with_left_behind [simp]: "rb_with (left_behind w x e) q m = rb_with w q m"
  by (simp add: left_behind_def rb_with_def)

lemma rb_mem_left_behind [simp]: "rb_mem (left_behind w x e) = (rb_mem w)(x \<mapsto> e)"
  by (simp add: left_behind_def)

lemma run_link:
  assumes "path_at m (Some x) cs" and "x \<notin> set (before cs)" "x \<notin> set (after cs)"
  shows "(if cs \<noteq> []
          then bnd (RB_LEFT (parent_of cs)) (\<lambda>l.
               seq (if l = Some x then set_RB_LEFT (parent_of cs) q else set_RB_RIGHT (parent_of cs) q)
                   (RB_AUGMENT a))
          else set_RB_ROOT q) (rb_with w (head_of cs (Some x)) m) =
    Inr ((), rb_with w (head_of cs q) (hang cs q m))"
  using assms by (cases cs rule: before.cases) (auto simp: rb_run)

lemma run_relink_parent:
  assumes "path_at m (Some x) cs" and "x \<notin> set (before cs)" "x \<notin> set (after cs)"
    and "m x = Some e" and "rbe_parent e = parent_of cs"
  shows "(if cs \<noteq> []
          then bnd (RB_PARENT (Some x)) (\<lambda>p. bnd (RB_LEFT p) (\<lambda>l.
               seq (if l = Some x then set_RB_LEFT p q else set_RB_RIGHT p q) (RB_AUGMENT a)))
          else set_RB_ROOT q) (rb_with w (head_of cs (Some x)) m) =
    Inr ((), rb_with w (head_of cs q) (hang cs q m))"
  using assms by (cases cs rule: before.cases) (auto simp: rb_run)

lemma run_reparent_node:
  "tree_at m p t \<Longrightarrow> t \<noteq> Lf \<Longrightarrow>
   set_RB_PARENT (root_of t) q (rb_with w h m) = Inr ((), rb_with w h (reparent t q m))"
  by (cases t) (simp_all add: rb_run)

lemma unlink_node:
  assumes dist: "distinct (elems (plug cs (Nd c l x r)))" and "l = Lf \<and> u = r \<or> r = Lf \<and> u = l"
  shows "rb_unlink (Some x) (root_of u) (parent_of cs) (rb_state w (plug cs (Nd c l x r))) =
    Inr ((), rb_state (left_behind w x
      \<lparr>rbe_left = root_of l, rbe_right = root_of r, rbe_parent = parent_of cs, rbe_color = shade c\<rparr>) (plug cs u))"
proof -
  let ?t = "plug cs (Nd c l x r)"
  let ?e = "\<lparr>rbe_left = root_of l, rbe_right = root_of r, rbe_parent = parent_of cs, rbe_color = shade c\<rparr>"
  obtain m where m: "store (rb_mem w) None ?t = m" by simp
  have at: "path_at m (Some x) cs" "tree_at m (parent_of cs) (Nd c l x r)"
    using tree_at_store [OF dist, of "rb_mem w" None] by (simp_all add: m tree_at_plug)
  have out: "m z = rb_mem w z" if "z \<notin> set (elems ?t)" for z
    unfolding m [symmetric] using that by (rule store_outside)
  have far: "x \<notin> set (before cs)" "x \<notin> set (after cs)" "x \<notin> set (elems u)"
    "set (before cs) \<inter> set (elems u) = {}" "set (after cs) \<inter> set (elems u) = {}"
    "set (before cs) \<inter> set (after cs) = {}" "distinct (elems u)" "tree_at m (Some x) u"
    using dist assms(2) at by auto
  let ?m1 = "reparent u (parent_of cs) m"
  let ?m2 = "hang cs (root_of u) ?m1"
  have "rb_unlink (Some x) (root_of u) (parent_of cs) (rb_with w (head_of cs (Some x)) m) =
      Inr ((), rb_with w (head_of cs (root_of u)) ?m2)"
    using at far run_reparent [OF far(8), of "parent_of cs" w "head_of cs (Some x)"]
      run_link [of ?m1 x cs "root_of u" "ret (parent_of cs)" w]
    by (simp add: rb_unlink_def del: not_None_eq split del: if_split)
  moreover have "rb_with (left_behind w x ?e) (head_of cs (root_of u)) ?m2 = rb_state (left_behind w x ?e) (plug cs u)"
  proof (rule rb_with_eqI)
    show "tree_at ?m2 None (plug cs u)"
      using at far dist by (simp add: tree_at_plug tree_at_reparent [where p = "Some x"])
  qed (use dist assms(2) out far at in \<open>auto simp: head_of_plug\<close>)
  ultimately show ?thesis by (simp add: rb_state_with m head_of_plug)
qed

lemma replace_node:
  assumes dist: "distinct (elems (plug cs (Nd c l x r)))" and y: "y \<notin> set (elems (plug cs (Nd c l x r)))"
    and mem: "rb_mem w y \<noteq> None" and "l \<noteq> Lf"
  shows "rb_replace (Some x) (Some y) (rb_state w (plug cs (Nd c l x r))) =
    Inr ((), rb_state (left_behind w x
      \<lparr>rbe_left = root_of l, rbe_right = root_of r, rbe_parent = parent_of cs, rbe_color = shade c\<rparr>)
      (plug cs (Nd c l y r)))"
proof -
  let ?t = "plug cs (Nd c l x r)"
  let ?e = "\<lparr>rbe_left = root_of l, rbe_right = root_of r, rbe_parent = parent_of cs, rbe_color = shade c\<rparr>"
  obtain m where m: "store (rb_mem w) None ?t = m" by simp
  have at: "path_at m (Some x) cs" "m x = Some ?e" "tree_at m (Some x) l" "tree_at m (Some x) r"
    using tree_at_store [OF dist, of "rb_mem w" None] by (simp_all add: m tree_at_plug)
  have out: "m z = rb_mem w z" if "z \<notin> set (elems ?t)" for z
    unfolding m [symmetric] using that by (rule store_outside)
  obtain e where e: "m y = Some e" using out [OF y] mem by auto
  have "distinct (before cs @ elems l @ x # [] @ y # elems r @ after cs)" using dist y by auto
  note far = rotation_apart [OF this]
  have lr: "set (elems l) \<inter> set (elems r) = {}" "set (elems r) \<inter> set (elems l) = {}" using dist by auto
  let ?m1 = "hang cs (Some y) (m(y \<mapsto> ?e))"
  let ?m2 = "reparent r (Some y) (reparent l (Some y) ?m1)"
  have "rb_replace (Some x) (Some y) (rb_with w (head_of cs (Some x)) m) =
      Inr ((), rb_with w (head_of cs (Some y)) ?m2)"
    using at far lr e assms(4)
    by (simp add: rb_replace_def rb_with_get rb_with_put RB_PARENT_def [of "Some x"] RB_LEFT_def [of "Some x"] RB_RIGHT_def [of "Some x"]
       run_relink_parent run_reparent_node [where p = "Some x"] run_reparent_link(2) [where p = "Some x"] del: not_None_eq split del: if_split)
  moreover have "rb_with (left_behind w x ?e) (head_of cs (Some y)) ?m2 = rb_state (left_behind w x ?e) (plug cs (Nd c l y r))"
  proof (rule rb_with_eqI)
    show "tree_at ?m2 None (plug cs (Nd c l y r))"
      using at far lr dist by (simp add: tree_at_plug tree_at_reparent [where p = "Some x"])
  qed (use dist y out far at in \<open>auto simp: head_of_plug\<close>)
  ultimately show ?thesis by (simp add: rb_state_with m head_of_plug)
qed

section \<open>RB_REMOVE\<close>

lemma rb_state_left_behind:
  "y \<in> set (elems t) \<Longrightarrow> distinct (elems t) \<Longrightarrow> rb_state (left_behind w y e) t = rb_state w t"
proof -
  assume y: "y \<in> set (elems t)" and d: "distinct (elems t)"
  have "rb_with (left_behind w y e) (root_of t) (store ((rb_mem w)(y \<mapsto> e)) None t) = rb_state w t"
    unfolding rb_with_left_behind
    by (rule rb_with_eqI) (use d y in \<open>auto simp: tree_at_store store_outside\<close>)
  then show ?thesis by (simp add: rb_state_with)
qed

lemma left_behind_swap: "x \<noteq> y \<Longrightarrow> left_behind (left_behind w y e) x f = left_behind (left_behind w x f) y e"
  by (simp add: left_behind_def fun_upd_twist)

lemma rb_get_outside:
  "y \<notin> set (elems t) \<Longrightarrow> rb_get f (Some y) (rb_state (left_behind w y e) t) = Inr (f e, rb_state (left_behind w y e) t)"
  by (rule rb_get_eq) (simp add: rb_state_def store_outside)

lemma remove_outer_node:
  assumes dist: "distinct (elems (plug cs (Nd c l x r)))" and "l = Lf \<and> u = r \<or> r = Lf \<and> u = l"
  shows "remove_outer (Some x) (root_of u) (rb_state w (plug cs (Nd c l x r))) =
    Inr ((shade c, parent_of cs, root_of u), rb_state (left_behind w x
      \<lparr>rbe_left = root_of l, rbe_right = root_of r, rbe_parent = parent_of cs, rbe_color = shade c\<rparr>) (plug cs u))"
  using unlink_node [OF assms, of w] dist by (simp add: remove_outer_def rb_at)

lemma remove_inner_node:
  assumes dist: "distinct (elems (plug cs (Nd c l x r)))" and "l \<noteq> Lf" "r \<noteq> Lf"
    and path: "plug es (Nd d Lf y v) = r" and first: "first_path r (RightF c l x # cs) = (es @ RightF c l x # cs, Nd d Lf y v)"
    and n: "rb_height r \<le> n" "length (es @ cs) < n"
  shows "\<exists>e. remove_inner n (Some x) (rb_state w (plug cs (Nd c l x r))) =
    Inr ((shade d, parent_of (es @ RightF c l y # cs), root_of v),
         rb_state (left_behind w x e) (plug (es @ RightF c l y # cs) v))"
proof -
  let ?cs = "es @ RightF c l x # cs" and ?ds = "es @ RightF c l y # cs"
  let ?s = "rb_state w (plug cs (Nd c l x r))"
  let ?ey = "\<lparr>rbe_left = None, rbe_right = root_of v, rbe_parent = parent_of ?cs, rbe_color = shade d\<rparr>"
  let ?ex = "\<lparr>rbe_left = root_of l, rbe_right = root_of (plug es v), rbe_parent = parent_of cs, rbe_color = shade c\<rparr>"
  let ?w = "left_behind w y ?ey" and ?t = "plug cs (Nd c l x (plug es v))" and ?u = "plug ?ds v"
  have eq: "plug cs (Nd c l x r) = plug ?cs (Nd d Lf y v)" "?t = plug ?cs v" "?u = plug cs (Nd c l y (plug es v))"
    by (simp_all add: plug_append path)
  have dist': "distinct (elems (plug ?cs (Nd d Lf y v)))" using dist by (simp only: eq)
  have dt: "distinct (elems ?t)" "y \<notin> set (elems ?t)" "x \<noteq> y"
    using dist unfolding path [symmetric] by auto
  have du: "distinct (elems ?u)" and yu: "y \<in> set (elems ?u)"
    using dist unfolding eq(3) path [symmetric] by auto
  have min: "leftmost n (root_of r) ?s = Inr (Some y, ?s)"
    using leftmost_first [of "RightF c l x # cs" r n ?cs "Nd d Lf y v" w] dist assms(3) first n by simp
  have unl: "rb_unlink (Some y) (root_of v) (parent_of ?cs) ?s = Inr ((), rb_state ?w ?t)"
    using unlink_node [OF dist', of v w] by (simp add: eq)
  have par: "RB_PARENT (Some y) (rb_state ?w ?t) = Inr (parent_of ?cs, rb_state ?w ?t)"
    using rb_get_outside [OF dt(2), of rbe_parent w ?ey] by (simp add: RB_PARENT_def)
  have new: "(if parent_of ?cs = Some x then Some y else parent_of ?cs) = parent_of ?ds"
    using dist path by (cases es; cases "hd es") auto
  have rep: "rb_replace (Some x) (Some y) (rb_state ?w ?t) = Inr ((), rb_state (left_behind w x ?ex) ?u)"
    using replace_node [of cs c l x "plug es v" y ?w] dt assms(2)
    by (simp add: eq left_behind_swap rb_state_left_behind [OF yu du, unfolded eq])
  obtain f fs where f: "?ds = f # fs" by (cases es) auto
  have "length fs < n" using n(2) arg_cong [OF f, of length] by simp
  then have aug: "augment_up n (parent_of ?ds) (rb_state (left_behind w x ?ex) ?u) =
      Inr ((), rb_state (left_behind w x ?ex) ?u)"
    using augment_up_path [of f fs v n] du by (simp add: f del: plug.simps)
  have "RB_RIGHT (Some x) ?s = Inr (root_of r, ?s)" using dist by (simp add: rb_at)
  moreover have "RB_RIGHT (Some y) ?s = Inr (root_of v, ?s)" "RB_PARENT (Some y) ?s = Inr (parent_of ?cs, ?s)"
    "RB_COLOR (Some y) ?s = Inr (shade d, ?s)"
    using dist' by (simp_all add: eq(1) rb_at)
  ultimately show ?thesis
    using min unl par rep aug
    by (auto simp: remove_inner_def new simp del: not_None_eq split del: if_split)
qed

text \<open>A node of a tree, seen with the path above it.\<close>

lemma find_path: "x \<in> set (elems t) \<Longrightarrow> \<exists>cs c l r. t = plug cs (Nd c l x r)"
proof (induction t)
  case (Nd c l a r)
  then consider "x = a" | "x \<in> set (elems l)" | "x \<in> set (elems r)" by auto
  then show ?case
  proof cases
    case 1
    then show ?thesis by (intro exI [of _ "[]"]) auto
  next
    case 2
    with Nd.IH(1) obtain cs c' l' r' where "l = plug cs (Nd c' l' x r')" by blast
    then have "Nd c l a r = plug (cs @ [LeftF c a r]) (Nd c' l' x r')" by (simp add: plug_append)
    then show ?thesis by blast
  next
    case 3
    with Nd.IH(2) obtain cs c' l' r' where "r = plug cs (Nd c' l' x r')" by blast
    then have "Nd c l a r = plug (cs @ [RightF c l a]) (Nd c' l' x r')" by (simp add: plug_append)
    then show ?thesis by blast
  qed
qed simp

text \<open>
  A node with at most one child, \<open>u\<close>, and black height 1 or 0 below it is taken out of the tree: if
  it was black, \<open>RB_REMOVE_COLOR\<close> mends the path.
\<close>

lemma mend_path:
  assumes "distinct (elems (plug cs u))" and "path_inv cs (if c = Black then Suc 0 else 0) c"
    and "invc u" "invh u" "bh u = 0" "c = Red \<longrightarrow> col u = Black" and "length cs < n"
  shows "\<exists>t. (if shade c = RB_BLACK then RB_REMOVE_COLOR n (parent_of cs) (root_of u) else ret ())
      (rb_state w (plug cs u)) = Inr ((), rb_state w t) \<and> rb_inv t \<and> elems t = elems (plug cs u)"
proof (cases c)
  case Black
  then have "refills cs u n w" using assms by (intro refills_short) simp_all
  then show ?thesis using Black by (auto simp: refills_def)
next
  case Red
  then have "rb_inv (plug cs u)" using assms path_inv_Black [of cs 0 Red] by (simp add: rb_inv_plug)
  then show ?thesis using Red by auto
qed

lemma path_inv_rename: "path_inv (es @ RightF c l x # cs) h k = path_inv (es @ RightF c l y # cs) h k"
proof (induction es arbitrary: h k)
  case (Cons f es)
  then show ?case by (cases f) simp_all
qed simp

lemma RB_REMOVE_outer:
  assumes "rb_inv (plug cs (Nd c l x r))" and dist: "distinct (elems (plug cs (Nd c l x r)))" and n: "length cs < n"
    and u: "l = Lf \<and> u = r \<or> r = Lf \<and> u = l"
  shows "\<exists>t e. RB_REMOVE n (Some x) (rb_state w (plug cs (Nd c l x r))) = Inr (Some x, rb_state (left_behind w x e) t) \<and>
    rb_inv t \<and> elems t = before cs @ elems l @ elems r @ after cs"
proof -
  let ?e = "\<lparr>rbe_left = root_of l, rbe_right = root_of r, rbe_parent = parent_of cs, rbe_color = shade c\<rparr>"
  have pinv: "path_inv cs (if c = Black then Suc 0 else 0) c" "invc u" "invh u" "bh u = 0" "c = Red \<longrightarrow> col u = Black"
    using assms(1) u by (auto simp: rb_inv_plug)
  have "distinct (elems (plug cs u))" using dist u by auto
  from mend_path [OF this pinv n] obtain t where
    mend: "(if shade c = RB_BLACK then RB_REMOVE_COLOR n (parent_of cs) (root_of u) else ret ())
      (rb_state (left_behind w x ?e) (plug cs u)) = Inr ((), rb_state (left_behind w x ?e) t)"
    and t: "rb_inv t" "elems t = elems (plug cs u)" by blast
  have "RB_REMOVE n (Some x) (rb_state w (plug cs (Nd c l x r))) = Inr (Some x, rb_state (left_behind w x ?e) t)"
    using remove_outer_node [OF dist u, of w] mend u dist
    by (cases "l = Lf"; cases c) (auto simp: RB_REMOVE_def rb_at split del: if_split)
  moreover have "elems t = before cs @ elems l @ elems r @ after cs" using t u by auto
  ultimately show ?thesis using t by blast
qed

lemma RB_REMOVE_inner:
  assumes inv: "rb_inv (plug cs (Nd c l x r))" and dist: "distinct (elems (plug cs (Nd c l x r)))"
    and n: "rb_height (plug cs (Nd c l x r)) < n" and "l \<noteq> Lf" "r \<noteq> Lf"
  shows "\<exists>t e. RB_REMOVE n (Some x) (rb_state w (plug cs (Nd c l x r))) = Inr (Some x, rb_state (left_behind w x e) t) \<and>
    rb_inv t \<and> elems t = before cs @ elems l @ elems r @ after cs"
proof -
  obtain ds u where "first_path r (RightF c l x # cs) = (ds, u)" by fastforce
  with first_path_append [OF this] first_path_node [OF assms(5) this] obtain es d y v where
    path: "plug es (Nd d Lf y v) = r" and
    first: "first_path r (RightF c l x # cs) = (es @ RightF c l x # cs, Nd d Lf y v)" and
    es: "before es = []" using before_left_path by blast
  let ?cs = "es @ RightF c l x # cs" and ?ds = "es @ RightF c l y # cs"
  have eq: "plug cs (Nd c l x r) = plug ?cs (Nd d Lf y v)" by (simp add: plug_append path)
  have len: "length ?ds < n" and hr: "rb_height r \<le> n"
    using height_plug [of ?cs "Nd d Lf y v"] height_plug [of "RightF c l x # cs" r] n by (simp_all add: eq [symmetric])
  obtain e where
    inner: "remove_inner n (Some x) (rb_state w (plug cs (Nd c l x r))) =
      Inr ((shade d, parent_of ?ds, root_of v), rb_state (left_behind w x e) (plug ?ds v))"
    using remove_inner_node [OF dist assms(4,5) path first hr, of w] len by auto
  have pinv: "path_inv ?ds (if d = Black then Suc 0 else 0) d" "invc v" "invh v" "bh v = 0" "d = Red \<longrightarrow> col v = Black"
    using inv unfolding eq rb_inv_plug by (auto simp: path_inv_rename [of es c l y cs _ _ x])
  have els: "elems (plug ?ds v) = before cs @ elems l @ elems r @ after cs"
    by (simp add: plug_append path [symmetric] del: elems_plug) (simp add: es)
  have "distinct (elems (plug ?ds v))" unfolding els using dist by auto
  from mend_path [OF this pinv len] obtain t where
    mend: "(if shade d = RB_BLACK then RB_REMOVE_COLOR n (parent_of ?ds) (root_of v) else ret ())
      (rb_state (left_behind w x e) (plug ?ds v)) = Inr ((), rb_state (left_behind w x e) t)"
    and t: "rb_inv t" "elems t = elems (plug ?ds v)" by blast
  have "RB_REMOVE n (Some x) (rb_state w (plug cs (Nd c l x r))) = Inr (Some x, rb_state (left_behind w x e) t)"
    using inner mend dist assms(4,5) by (simp add: RB_REMOVE_def rb_at split del: if_split)
  with t els show ?thesis by auto
qed

text \<open>With enough rounds the removal returns, and what is left is a red-black tree without the element.\<close>

lemma RB_REMOVE_node:
  assumes "rbtree key t" and "rb_height t < n" and "x \<in> set (elems t)"
  shows "\<exists>t' e. RB_REMOVE n (Some x) (rb_state w t) = Inr (Some x, rb_state (left_behind w x e) t') \<and>
    rbtree key t' \<and> elems t' = remove1 x (elems t)"
proof -
  obtain cs c l r where t: "t = plug cs (Nd c l x r)" using find_path [OF assms(3)] by blast
  have dist: "distinct (elems (plug cs (Nd c l x r)))" and inv: "rb_inv (plug cs (Nd c l x r))"
    using assms(1) ascending_distinct unfolding rbtree_def t by auto
  have "\<exists>t' e. RB_REMOVE n (Some x) (rb_state w t) = Inr (Some x, rb_state (left_behind w x e) t') \<and>
      rb_inv t' \<and> elems t' = before cs @ elems l @ elems r @ after cs"
  proof (cases "l = Lf \<or> r = Lf")
    case True
    moreover have "length cs < n" using height_plug [of cs "Nd c l x r"] assms(2) by (simp add: t)
    ultimately show ?thesis using RB_REMOVE_outer [OF inv dist] unfolding t by blast
  next
    case False
    then show ?thesis using RB_REMOVE_inner [OF inv dist] assms(2) unfolding t by blast
  qed
  moreover have "before cs @ elems l @ elems r @ after cs = remove1 x (elems t)"
    using dist by (simp add: t remove1_append)
  moreover have "ascending key (before cs @ elems l @ elems r @ after cs)"
    using assms(1) by (auto simp: rbtree_def t)
  ultimately show ?thesis unfolding rbtree_def by auto
qed

text \<open>C25: \<open>RB_REMOVE\<close> returns within a logarithmic number of rounds the element it was given, and the
  memory holds a red-black tree with exactly the other elements in the same order. Nothing outside
  the tree changes but the links of the removed element.\<close>

theorem rb_remove:
  assumes "rbtree key t" and "enough n (elems t)" and "x \<in> set (elems t)"
  shows "\<exists>t' e. RB_REMOVE n (Some x) (rb_state w t) = Inr (Some x, rb_state (left_behind w x e) t') \<and>
    rbtree key t' \<and> elems t' = remove1 x (elems t)"
  using RB_REMOVE_node [OF assms(1) _ assms(3), of n w] enough_height [of t n] assms by (simp add: rbtree_def)

theorem rb_remove_witness:
  "\<exists>t' e. RB_REMOVE 5 (Some 4) (rb_state rb_blank small_tree) = Inr (Some 4, rb_state (left_behind rb_blank 4 e) t') \<and>
     rbtree (\<lambda>a. a) t' \<and> elems t' = [2, 6]"
  using rb_remove [OF small_tree_facts(1,3), of 4 rb_blank] by (simp add: small_tree_facts(2))

end
