(* ===== verification/RB_Query.thy ===== *)
theory RB_Query
  imports RB_Insert RB_Remove
begin

text \<open>
  The functions of \<open>tree.h\<close> that leave a red-black tree as it is: searching for a key or for the
  first key not below it, the ends, the neighbours of an element, and the loop macros. Each is
  equal to the operation on the ascending list of the elements.
\<close>

section \<open>Searching\<close>

lemma find_loop_at:
  assumes "orders cmp key" and "ascending key (elems t)" and "distinct (elems (plug cs t))" and "rb_height t < n"
  shows "find_loop cmp n x (root_of t) (rb_state w (plug cs t)) =
    Inr (find (\<lambda>a. key a = key x) (elems t), rb_state w (plug cs t))"
  using assms(2-)
proof (induction t arbitrary: cs n)
  case Lf
  then show ?case by (cases n) auto
next
  case (Nd c l a r)
  then obtain m where n: "n = Suc m" "rb_height l < m" "rb_height r < m" by (cases n) auto
  note IH = Nd.IH(1) [of "LeftF c a r # cs" m] Nd.IH(2) [of "RightF c l a # cs" m]
  consider "key x < key a" | "key a < key x" | "key x = key a" by fastforce
  then show ?case
  proof cases
    case 1
    with Nd.prems have "\<forall>b\<in>set (a # elems r). key b \<noteq> key x" by auto
    from find_prefix [OF this, of "elems l"] IH n Nd.prems 1 show ?thesis
      by (simp add: rb_at orders_less [OF assms(1)])
  next
    case 2
    then have not: "\<not> key x < key a" by simp
    from 2 Nd.prems have "\<forall>b\<in>set (elems l @ [a]). key b \<noteq> key x" by auto
    from find_append_none [OF this, of "elems r"] IH n Nd.prems 2 not show ?thesis
      by (simp add: rb_at orders_less [OF assms(1)] orders_greater [OF assms(1)])
  next
    case 3
    with Nd.prems have "\<forall>b\<in>set (elems l). key b \<noteq> key x" by auto
    from find_append_none [OF this, of "a # elems r"] n 3 show ?thesis
      by (simp add: rb_at orders_less [OF assms(1)] orders_greater [OF assms(1)])
  qed
qed

lemma nfind_loop_at:
  assumes "orders cmp key" and "ascending key (elems t)" and "distinct (elems (plug cs t))" and "rb_height t < n"
  shows "nfind_loop cmp n x (root_of t) res (rb_state w (plug cs t)) =
    Inr (case find (\<lambda>a. key x \<le> key a) (elems t) of None \<Rightarrow> res | Some b \<Rightarrow> Some b, rb_state w (plug cs t))"
  using assms(2-)
proof (induction t arbitrary: cs n res)
  case Lf
  then show ?case by (cases n) auto
next
  case (Nd c l a r)
  then obtain m where n: "n = Suc m" "rb_height l < m" "rb_height r < m" by (cases n) auto
  consider "key x < key a" | "key a < key x" | "key x = key a" by fastforce
  then show ?case
  proof cases
    case 1
    from find_append_stop [of "\<lambda>a. key x \<le> key a" a "elems l" "elems r"] n Nd.prems 1
      Nd.IH(1) [of "LeftF c a r # cs" m "Some a"]
    show ?thesis by (auto simp: rb_at orders_less [OF assms(1)] split: option.split)
  next
    case 2
    then have not: "\<not> key x < key a" by simp
    from 2 Nd.prems have "\<forall>b\<in>set (elems l @ [a]). \<not> key x \<le> key b" by (auto simp: not_le)
    from find_append_none [OF this, of "elems r"] n Nd.prems 2 not Nd.IH(2) [of "RightF c l a # cs" m res]
    show ?thesis by (simp add: rb_at orders_less [OF assms(1)] orders_greater [OF assms(1)])
  next
    case 3
    with Nd.prems have "\<forall>b\<in>set (elems l). \<not> key x \<le> key b" by (auto simp: not_le)
    from find_append_none [OF this, of "a # elems r"] n 3 show ?thesis
      by (simp add: rb_at orders_less [OF assms(1)] orders_greater [OF assms(1)])
  qed
qed

section \<open>Ends and neighbours\<close>

lemmas rb_at_root = RB_LEFT_at [of "[]", unfolded plug.simps] RB_RIGHT_at [of "[]", unfolded plug.simps]
  RB_PARENT_at [of "[]", unfolded plug.simps]

lemma elems_Nil [simp]: "elems t = [] \<longleftrightarrow> t = Lf"
  by (cases t) simp_all

lemma minmax_loop_min:
  assumes "val < 0" and "distinct (elems (plug cs t))" and "rb_height t < n"
  shows "minmax_loop n val (root_of t) q (rb_state w (plug cs t)) =
    Inr (case front (elems t) of None \<Rightarrow> q | Some a \<Rightarrow> Some a, rb_state w (plug cs t))"
  using assms(2-)
proof (induction t arbitrary: cs n q)
  case Lf
  then show ?case by (cases n) auto
next
  case (Nd c l a r)
  then obtain m where "n = Suc m" "rb_height l < m" by (cases n) auto
  with assms(1) Nd.prems Nd.IH(1) [of "LeftF c a r # cs" m "Some a"] show ?case
    by (cases "l = Lf") (auto simp: rb_at front_def split: list.splits)
qed

lemma minmax_loop_max:
  assumes "\<not> val < 0" and "distinct (elems (plug cs t))" and "rb_height t < n"
  shows "minmax_loop n val (root_of t) q (rb_state w (plug cs t)) =
    Inr (case rear (elems t) of None \<Rightarrow> q | Some a \<Rightarrow> Some a, rb_state w (plug cs t))"
  using assms(2-)
proof (induction t arbitrary: cs n q)
  case Lf
  then show ?case by (cases n) auto
next
  case (Nd c l a r)
  then obtain m where "n = Suc m" "rb_height r < m" by (cases n) auto
  moreover have "rear (elems r) \<noteq> None" if "r \<noteq> Lf"
    using that by (auto simp: rear_def front_def split: list.splits)
  ultimately show ?case
    using assms(1) Nd.prems Nd.IH(2) [of "RightF c l a # cs" m "Some a"]
    by (cases "r = Lf") (auto simp: rb_at)
qed

lemma leftmost_front:
  assumes "distinct (elems (plug cs t))" and "t \<noteq> Lf" and "rb_height t \<le> n"
  shows "leftmost n (root_of t) (rb_state w (plug cs t)) = Inr (front (elems t), rb_state w (plug cs t))"
  using assms
proof (induction t arbitrary: cs n)
  case (Nd c l a r)
  then obtain m where "n = Suc m" "rb_height l \<le> m" by (cases n) auto
  with Nd.prems Nd.IH(1) [of "LeftF c a r # cs" m] show ?case by (cases "l = Lf") (auto simp: rb_at)
qed simp

lemma rightmost_rear:
  assumes "distinct (elems (plug cs t))" and "t \<noteq> Lf" and "rb_height t \<le> n"
  shows "rightmost n (root_of t) (rb_state w (plug cs t)) = Inr (rear (elems t), rb_state w (plug cs t))"
  using assms
proof (induction t arbitrary: cs n)
  case (Nd c l a r)
  then obtain m where "n = Suc m" "rb_height r \<le> m" by (cases n) auto
  with Nd.prems Nd.IH(2) [of "RightF c l a # cs" m] show ?case by (cases "r = Lf") (auto simp: rb_at)
qed simp

text \<open>Climbing along right links ends below the first left link, whose node is the next element.\<close>

lemma climb_right_after:
  assumes "distinct (elems (plug cs t))" and "root_of t = Some x" and "length cs < n"
  shows "\<exists>a. climb_right n (Some x) (rb_state w (plug cs t)) = Inr (Some a, rb_state w (plug cs t)) \<and>
    RB_PARENT (Some a) (rb_state w (plug cs t)) = Inr (front (after cs), rb_state w (plug cs t))"
  using assms
proof (induction cs arbitrary: t x n)
  case Nil
  then show ?case using RB_PARENT_at [of "[]" t x w] by (cases n; cases t) auto
next
  case (Cons f cs)
  then obtain m where m: "n = Suc m" "length cs < m" by (cases n) auto
  obtain c l r where t: "t = Nd c l x r" using Cons.prems(2) by (cases t) auto
  show ?case
  proof (cases f)
    case (LeftF k p s)
    with m t Cons.prems show ?thesis by (auto simp: rb_at)
  next
    case (RightF k s p)
    with m t Cons.prems Cons.IH [of "Nd k s p t" p m] show ?thesis by (auto simp: rb_at)
  qed
qed

lemma climb_left_before:
  assumes "distinct (elems (plug cs t))" and "root_of t = Some x" and "length cs < n"
  shows "\<exists>a. climb_left n (Some x) (rb_state w (plug cs t)) = Inr (Some a, rb_state w (plug cs t)) \<and>
    RB_PARENT (Some a) (rb_state w (plug cs t)) = Inr (rear (before cs), rb_state w (plug cs t))"
  using assms
proof (induction cs arbitrary: t x n)
  case Nil
  then show ?case using RB_PARENT_at [of "[]" t x w] by (cases n; cases t) auto
next
  case (Cons f cs)
  then obtain m where m: "n = Suc m" "length cs < m" by (cases n) auto
  obtain c l r where t: "t = Nd c l x r" using Cons.prems(2) by (cases t) auto
  show ?case
  proof (cases f)
    case (LeftF k p s)
    with m t Cons.prems Cons.IH [of "Nd k t p s" p m] show ?thesis by (auto simp: rb_at)
  next
    case (RightF k s p)
    with m t Cons.prems show ?thesis by (auto simp: rb_at)
  qed
qed

section \<open>The operations on a red-black tree\<close>

lemma RB_FIND_at:
  assumes "orders cmp key" and "ascending key (elems t)" and "rb_height t < n"
  shows "RB_FIND cmp n x (rb_state w t) = Inr (find (\<lambda>a. key a = key x) (elems t), rb_state w t)"
  using find_loop_at [OF assms(1,2), of "[]" n x w] assms ascending_distinct [OF assms(2)]
  by (simp add: RB_FIND_def)

lemma RB_NFIND_at:
  assumes "orders cmp key" and "ascending key (elems t)" and "rb_height t < n"
  shows "RB_NFIND cmp n x (rb_state w t) = Inr (find (\<lambda>a. key x \<le> key a) (elems t), rb_state w t)"
  using nfind_loop_at [OF assms(1,2), of "[]" n x None w] assms ascending_distinct [OF assms(2)]
  by (simp add: RB_NFIND_def option.case_eq_if split: option.split)

lemma RB_MIN_at: "distinct (elems t) \<Longrightarrow> rb_height t < n \<Longrightarrow> RB_MIN n (rb_state w t) = Inr (front (elems t), rb_state w t)"
  using minmax_loop_min [of RB_NEGINF "[]" t n None w]
  by (simp add: RB_MIN_def RB_MINMAX_def RB_NEGINF_def split: option.split)

lemma RB_MAX_at: "distinct (elems t) \<Longrightarrow> rb_height t < n \<Longrightarrow> RB_MAX n (rb_state w t) = Inr (rear (elems t), rb_state w t)"
  using minmax_loop_max [of RB_INF "[]" t n None w]
  by (simp add: RB_MAX_def RB_MINMAX_def RB_INF_def split: option.split)

text \<open>Splitting the elements at one of them is splitting the tree at its node.\<close>

lemma split_at:
  assumes "distinct (elems t)" and "elems t = xs @ x # ys"
  obtains cs c l r where "t = plug cs (Nd c l x r)" and "xs = before cs @ elems l" and "ys = elems r @ after cs"
proof -
  obtain cs c l r where t: "t = plug cs (Nd c l x r)" using find_path [of x t] assms(2) by auto
  have "(before cs @ elems l) @ x # (elems r @ after cs) = xs @ x # ys" using assms(2) by (simp add: t)
  moreover have "x \<notin> set (before cs @ elems l)" "x \<notin> set (elems r @ after cs)" using assms(1) by (auto simp: t)
  ultimately have "before cs @ elems l = xs" "elems r @ after cs = ys"
    using append_Cons_eq_iff [of x "before cs @ elems l" "elems r @ after cs" xs ys] by auto
  with t that show ?thesis by auto
qed

lemma RB_NEXT_at:
  assumes "distinct (elems t)" and "rb_height t < n" and "elems t = xs @ x # ys"
  shows "RB_NEXT n (Some x) (rb_state w t) = Inr (front ys, rb_state w t)"
proof -
  obtain cs c l r where t: "t = plug cs (Nd c l x r)" and ys: "ys = elems r @ after cs"
    using split_at [OF assms(1,3)] by metis
  have dist: "distinct (elems (plug cs (Nd c l x r)))" using assms(1) t by simp
  have h: "length cs < n" "rb_height r \<le> n" using height_plug [of cs "Nd c l x r"] assms(2) by (simp_all add: t)
  show ?thesis
  proof (cases "r = Lf")
    case False
    with leftmost_front [of "RightF c l x # cs" r n w] dist h(2) show ?thesis
      by (simp add: t RB_NEXT_def rb_at ys)
  next
    case True
    obtain a where a: "climb_right n (Some x) (rb_state w t) = Inr (Some a, rb_state w t)"
      "RB_PARENT (Some a) (rb_state w t) = Inr (front ys, rb_state w t)"
      using climb_right_after [OF dist _ h(1), of x w] by (auto simp: t ys True)
    show ?thesis
      using a dist True by (cases cs rule: before.cases) (auto simp: t RB_NEXT_def rb_at rb_at_root [of "Nd c l x Lf"] ys)
  qed
qed

lemma RB_PREV_at:
  assumes "distinct (elems t)" and "rb_height t < n" and "elems t = xs @ x # ys"
  shows "RB_PREV n (Some x) (rb_state w t) = Inr (rear xs, rb_state w t)"
proof -
  obtain cs c l r where t: "t = plug cs (Nd c l x r)" and xs: "xs = before cs @ elems l"
    using split_at [OF assms(1,3)] by metis
  have dist: "distinct (elems (plug cs (Nd c l x r)))" using assms(1) t by simp
  have h: "length cs < n" "rb_height l \<le> n" using height_plug [of cs "Nd c l x r"] assms(2) by (simp_all add: t)
  show ?thesis
  proof (cases "l = Lf")
    case False
    with rightmost_rear [of "LeftF c x r # cs" l n w] dist h(2) show ?thesis
      by (simp add: t RB_PREV_def rb_at xs)
  next
    case True
    obtain a where a: "climb_left n (Some x) (rb_state w t) = Inr (Some a, rb_state w t)"
      "RB_PARENT (Some a) (rb_state w t) = Inr (rear xs, rb_state w t)"
      using climb_left_before [OF dist _ h(1), of x w] by (auto simp: t xs True)
    show ?thesis
      using a dist True by (cases cs rule: before.cases) (auto simp: t RB_PREV_def rb_at rb_at_root [of "Nd c Lf x r"] xs)
  qed
qed

section \<open>Loops over a tree\<close>

text \<open>
  A loop body acts on the rest of the state: at every element \<open>a\<close> it keeps the tree and turns the
  state \<open>w\<close> around it into \<open>g a w\<close>.
\<close>

lemma foreach_next:
  assumes "distinct (elems t)" and "rb_height t < n" and "elems t = xs @ ys" and "length ys < m"
    and "\<And>a w. a \<in> set (elems t) \<Longrightarrow> body a (rb_state w t) = Inr ((), rb_state (g a w) t)"
  shows "foreach_loop (RB_NEXT n) m body (front ys) (rb_state w t) = Inr ((), rb_state (fold g ys w) t)"
    and "foreach_safe_loop (RB_NEXT n) m body (front ys) (rb_state w t) = Inr ((), rb_state (fold g ys w) t)"
  using assms(3,4)
proof (induction ys arbitrary: xs m w)
  case Nil
  case 1
  then show ?case by (cases m) auto
  case 2
  then show ?case by (cases m) auto
next
  case (Cons a ys)
  have next_a: "RB_NEXT n (Some a) (rb_state v t) = Inr (front ys, rb_state v t)" if "elems t = xs @ a # ys" for xs v
    using assms(1,2) that by (rule RB_NEXT_at)
  case 1
  then show ?case using next_a [OF 1(1), of "g a w"] assms(5) [of a w] Cons.IH(1) [of "xs @ [a]" "m - 1" "g a w"]
    by (cases m) auto
  case 2
  then show ?case using next_a [OF 2(1), of w] assms(5) [of a w] Cons.IH(2) [of "xs @ [a]" "m - 1" "g a w"]
    by (cases m) auto
qed

lemma foreach_prev:
  assumes "distinct (elems t)" and "rb_height t < n" and "elems t = rev ys @ xs" and "length ys < m"
    and "\<And>a w. a \<in> set (elems t) \<Longrightarrow> body a (rb_state w t) = Inr ((), rb_state (g a w) t)"
  shows "foreach_loop (RB_PREV n) m body (front ys) (rb_state w t) = Inr ((), rb_state (fold g ys w) t)"
    and "foreach_safe_loop (RB_PREV n) m body (front ys) (rb_state w t) = Inr ((), rb_state (fold g ys w) t)"
  using assms(3,4)
proof (induction ys arbitrary: xs m w)
  case Nil
  case 1
  then show ?case by (cases m) auto
  case 2
  then show ?case by (cases m) auto
next
  case (Cons a ys)
  have prev_a: "RB_PREV n (Some a) (rb_state v t) = Inr (front ys, rb_state v t)"
    if "elems t = rev (a # ys) @ xs" for xs v
    using RB_PREV_at [OF assms(1,2), of "rev ys" a xs v] that by (simp add: rear_def)
  case 1
  then show ?case using prev_a [OF 1(1), of "g a w"] assms(5) [of a w] Cons.IH(1) [of "a # xs" "m - 1" "g a w"]
    by (cases m) auto
  case 2
  then show ?case using prev_a [OF 2(1), of w] assms(5) [of a w] Cons.IH(2) [of "a # xs" "m - 1" "g a w"]
    by (cases m) auto
qed

lemma height_le_length: "rb_height t \<le> length (elems t)"
  by (induction t) auto

lemma RB_FOREACH_at:
  assumes "distinct (elems t)" and "length (elems t) < n"
    and "\<And>a w. a \<in> set (elems t) \<Longrightarrow> body a (rb_state w t) = Inr ((), rb_state (g a w) t)"
  shows "RB_FOREACH n body (rb_state w t) = Inr ((), rb_state (fold g (elems t) w) t)"
    and "RB_FOREACH_SAFE n body (rb_state w t) = Inr ((), rb_state (fold g (elems t) w) t)"
    and "RB_FOREACH_REVERSE n body (rb_state w t) = Inr ((), rb_state (fold g (rev (elems t)) w) t)"
    and "RB_FOREACH_REVERSE_SAFE n body (rb_state w t) = Inr ((), rb_state (fold g (rev (elems t)) w) t)"
proof -
  have h: "rb_height t < n" using height_le_length [of t] assms(2) by linarith
  show "RB_FOREACH n body (rb_state w t) = Inr ((), rb_state (fold g (elems t) w) t)"
    "RB_FOREACH_SAFE n body (rb_state w t) = Inr ((), rb_state (fold g (elems t) w) t)"
    using foreach_next [OF assms(1) h, of "[]" "elems t" n body g w] assms h RB_MIN_at [OF assms(1) h, of w]
    by (simp_all add: RB_FOREACH_def RB_FOREACH_SAFE_def)
  show "RB_FOREACH_REVERSE n body (rb_state w t) = Inr ((), rb_state (fold g (rev (elems t)) w) t)"
    "RB_FOREACH_REVERSE_SAFE n body (rb_state w t) = Inr ((), rb_state (fold g (rev (elems t)) w) t)"
    using foreach_prev [OF assms(1) h, of "rev (elems t)" "[]" n body g w] assms h RB_MAX_at [OF assms(1) h, of w]
    by (simp_all add: RB_FOREACH_REVERSE_def RB_FOREACH_REVERSE_SAFE_def rear_def)
qed

lemma RB_FOREACH_FROM_at:
  assumes "distinct (elems t)" and "length (elems t) < n" and "elems t = xs @ a # ys"
    and "\<And>a w. a \<in> set (elems t) \<Longrightarrow> body a (rb_state w t) = Inr ((), rb_state (g a w) t)"
  shows "RB_FOREACH_FROM n body (Some a) (rb_state w t) = Inr ((), rb_state (fold g (a # ys) w) t)"
    and "RB_FOREACH_REVERSE_FROM n body (Some a) (rb_state w t) = Inr ((), rb_state (fold g (a # rev xs) w) t)"
proof -
  have h: "rb_height t < n" using height_le_length [of t] assms(2) by linarith
  show "RB_FOREACH_FROM n body (Some a) (rb_state w t) = Inr ((), rb_state (fold g (a # ys) w) t)"
    using foreach_next(2) [OF assms(1) h, of xs "a # ys" n body g w] assms by (simp add: RB_FOREACH_FROM_def)
  show "RB_FOREACH_REVERSE_FROM n body (Some a) (rb_state w t) = Inr ((), rb_state (fold g (a # rev xs) w) t)"
    using foreach_prev(2) [OF assms(1) h, of "a # rev xs" ys n body g w] assms
    by (simp add: RB_FOREACH_REVERSE_FROM_def)
qed

text \<open>
  Freeing a tree: \<open>RB_FOREACH_SAFE\<close> has fetched the next element before its body removes the
  current one, so a body that removes what it visits empties the tree.
\<close>

lemma foreach_safe_remove:
  assumes "rbtree key t" and "length (elems t) < m" and "rb_height t < n" and "length (elems t) < n"
  shows "\<exists>w'. foreach_safe_loop (RB_NEXT n) m (\<lambda>a. seq (RB_REMOVE n (Some a)) (ret ())) (front (elems t)) (rb_state w t) =
    Inr ((), rb_state w' Lf) \<and> (\<forall>a. a \<notin> set (elems t) \<longrightarrow> rb_mem w' a = rb_mem w a)"
  using assms
proof (induction "elems t" arbitrary: t m w)
  case Nil
  then show ?case by (cases m) (auto simp: eq_commute [of "[]"])
next
  case (Cons a xs)
  note els = Cons.hyps(2) [symmetric]
  obtain m' where m: "m = Suc m'" "length xs < m'" using Cons.prems(2) els by (cases m) auto
  have "distinct (elems t)" using Cons.prems(1) ascending_distinct unfolding rbtree_def by auto
  from RB_NEXT_at [OF this Cons.prems(3), of "[]" a xs w] els
  have next_a: "RB_NEXT n (Some a) (rb_state w t) = Inr (front xs, rb_state w t)" by simp
  obtain t' e where rem: "RB_REMOVE n (Some a) (rb_state w t) = Inr (Some a, rb_state (left_behind w a e) t')"
    and t': "rbtree key t'" "elems t' = xs"
    using RB_REMOVE_node [OF Cons.prems(1,3), of a w] els by auto
  have "rb_height t' < n" using height_le_length [of t'] t' Cons.prems(4) els by auto
  from Cons.hyps(1) [OF t'(2) [symmetric] t'(1) _ this, of m' "left_behind w a e"] t' m Cons.prems(4) els
  obtain w' where "foreach_safe_loop (RB_NEXT n) m' (\<lambda>a. seq (RB_REMOVE n (Some a)) (ret ())) (front xs)
      (rb_state (left_behind w a e) t') = Inr ((), rb_state w' Lf)"
    and "\<forall>b. b \<notin> set xs \<longrightarrow> rb_mem w' b = rb_mem (left_behind w a e) b" by auto
  with next_a rem m els show ?case by (intro exI [of _ w']) auto
qed

section \<open>Properties\<close>

text \<open>C27: within a logarithmic number of rounds \<open>RB_FIND\<close> returns the element with the key searched
  for, \<open>RB_NFIND\<close> the first element whose key is not below it, or NULL when there is none; neither
  changes anything.\<close>

theorem rb_search:
  assumes "orders cmp key" and "rbtree key t" and "enough n (elems t)"
  shows "RB_FIND cmp n x (rb_state w t) = Inr (find (\<lambda>a. key a = key x) (elems t), rb_state w t) \<and>
    RB_NFIND cmp n x (rb_state w t) = Inr (find (\<lambda>a. key x \<le> key a) (elems t), rb_state w t)"
  using RB_FIND_at [OF assms(1), of t n x w] RB_NFIND_at [OF assms(1), of t n x w] enough_height [of t n] assms(2,3)
  by (simp_all add: rbtree_def)

theorem rb_search_witness:
  "RB_FIND plain_cmp 5 5 (rb_state rb_blank small_tree) = Inr (None, rb_state rb_blank small_tree) \<and>
   RB_NFIND plain_cmp 5 5 (rb_state rb_blank small_tree) = Inr (Some 6, rb_state rb_blank small_tree)"
  using rb_search [OF orders_plain small_tree_facts(1,3), of 5 rb_blank] by (simp add: small_tree_facts(2))

text \<open>within a logarithmic number of rounds \<open>RB_NEXT\<close> and \<open>RB_PREV\<close> return the neighbours of an
  element in the order of the keys, \<open>RB_MIN\<close> and \<open>RB_MAX\<close> the first and the last element, and NULL
  past the ends.\<close>

theorem rb_neighbours:
  assumes "rbtree key t" and "enough n (elems t)" and "elems t = xs @ x # ys"
  shows "RB_NEXT n (Some x) (rb_state w t) = Inr (front ys, rb_state w t) \<and>
    RB_PREV n (Some x) (rb_state w t) = Inr (rear xs, rb_state w t) \<and>
    RB_MIN n (rb_state w t) = Inr (front (elems t), rb_state w t) \<and>
    RB_MAX n (rb_state w t) = Inr (rear (elems t), rb_state w t)"
proof -
  have d: "distinct (elems t)" and h: "rb_height t < n"
    using assms(1,2) ascending_distinct enough_height by (auto simp: rbtree_def)
  show ?thesis
    using RB_NEXT_at [OF d h assms(3)] RB_PREV_at [OF d h assms(3)] RB_MIN_at [OF d h] RB_MAX_at [OF d h] by blast
qed

theorem rb_neighbours_witness:
  "RB_NEXT 5 (Some 4) (rb_state rb_blank small_tree) = Inr (Some 6, rb_state rb_blank small_tree) \<and>
   RB_PREV 5 (Some 4) (rb_state rb_blank small_tree) = Inr (Some 2, rb_state rb_blank small_tree)"
  using rb_neighbours [OF small_tree_facts(1,3), of "[2]" 4 "[6]" rb_blank] by (simp add: small_tree_facts(2))

text \<open>A loop body that notes the elements it is given in the rest of the state.\<close>

definition note_visit :: "addr \<Rightarrow> (addr list, unit) rb" where
  "note_visit a = upd (rb_head.more_update (\<lambda>l. l @ [a]))"

definition noted :: "addr list \<Rightarrow> addr list rb_head_scheme" where
  "noted l = \<lparr>rbh_root = None, rb_mem = rb_mem rb_blank, \<dots> = l\<rparr>"

lemma note_visit_state: "note_visit a (rb_state w t) = Inr ((), rb_state (rb_head.more_update (\<lambda>l. l @ [a]) w) t)"
  by (simp add: note_visit_def rb_state_def)

text \<open>C29: \<open>RB_FOREACH\<close> and \<open>RB_FOREACH_SAFE\<close> run their body on every element of the tree exactly once
  in ascending order and end, their \<open>REVERSE\<close> versions in descending order.\<close>

theorem rb_foreach:
  assumes "rbtree key t" and "length (elems t) < n"
    and "\<forall>a\<in>set (elems t). \<forall>w. body a (rb_state w t) = Inr ((), rb_state (g a w) t)"
  shows "RB_FOREACH n body (rb_state w t) = Inr ((), rb_state (fold g (elems t) w) t) \<and>
    RB_FOREACH_SAFE n body (rb_state w t) = Inr ((), rb_state (fold g (elems t) w) t) \<and>
    RB_FOREACH_REVERSE n body (rb_state w t) = Inr ((), rb_state (fold g (rev (elems t)) w) t) \<and>
    RB_FOREACH_REVERSE_SAFE n body (rb_state w t) = Inr ((), rb_state (fold g (rev (elems t)) w) t)"
proof -
  have "distinct (elems t)" using assms(1) ascending_distinct by (auto simp: rbtree_def)
  from RB_FOREACH_at [OF this assms(2), of body g w] assms(3) show ?thesis by auto
qed

theorem rb_foreach_witness:
  "RB_FOREACH 5 note_visit (rb_state (noted []) small_tree) = Inr ((), rb_state (noted [2, 4, 6]) small_tree) \<and>
   RB_FOREACH_REVERSE 5 note_visit (rb_state (noted []) small_tree) = Inr ((), rb_state (noted [6, 4, 2]) small_tree)"
  using rb_foreach [OF small_tree_facts(1), of 5 note_visit "\<lambda>a. rb_head.more_update (\<lambda>l. l @ [a])" "noted []"]
  by (simp add: small_tree_facts(2) note_visit_state noted_def)

text \<open>\<open>RB_FOREACH_SAFE\<close> allows its body to remove the element it is given: a loop that removes
  every element it visits ends with the empty tree and has changed no memory but that of the
  elements.\<close>

theorem rb_foreach_safe_empties:
  assumes "rbtree key t" and "length (elems t) < n"
  shows "\<exists>w'. RB_FOREACH_SAFE n (\<lambda>a. seq (RB_REMOVE n (Some a)) (ret ())) (rb_state w t) = Inr ((), rb_state w' Lf) \<and>
    (\<forall>a. a \<notin> set (elems t) \<longrightarrow> rb_mem w' a = rb_mem w a)"
proof -
  have h: "rb_height t < n" using height_le_length [of t] assms(2) by linarith
  have "distinct (elems t)" using assms(1) ascending_distinct by (auto simp: rbtree_def)
  from RB_MIN_at [OF this h, of w] foreach_safe_remove [OF assms(1,2) h assms(2), of w] show ?thesis
    by (simp add: RB_FOREACH_SAFE_def)
qed

theorem rb_foreach_safe_empties_witness:
  "\<exists>w'. RB_FOREACH_SAFE 5 (\<lambda>a. seq (RB_REMOVE 5 (Some a)) (ret ())) (rb_state rb_blank small_tree) =
     Inr ((), rb_state w' Lf) \<and> rb_mem w' 7 = rb_mem rb_blank 7"
  using rb_foreach_safe_empties [OF small_tree_facts(1), of 5 rb_blank] by (auto simp: small_tree_facts(2))

end
