(* ===== verification/Splay_Tree.thy ===== *)
theory Splay_Tree
  imports Tree_Order
begin

text \<open>
  The splay tree macros of \<open>libs/libuv-1.44.2/include/uv/tree.h\<close>: the intrusive node field of
  \<open>SPLAY_ENTRY\<close>, the head, the rotations and links, and every function that \<open>SPLAY_PROTOTYPE\<close> and
  \<open>SPLAY_GENERATE\<close> write out for a tree. The comparison is a parameter, the loops carry a bound on
  their rounds.
\<close>

section \<open>Data\<close>

record sp_entry =
  spe_left :: "addr option"
  spe_right :: "addr option"

record sp_head =
  sph_root :: "addr option"
  sp_mem :: "addr \<rightharpoonup> sp_entry"

type_synonym ('s, 'x) sp = "('s sp_head_scheme, 'x) prog"

definition sp_get :: "(sp_entry \<Rightarrow> 'x) \<Rightarrow> addr option \<Rightarrow> ('s, 'x) sp" where
  "sp_get f p = bnd (deref p) (\<lambda>a. bnd (gets sp_mem) (\<lambda>m.
     case m a of None \<Rightarrow> fail Bad_Pointer | Some e \<Rightarrow> ret (f e)))"

definition sp_put :: "(sp_entry \<Rightarrow> sp_entry) \<Rightarrow> addr option \<Rightarrow> ('s, unit) sp" where
  "sp_put f p = bnd (deref p) (\<lambda>a. bnd (gets sp_mem) (\<lambda>m.
     case m a of None \<Rightarrow> fail Bad_Pointer
     | Some e \<Rightarrow> upd (sp_mem_update (\<lambda>m. m(a \<mapsto> f e)))))"

definition SPLAY_LEFT :: "addr option \<Rightarrow> ('s, addr option) sp" where
  "SPLAY_LEFT elm = sp_get spe_left elm"

definition SPLAY_RIGHT :: "addr option \<Rightarrow> ('s, addr option) sp" where
  "SPLAY_RIGHT elm = sp_get spe_right elm"

definition set_SPLAY_LEFT :: "addr option \<Rightarrow> addr option \<Rightarrow> ('s, unit) sp" where
  "set_SPLAY_LEFT elm q = sp_put (spe_left_update (\<lambda>_. q)) elm"

definition set_SPLAY_RIGHT :: "addr option \<Rightarrow> addr option \<Rightarrow> ('s, unit) sp" where
  "set_SPLAY_RIGHT elm q = sp_put (spe_right_update (\<lambda>_. q)) elm"

definition SPLAY_ROOT :: "('s, addr option) sp" where
  "SPLAY_ROOT = gets sph_root"

definition set_SPLAY_ROOT :: "addr option \<Rightarrow> ('s, unit) sp" where
  "set_SPLAY_ROOT q = upd (sph_root_update (\<lambda>_. q))"

definition SPLAY_INIT :: "('s, unit) sp" where
  "SPLAY_INIT = set_SPLAY_ROOT None"

definition SPLAY_EMPTY :: "('s, bool) sp" where
  "SPLAY_EMPTY = bnd SPLAY_ROOT (\<lambda>q. ret (q = None))"

section \<open>Rotating and linking\<close>

definition SPLAY_ROTATE_RIGHT :: "addr option \<Rightarrow> ('s, unit) sp" where
  "SPLAY_ROTATE_RIGHT tmp =
     bnd (SPLAY_RIGHT tmp) (\<lambda>r.
     bnd SPLAY_ROOT (\<lambda>root.
     seq (set_SPLAY_LEFT root r) (
     bnd SPLAY_ROOT (\<lambda>root.
     seq (set_SPLAY_RIGHT tmp root) (
     set_SPLAY_ROOT tmp)))))"

definition SPLAY_ROTATE_LEFT :: "addr option \<Rightarrow> ('s, unit) sp" where
  "SPLAY_ROTATE_LEFT tmp =
     bnd (SPLAY_LEFT tmp) (\<lambda>l.
     bnd SPLAY_ROOT (\<lambda>root.
     seq (set_SPLAY_RIGHT root l) (
     bnd SPLAY_ROOT (\<lambda>root.
     seq (set_SPLAY_LEFT tmp root) (
     set_SPLAY_ROOT tmp)))))"

text \<open>
  The locals of \<open>SPLAY\<close>: the node \<open>__node\<close> on the stack, of which only the two links are used, and
  the pointers \<open>__left\<close> and \<open>__right\<close>, which point to it or to an element of the tree.
\<close>

datatype slot = At_node | Elem "addr option"

record splay_locals =
  node_left :: "addr option"
  node_right :: "addr option"
  left_end :: slot
  right_end :: slot

definition splay_start :: splay_locals where
  "splay_start = \<lparr>node_left = None, node_right = None, left_end = At_node, right_end = At_node\<rparr>"

definition set_slot_left :: "slot \<Rightarrow> addr option \<Rightarrow> splay_locals \<Rightarrow> ('s, splay_locals) sp" where
  "set_slot_left p q v = (case p of
     At_node \<Rightarrow> ret (v\<lparr>node_left := q\<rparr>)
   | Elem a \<Rightarrow> seq (set_SPLAY_LEFT a q) (ret v))"

definition set_slot_right :: "slot \<Rightarrow> addr option \<Rightarrow> splay_locals \<Rightarrow> ('s, splay_locals) sp" where
  "set_slot_right p q v = (case p of
     At_node \<Rightarrow> ret (v\<lparr>node_right := q\<rparr>)
   | Elem a \<Rightarrow> seq (set_SPLAY_RIGHT a q) (ret v))"

definition SPLAY_LINKLEFT :: "splay_locals \<Rightarrow> ('s, splay_locals) sp" where
  "SPLAY_LINKLEFT v =
     bnd SPLAY_ROOT (\<lambda>root.
     bnd (set_slot_left (right_end v) root v) (\<lambda>v.
     bnd SPLAY_ROOT (\<lambda>root.
     bnd (SPLAY_LEFT root) (\<lambda>l.
     seq (set_SPLAY_ROOT l) (
     ret (v\<lparr>right_end := Elem root\<rparr>))))))"

definition SPLAY_LINKRIGHT :: "splay_locals \<Rightarrow> ('s, splay_locals) sp" where
  "SPLAY_LINKRIGHT v =
     bnd SPLAY_ROOT (\<lambda>root.
     bnd (set_slot_right (left_end v) root v) (\<lambda>v.
     bnd SPLAY_ROOT (\<lambda>root.
     bnd (SPLAY_RIGHT root) (\<lambda>r.
     seq (set_SPLAY_ROOT r) (
     ret (v\<lparr>left_end := Elem root\<rparr>))))))"

definition SPLAY_ASSEMBLE :: "splay_locals \<Rightarrow> ('s, unit) sp" where
  "SPLAY_ASSEMBLE v =
     bnd SPLAY_ROOT (\<lambda>root.
     bnd (SPLAY_LEFT root) (\<lambda>l.
     bnd (set_slot_right (left_end v) l v) (\<lambda>v.
     bnd (SPLAY_RIGHT root) (\<lambda>r.
     bnd (set_slot_left (right_end v) r v) (\<lambda>v.
     seq (set_SPLAY_LEFT root (node_right v)) (
     set_SPLAY_RIGHT root (node_left v)))))))"

section \<open>Splaying\<close>

text \<open>
  The two halves of a round, with the test that the source repeats on the child (\<open>further\<close>); the
  result says whether the source leaves the loop by \<open>break\<close>.
\<close>

definition splay_left :: "(addr \<Rightarrow> bool) \<Rightarrow> splay_locals \<Rightarrow> ('s, bool \<times> splay_locals) sp" where
  "splay_left further v =
     bnd SPLAY_ROOT (\<lambda>root.
     bnd (SPLAY_LEFT root) (\<lambda>tmp. case tmp of
       None \<Rightarrow> ret (True, v)
     | Some t \<Rightarrow>
         bnd (if further t
              then seq (SPLAY_ROTATE_RIGHT tmp) (
                   bnd SPLAY_ROOT (\<lambda>root.
                   bnd (SPLAY_LEFT root) (\<lambda>l. ret (l = None))))
              else ret False) (\<lambda>stop.
         if stop then ret (True, v)
         else bnd (SPLAY_LINKLEFT v) (\<lambda>v. ret (False, v)))))"

definition splay_right :: "(addr \<Rightarrow> bool) \<Rightarrow> splay_locals \<Rightarrow> ('s, bool \<times> splay_locals) sp" where
  "splay_right further v =
     bnd SPLAY_ROOT (\<lambda>root.
     bnd (SPLAY_RIGHT root) (\<lambda>tmp. case tmp of
       None \<Rightarrow> ret (True, v)
     | Some t \<Rightarrow>
         bnd (if further t
              then seq (SPLAY_ROTATE_LEFT tmp) (
                   bnd SPLAY_ROOT (\<lambda>root.
                   bnd (SPLAY_RIGHT root) (\<lambda>r. ret (r = None))))
              else ret False) (\<lambda>stop.
         if stop then ret (True, v)
         else bnd (SPLAY_LINKRIGHT v) (\<lambda>v. ret (False, v)))))"

primrec splay_loop :: "comparison \<Rightarrow> nat \<Rightarrow> addr \<Rightarrow> splay_locals \<Rightarrow> ('s, splay_locals) sp" where
  "splay_loop cmp 0 elm v = fail Diverges"
| "splay_loop cmp (Suc n) elm v =
     bnd SPLAY_ROOT (\<lambda>root.
     bnd (deref root) (\<lambda>a.
     if cmp elm a = 0 then ret v
     else bnd (if cmp elm a < 0 then splay_left (\<lambda>t. cmp elm t < 0) v
               else splay_right (\<lambda>t. 0 < cmp elm t) v) (\<lambda>(stop, v).
          if stop then ret v else splay_loop cmp n elm v)))"

definition SPLAY :: "comparison \<Rightarrow> nat \<Rightarrow> addr \<Rightarrow> ('s, unit) sp" where
  "SPLAY cmp n elm = bnd (splay_loop cmp n elm splay_start) SPLAY_ASSEMBLE"

primrec minmax_splay_loop :: "nat \<Rightarrow> int \<Rightarrow> splay_locals \<Rightarrow> ('s, splay_locals) sp" where
  "minmax_splay_loop 0 comp' v = fail Diverges"
| "minmax_splay_loop (Suc n) comp' v =
     bnd (if comp' < 0 then splay_left (\<lambda>t. comp' < 0) v
          else if 0 < comp' then splay_right (\<lambda>t. 0 < comp') v
          else ret (False, v)) (\<lambda>(stop, v).
     if stop then ret v else minmax_splay_loop n comp' v)"

definition SPLAY_MINMAX :: "nat \<Rightarrow> int \<Rightarrow> ('s, unit) sp" where
  "SPLAY_MINMAX n comp' = bnd (minmax_splay_loop n comp' splay_start) SPLAY_ASSEMBLE"

section \<open>Operations\<close>

definition SPLAY_INSERT :: "comparison \<Rightarrow> nat \<Rightarrow> addr \<Rightarrow> ('s, addr option) sp" where
  "SPLAY_INSERT cmp n elm =
     bnd SPLAY_EMPTY (\<lambda>empty.
     if empty
     then seq (set_SPLAY_RIGHT (Some elm) None) (
          seq (set_SPLAY_LEFT (Some elm) None) (
          seq (set_SPLAY_ROOT (Some elm)) (
          ret None)))
     else seq (SPLAY cmp n elm) (
          bnd SPLAY_ROOT (\<lambda>root.
          bnd (deref root) (\<lambda>a.
          if cmp elm a < 0
          then bnd (SPLAY_LEFT root) (\<lambda>l.
               seq (set_SPLAY_LEFT (Some elm) l) (
               seq (set_SPLAY_RIGHT (Some elm) root) (
               seq (set_SPLAY_LEFT root None) (
               seq (set_SPLAY_ROOT (Some elm)) (
               ret None)))))
          else if 0 < cmp elm a
          then bnd (SPLAY_RIGHT root) (\<lambda>r.
               seq (set_SPLAY_RIGHT (Some elm) r) (
               seq (set_SPLAY_LEFT (Some elm) root) (
               seq (set_SPLAY_RIGHT root None) (
               seq (set_SPLAY_ROOT (Some elm)) (
               ret None)))))
          else ret root))))"

definition SPLAY_REMOVE :: "comparison \<Rightarrow> nat \<Rightarrow> addr \<Rightarrow> ('s, addr option) sp" where
  "SPLAY_REMOVE cmp n elm =
     bnd SPLAY_EMPTY (\<lambda>empty.
     if empty then ret None
     else seq (SPLAY cmp n elm) (
          bnd SPLAY_ROOT (\<lambda>root.
          bnd (deref root) (\<lambda>a.
          if cmp elm a = 0
          then bnd (SPLAY_LEFT root) (\<lambda>l.
               seq (if l = None
                    then bnd (SPLAY_RIGHT root) set_SPLAY_ROOT
                    else bnd (SPLAY_RIGHT root) (\<lambda>tmp.
                         seq (set_SPLAY_ROOT l) (
                         seq (SPLAY cmp n elm) (
                         bnd SPLAY_ROOT (\<lambda>root.
                         set_SPLAY_RIGHT root tmp)))))
                   (ret (Some elm)))
          else ret None))))"

definition SPLAY_FIND :: "comparison \<Rightarrow> nat \<Rightarrow> addr \<Rightarrow> ('s, addr option) sp" where
  "SPLAY_FIND cmp n elm =
     bnd SPLAY_EMPTY (\<lambda>empty.
     if empty then ret None
     else seq (SPLAY cmp n elm) (
          bnd SPLAY_ROOT (\<lambda>root.
          bnd (deref root) (\<lambda>a.
          if cmp elm a = 0 then ret root else ret None))))"

primrec next_loop :: "nat \<Rightarrow> addr option \<Rightarrow> ('s, addr option) sp" where
  "next_loop 0 elm = fail Diverges"
| "next_loop (Suc n) elm = bnd (SPLAY_LEFT elm) (\<lambda>l. if l \<noteq> None then next_loop n l else ret elm)"

definition SPLAY_NEXT :: "comparison \<Rightarrow> nat \<Rightarrow> addr \<Rightarrow> ('s, addr option) sp" where
  "SPLAY_NEXT cmp n elm =
     seq (SPLAY cmp n elm) (
     bnd (SPLAY_RIGHT (Some elm)) (\<lambda>r.
     if r \<noteq> None then next_loop n r else ret None))"

definition SPLAY_MIN_MAX :: "nat \<Rightarrow> int \<Rightarrow> ('s, addr option) sp" where
  "SPLAY_MIN_MAX n val = seq (SPLAY_MINMAX n val) SPLAY_ROOT"

definition SPLAY_NEGINF :: int where "SPLAY_NEGINF = - 1"
definition SPLAY_INF :: int where "SPLAY_INF = 1"

definition SPLAY_MIN :: "nat \<Rightarrow> ('s, addr option) sp" where
  "SPLAY_MIN n = bnd SPLAY_EMPTY (\<lambda>empty. if empty then ret None else SPLAY_MIN_MAX n SPLAY_NEGINF)"

definition SPLAY_MAX :: "nat \<Rightarrow> ('s, addr option) sp" where
  "SPLAY_MAX n = bnd SPLAY_EMPTY (\<lambda>empty. if empty then ret None else SPLAY_MIN_MAX n SPLAY_INF)"

primrec splay_foreach_loop ::
  "comparison \<Rightarrow> nat \<Rightarrow> nat \<Rightarrow> (addr \<Rightarrow> ('s, unit) sp) \<Rightarrow> addr option \<Rightarrow> ('s, unit) sp"
where
  "splay_foreach_loop cmp n 0 body x = fail Diverges"
| "splay_foreach_loop cmp n (Suc m) body x =
     (case x of None \<Rightarrow> ret ()
      | Some a \<Rightarrow> seq (body a) (bnd (SPLAY_NEXT cmp n a) (\<lambda>x. splay_foreach_loop cmp n m body x)))"

definition SPLAY_FOREACH :: "comparison \<Rightarrow> nat \<Rightarrow> (addr \<Rightarrow> ('s, unit) sp) \<Rightarrow> ('s, unit) sp" where
  "SPLAY_FOREACH cmp n body = bnd (SPLAY_MIN n) (\<lambda>x. splay_foreach_loop cmp n n body x)"

end
