(* ===== verification/Splay_Shape.thy ===== *)
theory Splay_Shape
  imports Splay_Tree "HOL-Library.Tree"
begin

text \<open>
  Which memory a splay tree is, and what splaying does to one: the round of the loop, the links
  that build up the trees on the two sides, and the assembly are equations on binary trees; the
  loop ends, keeps the elements in order, and brings the element searched for, or a neighbour of
  its place, to the root.
\<close>

section \<open>Memories that store a tree\<close>

type_synonym stree = "addr tree"

fun sroot :: "stree \<Rightarrow> addr option" where
  "sroot Leaf = None"
| "sroot (Node l a r) = Some a"

lemma sroot_None [simp]: "sroot t = None \<longleftrightarrow> t = Leaf"
  by (cases t) simp_all

lemma sroot_other [simp]: "a \<notin> set_tree t \<Longrightarrow> sroot t \<noteq> Some a"
  by (cases t) auto

fun put_tree :: "(addr \<rightharpoonup> sp_entry) \<Rightarrow> stree \<Rightarrow> (addr \<rightharpoonup> sp_entry)" where
  "put_tree m Leaf = m"
| "put_tree m (Node l a r) = (put_tree (put_tree m l) r)(a \<mapsto> \<lparr>spe_left = sroot l, spe_right = sroot r\<rparr>)"

fun sp_at :: "(addr \<rightharpoonup> sp_entry) \<Rightarrow> stree \<Rightarrow> bool" where
  "sp_at m Leaf = True"
| "sp_at m (Node l a r) = (m a = Some \<lparr>spe_left = sroot l, spe_right = sroot r\<rparr> \<and> sp_at m l \<and> sp_at m r)"

lemma sp_at_upd [simp]: "a \<notin> set_tree t \<Longrightarrow> sp_at (m(a := e)) t = sp_at m t"
  by (induction t) auto

lemma sp_at_cong: "(\<And>a. a \<in> set_tree t \<Longrightarrow> m a = m' a) \<Longrightarrow> sp_at m t = sp_at m' t"
  by (induction t) auto

lemma put_tree_outside: "a \<notin> set_tree t \<Longrightarrow> put_tree m t a = m a"
  by (induction t arbitrary: m) auto

lemma sp_at_put_tree: "distinct (inorder t) \<Longrightarrow> sp_at (put_tree m t) t"
proof (induction t arbitrary: m)
  case (Node l a r)
  let ?m = "put_tree m l"
  have "sp_at (put_tree ?m r) l = sp_at ?m l"
    using Node.prems by (intro sp_at_cong put_tree_outside) auto
  with Node show ?case unfolding put_tree.simps sp_at.simps by (subst sp_at_upd, simp)+ simp
qed simp

lemma sp_at_unique: "sp_at m t \<Longrightarrow> sp_at m' t \<Longrightarrow> a \<in> set_tree t \<Longrightarrow> m a = m' a"
  by (induction t) auto

definition sp_state :: "'s sp_head_scheme \<Rightarrow> stree \<Rightarrow> 's sp_head_scheme" where
  "sp_state w t = w\<lparr>sph_root := sroot t, sp_mem := put_tree (sp_mem w) t\<rparr>"

definition sp_with :: "'s sp_head_scheme \<Rightarrow> addr option \<Rightarrow> (addr \<rightharpoonup> sp_entry) \<Rightarrow> 's sp_head_scheme" where
  "sp_with w q m = w\<lparr>sph_root := q, sp_mem := m\<rparr>"

lemma sp_state_with: "sp_state w t = sp_with w (sroot t) (put_tree (sp_mem w) t)"
  by (simp add: sp_state_def sp_with_def)

lemma sp_with_eqI:
  assumes "distinct (inorder t)" and "sp_at m t" and "\<And>a. a \<notin> set_tree t \<Longrightarrow> m a = sp_mem w a"
    and "q = sroot t"
  shows "sp_with w q m = sp_state w t"
proof -
  have "m = put_tree (sp_mem w) t"
    by (rule ext) (metis assms sp_at_put_tree sp_at_unique put_tree_outside)
  with assms(4) show ?thesis by (simp add: sp_state_with)
qed

lemma sp_with_get: "m a = Some e \<Longrightarrow> sp_get f (Some a) (sp_with w q m) = Inr (f e, sp_with w q m)"
  by (simp add: sp_get_def sp_with_def)

lemma sp_with_put:
  "m a = Some e \<Longrightarrow> sp_put f (Some a) (sp_with w q m) = Inr ((), sp_with w q (m(a \<mapsto> f e)))"
  by (simp add: sp_put_def sp_with_def)

lemma sp_with_root [simp]:
  "SPLAY_ROOT (sp_with w q m) = Inr (q, sp_with w q m)"
  "set_SPLAY_ROOT p (sp_with w q m) = Inr ((), sp_with w p m)"
  by (simp_all add: SPLAY_ROOT_def set_SPLAY_ROOT_def sp_with_def)

lemmas sp_run = sp_with_get sp_with_put SPLAY_LEFT_def SPLAY_RIGHT_def set_SPLAY_LEFT_def set_SPLAY_RIGHT_def

section \<open>The two trees that are built up on the sides\<close>

text \<open>
  The left tree is a list of nodes with their left subtrees, the last one linked in first; the
  right tree likewise.
\<close>

type_synonym left_spine = "(stree \<times> addr) list"
type_synonym right_spine = "(addr \<times> stree) list"

fun hang_left :: "left_spine \<Rightarrow> stree \<Rightarrow> stree" where
  "hang_left [] t = t"
| "hang_left ((l, a) # ls) t = hang_left ls (Node l a t)"

fun hang_right :: "right_spine \<Rightarrow> stree \<Rightarrow> stree" where
  "hang_right [] t = t"
| "hang_right ((a, r) # rs) t = hang_right rs (Node t a r)"

fun left_elems :: "left_spine \<Rightarrow> addr list" where
  "left_elems [] = []"
| "left_elems ((l, a) # ls) = left_elems ls @ inorder l @ [a]"

fun right_elems :: "right_spine \<Rightarrow> addr list" where
  "right_elems [] = []"
| "right_elems ((a, r) # rs) = a # inorder r @ right_elems rs"

lemma inorder_hang_left [simp]: "inorder (hang_left ls t) = left_elems ls @ inorder t"
  by (induction ls t rule: hang_left.induct) simp_all

lemma inorder_hang_right [simp]: "inorder (hang_right rs t) = inorder t @ right_elems rs"
  by (induction rs t rule: hang_right.induct) simp_all

text \<open>
  In memory the left tree starts at \<open>node_right\<close>, and the right link of the node linked in last,
  or \<open>node_right\<close> itself, holds some \<open>y\<close>.
\<close>

fun left_at :: "(addr \<rightharpoonup> sp_entry) \<Rightarrow> addr option \<Rightarrow> left_spine \<Rightarrow> addr option \<Rightarrow> bool" where
  "left_at m h [] y = (h = y)"
| "left_at m h ((l, a) # ls) y =
     (m a = Some \<lparr>spe_left = sroot l, spe_right = y\<rparr> \<and> sp_at m l \<and> left_at m h ls (Some a))"

fun right_at :: "(addr \<rightharpoonup> sp_entry) \<Rightarrow> addr option \<Rightarrow> right_spine \<Rightarrow> addr option \<Rightarrow> bool" where
  "right_at m h [] y = (h = y)"
| "right_at m h ((a, r) # rs) y =
     (m a = Some \<lparr>spe_left = y, spe_right = sroot r\<rparr> \<and> sp_at m r \<and> right_at m h rs (Some a))"

lemma left_at_upd [simp]: "a \<notin> set (left_elems ls) \<Longrightarrow> left_at (m(a := e)) h ls y = left_at m h ls y"
  by (induction m h ls y rule: left_at.induct) auto

lemma right_at_upd [simp]: "a \<notin> set (right_elems rs) \<Longrightarrow> right_at (m(a := e)) h rs y = right_at m h rs y"
  by (induction m h rs y rule: right_at.induct) auto

lemma left_at_hang: "left_at m h ls (sroot t) \<Longrightarrow> sp_at m t \<Longrightarrow> sp_at m (hang_left ls t) \<and> sroot (hang_left ls t) = h"
  by (induction ls t rule: hang_left.induct) auto

lemma right_at_hang: "right_at m h rs (sroot t) \<Longrightarrow> sp_at m t \<Longrightarrow> sp_at m (hang_right rs t) \<and> sroot (hang_right rs t) = h"
  by (induction rs t rule: hang_right.induct) auto

fun left_slot :: "left_spine \<Rightarrow> slot" where
  "left_slot [] = At_node"
| "left_slot ((l, a) # ls) = Elem (Some a)"

fun right_slot :: "right_spine \<Rightarrow> slot" where
  "right_slot [] = At_node"
| "right_slot ((a, r) # rs) = Elem (Some a)"

text \<open>The state in the middle of \<open>SPLAY\<close>: the tree that is left to search, and the trees on its sides.\<close>

definition splaying ::
  "'s sp_head_scheme \<Rightarrow> left_spine \<Rightarrow> stree \<Rightarrow> right_spine \<Rightarrow> splay_locals \<Rightarrow> 's sp_head_scheme \<Rightarrow> bool"
where
  "splaying w ls t rs v s \<longleftrightarrow> (\<exists>m yl yr. s = sp_with w (sroot t) m \<and> sp_at m t \<and>
     left_at m (node_right v) ls yl \<and> right_at m (node_left v) rs yr \<and>
     left_end v = left_slot ls \<and> right_end v = right_slot rs \<and>
     distinct (left_elems ls @ inorder t @ right_elems rs) \<and>
     (\<forall>a. a \<notin> set (left_elems ls @ inorder t @ right_elems rs) \<longrightarrow> m a = sp_mem w a))"

lemma splaying_start: "distinct (inorder t) \<Longrightarrow> splaying w [] t [] splay_start (sp_state w t)"
  unfolding splaying_def splay_start_def sp_state_with
  by (intro exI [of _ "put_tree (sp_mem w) t"]) (simp add: sp_at_put_tree put_tree_outside)

lemma rotate_right_step:
  assumes "splaying w ls (Node (Node ll b lr) a r) rs v s"
  shows "\<exists>s'. SPLAY_ROTATE_RIGHT (Some b) s = Inr ((), s') \<and> splaying w ls (Node ll b (Node lr a r)) rs v s'"
proof -
  obtain m yl yr where s: "s = sp_with w (Some a) m" and at: "sp_at m (Node (Node ll b lr) a r)"
      "left_at m (node_right v) ls yl" "right_at m (node_left v) rs yr"
    and rest: "left_end v = left_slot ls" "right_end v = right_slot rs"
      "distinct (left_elems ls @ inorder (Node (Node ll b lr) a r) @ right_elems rs)"
      "\<forall>x. x \<notin> set (left_elems ls @ inorder (Node (Node ll b lr) a r) @ right_elems rs) \<longrightarrow> m x = sp_mem w x"
    using assms unfolding splaying_def by auto
  let ?m = "m(a \<mapsto> \<lparr>spe_left = sroot lr, spe_right = sroot r\<rparr>, b \<mapsto> \<lparr>spe_left = sroot ll, spe_right = Some a\<rparr>)"
  have "SPLAY_ROTATE_RIGHT (Some b) s = Inr ((), sp_with w (Some b) ?m)"
    using at rest by (simp add: s SPLAY_ROTATE_RIGHT_def sp_run)
  moreover have "splaying w ls (Node ll b (Node lr a r)) rs v (sp_with w (Some b) ?m)"
    unfolding splaying_def
    by (rule exI [of _ ?m], rule exI [of _ yl], rule exI [of _ yr]) (use at rest in auto)
  ultimately show ?thesis by blast
qed

lemma rotate_left_step:
  assumes "splaying w ls (Node l a (Node rl b rr)) rs v s"
  shows "\<exists>s'. SPLAY_ROTATE_LEFT (Some b) s = Inr ((), s') \<and> splaying w ls (Node (Node l a rl) b rr) rs v s'"
proof -
  obtain m yl yr where s: "s = sp_with w (Some a) m" and at: "sp_at m (Node l a (Node rl b rr))"
      "left_at m (node_right v) ls yl" "right_at m (node_left v) rs yr"
    and rest: "left_end v = left_slot ls" "right_end v = right_slot rs"
      "distinct (left_elems ls @ inorder (Node l a (Node rl b rr)) @ right_elems rs)"
      "\<forall>x. x \<notin> set (left_elems ls @ inorder (Node l a (Node rl b rr)) @ right_elems rs) \<longrightarrow> m x = sp_mem w x"
    using assms unfolding splaying_def by auto
  let ?m = "m(a \<mapsto> \<lparr>spe_left = sroot l, spe_right = sroot rl\<rparr>, b \<mapsto> \<lparr>spe_left = Some a, spe_right = sroot rr\<rparr>)"
  have "SPLAY_ROTATE_LEFT (Some b) s = Inr ((), sp_with w (Some b) ?m)"
    using at rest by (simp add: s SPLAY_ROTATE_LEFT_def sp_run)
  moreover have "splaying w ls (Node (Node l a rl) b rr) rs v (sp_with w (Some b) ?m)"
    unfolding splaying_def
    by (rule exI [of _ ?m], rule exI [of _ yl], rule exI [of _ yr]) (use at rest in auto)
  ultimately show ?thesis by blast
qed

lemma link_left_step:
  assumes "splaying w ls (Node l a r) rs v s"
  shows "\<exists>v' s'. SPLAY_LINKLEFT v s = Inr (v', s') \<and> splaying w ls l ((a, r) # rs) v' s'"
proof -
  obtain m yl yr where s: "s = sp_with w (Some a) m" and at: "sp_at m (Node l a r)"
      "left_at m (node_right v) ls yl" "right_at m (node_left v) rs yr"
    and rest: "left_end v = left_slot ls" "right_end v = right_slot rs"
      "distinct (left_elems ls @ inorder (Node l a r) @ right_elems rs)"
      "\<forall>x. x \<notin> set (left_elems ls @ inorder (Node l a r) @ right_elems rs) \<longrightarrow> m x = sp_mem w x"
    using assms unfolding splaying_def by auto
  show ?thesis
  proof (cases rs)
    case Nil
    let ?v = "v\<lparr>node_left := Some a, right_end := Elem (Some a)\<rparr>"
    have "SPLAY_LINKLEFT v s = Inr (?v, sp_with w (sroot l) m)"
      using at rest Nil by (simp add: s SPLAY_LINKLEFT_def set_slot_left_def sp_run)
    moreover have "splaying w ls l ((a, r) # rs) ?v (sp_with w (sroot l) m)"
      unfolding splaying_def
      by (rule exI [of _ m], rule exI [of _ yl], rule exI [of _ "sroot l"]) (use at rest Nil in auto)
    ultimately show ?thesis by blast
  next
    case (Cons f rs')
    obtain b r' where f: "f = (b, r')" by (cases f)
    let ?m = "m(b \<mapsto> \<lparr>spe_left = Some a, spe_right = sroot r'\<rparr>)"
    let ?v = "v\<lparr>right_end := Elem (Some a)\<rparr>"
    have "SPLAY_LINKLEFT v s = Inr (?v, sp_with w (sroot l) ?m)"
      using at rest Cons f by (simp add: s SPLAY_LINKLEFT_def set_slot_left_def sp_run)
    moreover have "splaying w ls l ((a, r) # rs) ?v (sp_with w (sroot l) ?m)"
      unfolding splaying_def
      by (rule exI [of _ ?m], rule exI [of _ yl], rule exI [of _ "sroot l"]) (use at rest Cons f in auto)
    ultimately show ?thesis by blast
  qed
qed

lemma link_right_step:
  assumes "splaying w ls (Node l a r) rs v s"
  shows "\<exists>v' s'. SPLAY_LINKRIGHT v s = Inr (v', s') \<and> splaying w ((l, a) # ls) r rs v' s'"
proof -
  obtain m yl yr where s: "s = sp_with w (Some a) m" and at: "sp_at m (Node l a r)"
      "left_at m (node_right v) ls yl" "right_at m (node_left v) rs yr"
    and rest: "left_end v = left_slot ls" "right_end v = right_slot rs"
      "distinct (left_elems ls @ inorder (Node l a r) @ right_elems rs)"
      "\<forall>x. x \<notin> set (left_elems ls @ inorder (Node l a r) @ right_elems rs) \<longrightarrow> m x = sp_mem w x"
    using assms unfolding splaying_def by auto
  show ?thesis
  proof (cases ls)
    case Nil
    let ?v = "v\<lparr>node_right := Some a, left_end := Elem (Some a)\<rparr>"
    have "SPLAY_LINKRIGHT v s = Inr (?v, sp_with w (sroot r) m)"
      using at rest Nil by (simp add: s SPLAY_LINKRIGHT_def set_slot_right_def sp_run)
    moreover have "splaying w ((l, a) # ls) r rs ?v (sp_with w (sroot r) m)"
      unfolding splaying_def
      by (rule exI [of _ m], rule exI [of _ "sroot r"], rule exI [of _ yr]) (use at rest Nil in auto)
    ultimately show ?thesis by blast
  next
    case (Cons f ls')
    obtain b l' where f: "f = (l', b)" by (cases f)
    let ?m = "m(b \<mapsto> \<lparr>spe_left = sroot l', spe_right = Some a\<rparr>)"
    let ?v = "v\<lparr>left_end := Elem (Some a)\<rparr>"
    have "SPLAY_LINKRIGHT v s = Inr (?v, sp_with w (sroot r) ?m)"
      using at rest Cons f by (simp add: s SPLAY_LINKRIGHT_def set_slot_right_def sp_run)
    moreover have "splaying w ((l, a) # ls) r rs ?v (sp_with w (sroot r) ?m)"
      unfolding splaying_def
      by (rule exI [of _ ?m], rule exI [of _ "sroot r"], rule exI [of _ yr]) (use at rest Cons f in auto)
    ultimately show ?thesis by blast
  qed
qed

text \<open>Writing through \<open>__left\<close> and \<open>__right\<close> only changes the end of the tree on that side.\<close>

lemma left_at_cong: "(\<And>a. a \<in> set (left_elems ls) \<Longrightarrow> m a = m' a) \<Longrightarrow> left_at m h ls y = left_at m' h ls y"
proof (induction ls arbitrary: y)
  case (Cons f ls)
  obtain l a where "f = (l, a)" by (cases f)
  with Cons sp_at_cong [of l m m'] show ?case by simp
qed simp

lemma right_at_cong: "(\<And>a. a \<in> set (right_elems rs) \<Longrightarrow> m a = m' a) \<Longrightarrow> right_at m h rs y = right_at m' h rs y"
proof (induction rs arbitrary: y)
  case (Cons f rs)
  obtain a r where "f = (a, r)" by (cases f)
  with Cons sp_at_cong [of r m m'] show ?case by simp
qed simp

lemma set_left_end:
  assumes "left_at m (node_right v) ls y" and "left_end v = left_slot ls" and "distinct (left_elems ls)"
  shows "\<exists>m' v'. set_slot_right (left_end v) q v (sp_with w p m) = Inr (v', sp_with w p m') \<and>
    left_at m' (node_right v') ls q \<and> node_left v' = node_left v \<and> right_end v' = right_end v \<and>
    (\<forall>x. x \<notin> set (left_elems ls) \<longrightarrow> m' x = m x)"
proof (cases ls)
  case Nil
  with assms show ?thesis by (intro exI [of _ m] exI [of _ "v\<lparr>node_right := q\<rparr>"]) (auto simp: set_slot_right_def)
next
  case (Cons f ls')
  obtain b l where f: "f = (l, b)" by (cases f)
  with assms Cons show ?thesis
    by (intro exI [of _ "m(b \<mapsto> \<lparr>spe_left = sroot l, spe_right = q\<rparr>)"] exI [of _ v])
      (auto simp: set_slot_right_def sp_run)
qed

lemma set_right_end:
  assumes "right_at m (node_left v) rs y" and "right_end v = right_slot rs" and "distinct (right_elems rs)"
  shows "\<exists>m' v'. set_slot_left (right_end v) q v (sp_with w p m) = Inr (v', sp_with w p m') \<and>
    right_at m' (node_left v') rs q \<and> node_right v' = node_right v \<and>
    (\<forall>x. x \<notin> set (right_elems rs) \<longrightarrow> m' x = m x)"
proof (cases rs)
  case Nil
  with assms show ?thesis by (intro exI [of _ m] exI [of _ "v\<lparr>node_left := q\<rparr>"]) (auto simp: set_slot_left_def)
next
  case (Cons f rs')
  obtain b r where f: "f = (b, r)" by (cases f)
  with assms Cons show ?thesis
    by (intro exI [of _ "m(b \<mapsto> \<lparr>spe_left = q, spe_right = sroot r\<rparr>)"] exI [of _ v])
      (auto simp: set_slot_left_def sp_run)
qed

lemma assemble_step:
  assumes "splaying w ls (Node l a r) rs v s"
  shows "SPLAY_ASSEMBLE v s = Inr ((), sp_state w (Node (hang_left ls l) a (hang_right rs r)))"
proof -
  obtain m yl yr where s: "s = sp_with w (Some a) m" and at: "sp_at m (Node l a r)"
      "left_at m (node_right v) ls yl" "right_at m (node_left v) rs yr"
    and ends: "left_end v = left_slot ls" "right_end v = right_slot rs"
    and dist: "distinct (left_elems ls @ inorder (Node l a r) @ right_elems rs)"
    and out: "\<forall>x. x \<notin> set (left_elems ls @ inorder (Node l a r) @ right_elems rs) \<longrightarrow> m x = sp_mem w x"
    using assms unfolding splaying_def by auto
  have d: "distinct (left_elems ls)" "distinct (right_elems rs)" using dist by auto
  obtain m1 v1 where 1: "set_slot_right (left_end v) (sroot l) v s = Inr (v1, sp_with w (Some a) m1)"
    "left_at m1 (node_right v1) ls (sroot l)" "node_left v1 = node_left v" "right_end v1 = right_end v"
    "\<forall>x. x \<notin> set (left_elems ls) \<longrightarrow> m1 x = m x"
    using set_left_end [OF at(2) ends(1) d(1), of "sroot l" w "Some a"] unfolding s by blast
  have "m x = m1 x" if "x \<in> set (right_elems rs)" for x using that dist 1(5) by auto
  then have "right_at m1 (node_left v1) rs yr"
    using at(3) right_at_cong [of rs m m1 "node_left v" yr] 1(3) by simp
  from set_right_end [OF this _ d(2), of "sroot r" w "Some a"] 1(4) ends(2) obtain m2 v2 where
    2: "set_slot_left (right_end v1) (sroot r) v1 (sp_with w (Some a) m1) = Inr (v2, sp_with w (Some a) m2)"
    "right_at m2 (node_left v2) rs (sroot r)" "node_right v2 = node_right v1"
    "\<forall>x. x \<notin> set (right_elems rs) \<longrightarrow> m2 x = m1 x" by auto
  let ?m = "m2(a \<mapsto> \<lparr>spe_left = node_right v2, spe_right = node_left v2\<rparr>)"
  have a: "m1 a = Some \<lparr>spe_left = sroot l, spe_right = sroot r\<rparr>" "m2 a = Some \<lparr>spe_left = sroot l, spe_right = sroot r\<rparr>"
    using at(1) 1(5) 2(4) dist by auto
  have same: "m1 x = m2 x" if "x \<in> set (left_elems ls)" for x using that dist 2(4) by auto
  have "left_at ?m (node_right v2) ls (sroot l)" "right_at ?m (node_left v2) rs (sroot r)"
    using 1(2) 2(2,3) left_at_cong [of ls m1 m2 "node_right v1" "sroot l"] same dist by auto
  moreover have "m x = ?m x" if "x \<in> set_tree l \<union> set_tree r" for x
  proof -
    have "x \<notin> set (left_elems ls)" "x \<notin> set (right_elems rs)" "x \<noteq> a" using that dist by auto
    with 1(5) 2(4) show ?thesis by simp
  qed
  then have "sp_at ?m l" "sp_at ?m r"
    using at(1) sp_at_cong [of l m ?m] sp_at_cong [of r m ?m] by auto
  ultimately have "sp_at ?m (Node (hang_left ls l) a (hang_right rs r))"
    using left_at_hang [of ?m "node_right v2" ls l] right_at_hang [of ?m "node_left v2" rs r] by auto
  then have "sp_with w (Some a) ?m = sp_state w (Node (hang_left ls l) a (hang_right rs r))"
    by (rule sp_with_eqI [rotated]) (use dist out 1(5) 2(4) in \<open>auto simp flip: set_inorder\<close>)
  with 1 2 a at show ?thesis
    by (simp add: s SPLAY_ASSEMBLE_def sp_run)
qed

section \<open>Splaying as a function on trees\<close>

text \<open>
  One round at a node: the result says whether it ends the search, and gives the tree that is left
  to search and the tree on the side. \<open>lt\<close> and \<open>gt\<close> say on which side of an element the search goes.
\<close>

definition go_left :: "(addr \<Rightarrow> bool) \<Rightarrow> stree \<Rightarrow> addr \<Rightarrow> stree \<Rightarrow> right_spine \<Rightarrow> bool \<times> stree \<times> right_spine" where
  "go_left lt l a r rs = (case l of
     Leaf \<Rightarrow> (True, Node l a r, rs)
   | Node ll b lr \<Rightarrow>
       if lt b
       then (if ll = Leaf then (True, Node ll b (Node lr a r), rs) else (False, ll, (b, Node lr a r) # rs))
       else (False, l, (a, r) # rs))"

definition go_right :: "(addr \<Rightarrow> bool) \<Rightarrow> left_spine \<Rightarrow> stree \<Rightarrow> addr \<Rightarrow> stree \<Rightarrow> bool \<times> left_spine \<times> stree" where
  "go_right gt ls l a r = (case r of
     Leaf \<Rightarrow> (True, ls, Node l a r)
   | Node rl b rr \<Rightarrow>
       if gt b
       then (if rr = Leaf then (True, ls, Node (Node l a rl) b rr) else (False, (Node l a rl, b) # ls, rr))
       else (False, (l, a) # ls, r))"

lemma go_left_cases:
  assumes "go_left lt l a r rs = (stop, t, rs')"
  shows "inorder t @ right_elems rs' = inorder l @ a # inorder r @ right_elems rs" and "t \<noteq> Leaf"
    and "\<not> stop \<Longrightarrow> size t < size l + size r + 1"
  using assms by (auto simp: go_left_def split: tree.splits if_splits)

lemma go_right_cases:
  assumes "go_right gt ls l a r = (stop, ls', t)"
  shows "left_elems ls' @ inorder t = left_elems ls @ inorder l @ a # inorder r" and "t \<noteq> Leaf"
    and "\<not> stop \<Longrightarrow> size t < size l + size r + 1"
  using assms by (auto simp: go_right_def split: tree.splits if_splits)

function seek ::
  "(addr \<Rightarrow> bool) \<Rightarrow> (addr \<Rightarrow> bool) \<Rightarrow> left_spine \<Rightarrow> stree \<Rightarrow> right_spine \<Rightarrow> left_spine \<times> stree \<times> right_spine"
where
  "seek lt gt ls Leaf rs = (ls, Leaf, rs)"
| "seek lt gt ls (Node l a r) rs =
     (if lt a
      then (case go_left lt l a r rs of (stop, t, rs') \<Rightarrow>
              if stop then (ls, t, rs') else seek lt gt ls t rs')
      else if gt a
      then (case go_right gt ls l a r of (stop, ls', t) \<Rightarrow>
              if stop then (ls', t, rs) else seek lt gt ls' t rs)
      else (ls, Node l a r, rs))"
  by pat_completeness auto
termination
  by (relation "measure (\<lambda>(_, _, _, t, _). size t)")
    (auto dest!: sym [of _ "go_left _ _ _ _ _"] sym [of _ "go_right _ _ _ _ _"]
      dest: go_left_cases(3) go_right_cases(3))

fun join :: "left_spine \<times> stree \<times> right_spine \<Rightarrow> stree" where
  "join (ls, Node l a r, rs) = Node (hang_left ls l) a (hang_right rs r)"
| "join (ls, Leaf, rs) = Leaf"

lemma splay_left_step:
  assumes "splaying w ls (Node l a r) rs v s" and "go_left lt l a r rs = (stop, t, rs')"
  shows "\<exists>v' s'. splay_left lt v s = Inr ((stop, v'), s') \<and> splaying w ls t rs' v' s'"
proof -
  obtain m yl yr where s: "s = sp_with w (Some a) m" and a: "m a = Some \<lparr>spe_left = sroot l, spe_right = sroot r\<rparr>"
    using assms(1) unfolding splaying_def by auto
  have left: "SPLAY_LEFT (Some a) s = Inr (sroot l, s)" "SPLAY_ROOT s = Inr (Some a, s)"
    using a by (simp_all add: s sp_run)
  show ?thesis
  proof (cases l)
    case Leaf
    with assms left show ?thesis by (auto simp: splay_left_def go_left_def)
  next
    case (Node ll b lr)
    show ?thesis
    proof (cases "lt b")
      case False
      from link_left_step [OF assms(1)] obtain v' s' where
        "SPLAY_LINKLEFT v s = Inr (v', s')" "splaying w ls l ((a, r) # rs) v' s'" by blast
      with False Node assms(2) left show ?thesis by (auto simp: splay_left_def go_left_def)
    next
      case True
      from rotate_right_step [OF assms(1) [unfolded Node]] obtain s1 where
        1: "SPLAY_ROTATE_RIGHT (Some b) s = Inr ((), s1)" "splaying w ls (Node ll b (Node lr a r)) rs v s1" by blast
      then obtain m1 where "s1 = sp_with w (Some b) m1" "m1 b = Some \<lparr>spe_left = sroot ll, spe_right = Some a\<rparr>"
        unfolding splaying_def by auto
      then have left1: "SPLAY_ROOT s1 = Inr (Some b, s1)" "SPLAY_LEFT (Some b) s1 = Inr (sroot ll, s1)"
        by (simp_all add: sp_run)
      from link_left_step [OF 1(2)] obtain v' s' where
        "SPLAY_LINKLEFT v s1 = Inr (v', s')" "splaying w ls ll ((b, Node lr a r) # rs) v' s'" by blast
      with True Node assms(2) left 1 left1 show ?thesis
        by (cases "ll = Leaf") (auto simp: splay_left_def go_left_def)
    qed
  qed
qed

lemma splay_right_step:
  assumes "splaying w ls (Node l a r) rs v s" and "go_right gt ls l a r = (stop, ls', t)"
  shows "\<exists>v' s'. splay_right gt v s = Inr ((stop, v'), s') \<and> splaying w ls' t rs v' s'"
proof -
  obtain m yl yr where s: "s = sp_with w (Some a) m" and a: "m a = Some \<lparr>spe_left = sroot l, spe_right = sroot r\<rparr>"
    using assms(1) unfolding splaying_def by auto
  have right: "SPLAY_RIGHT (Some a) s = Inr (sroot r, s)" "SPLAY_ROOT s = Inr (Some a, s)"
    using a by (simp_all add: s sp_run)
  show ?thesis
  proof (cases r)
    case Leaf
    with assms right show ?thesis by (auto simp: splay_right_def go_right_def)
  next
    case (Node rl b rr)
    show ?thesis
    proof (cases "gt b")
      case False
      from link_right_step [OF assms(1)] obtain v' s' where
        "SPLAY_LINKRIGHT v s = Inr (v', s')" "splaying w ((l, a) # ls) r rs v' s'" by blast
      with False Node assms(2) right show ?thesis by (auto simp: splay_right_def go_right_def)
    next
      case True
      from rotate_left_step [OF assms(1) [unfolded Node]] obtain s1 where
        1: "SPLAY_ROTATE_LEFT (Some b) s = Inr ((), s1)" "splaying w ls (Node (Node l a rl) b rr) rs v s1" by blast
      then obtain m1 where "s1 = sp_with w (Some b) m1" "m1 b = Some \<lparr>spe_left = Some a, spe_right = sroot rr\<rparr>"
        unfolding splaying_def by auto
      then have right1: "SPLAY_ROOT s1 = Inr (Some b, s1)" "SPLAY_RIGHT (Some b) s1 = Inr (sroot rr, s1)"
        by (simp_all add: sp_run)
      from link_right_step [OF 1(2)] obtain v' s' where
        "SPLAY_LINKRIGHT v s1 = Inr (v', s')" "splaying w ((Node l a rl, b) # ls) rr rs v' s'" by blast
      with True Node assms(2) right 1 right1 show ?thesis
        by (cases "rr = Leaf") (auto simp: splay_right_def go_right_def)
    qed
  qed
qed

lemma splaying_root: "splaying w ls (Node l a r) rs v s \<Longrightarrow> SPLAY_ROOT s = Inr (Some a, s)"
  unfolding splaying_def by auto

lemma splay_loop_seek:
  assumes "splaying w ls t rs v s" and "t \<noteq> Leaf" and "size t \<le> n"
    and "seek (\<lambda>a. cmp x a < 0) (\<lambda>a. 0 < cmp x a) ls t rs = (ls', t', rs')"
  shows "\<exists>v' s'. splay_loop cmp n x v s = Inr (v', s') \<and> splaying w ls' t' rs' v' s'"
  using assms
proof (induction n arbitrary: ls t rs v s)
  case (Suc n)
  let ?lt = "\<lambda>a. cmp x a < 0" and ?gt = "\<lambda>a. 0 < cmp x a"
  obtain l a r where t: "t = Node l a r" using Suc.prems(2) by (cases t) auto
  note root = splaying_root [OF Suc.prems(1) [unfolded t]]
  consider "cmp x a < 0" | "0 < cmp x a" | "cmp x a = 0" by linarith
  then show ?case
  proof cases
    case 1
    obtain stop u rs1 where go: "go_left ?lt l a r rs = (stop, u, rs1)" by (metis prod_cases3)
    from splay_left_step [OF Suc.prems(1) [unfolded t] go] obtain v1 s1 where
      step: "splay_left ?lt v s = Inr ((stop, v1), s1)" "splaying w ls u rs1 v1 s1" by blast
    from Suc.IH [OF step(2)] go_left_cases(2,3) [OF go] Suc.prems(3,4) root step go 1 t
    show ?thesis by (cases stop) auto
  next
    case 2
    obtain stop ls1 u where go: "go_right ?gt ls l a r = (stop, ls1, u)" by (metis prod_cases3)
    from splay_right_step [OF Suc.prems(1) [unfolded t] go] obtain v1 s1 where
      step: "splay_right ?gt v s = Inr ((stop, v1), s1)" "splaying w ls1 u rs v1 s1" by blast
    from Suc.IH [OF step(2)] go_right_cases(2,3) [OF go] Suc.prems(3,4) root step go 2 t
    show ?thesis by (cases stop) auto
  next
    case 3
    with Suc.prems root t show ?thesis by auto
  qed
qed simp

lemma minmax_splay_loop_seek:
  assumes "splaying w ls t rs v s" and "t \<noteq> Leaf" and "size t \<le> n" and "c \<noteq> 0"
    and "seek (\<lambda>a. c < 0) (\<lambda>a. 0 < c) ls t rs = (ls', t', rs')"
  shows "\<exists>v' s'. minmax_splay_loop n c v s = Inr (v', s') \<and> splaying w ls' t' rs' v' s'"
  using assms
proof (induction n arbitrary: ls t rs v s)
  case (Suc n)
  obtain l a r where t: "t = Node l a r" using Suc.prems(2) by (cases t) auto
  show ?case
  proof (cases "c < 0")
    case True
    obtain stop u rs1 where go: "go_left (\<lambda>a. c < 0) l a r rs = (stop, u, rs1)" by (metis prod_cases3)
    from splay_left_step [OF Suc.prems(1) [unfolded t] go] obtain v1 s1 where
      step: "splay_left (\<lambda>a. c < 0) v s = Inr ((stop, v1), s1)" "splaying w ls u rs1 v1 s1" by blast
    from Suc.IH [OF step(2)] go_left_cases(2,3) [OF go] Suc.prems(3,4,5) step go True t
    show ?thesis by (cases stop) auto
  next
    case False
    obtain stop ls1 u where go: "go_right (\<lambda>a. 0 < c) ls l a r = (stop, ls1, u)" by (metis prod_cases3)
    from splay_right_step [OF Suc.prems(1) [unfolded t] go] obtain v1 s1 where
      step: "splay_right (\<lambda>a. 0 < c) v s = Inr ((stop, v1), s1)" "splaying w ls1 u rs v1 s1" by blast
    from Suc.IH [OF step(2)] go_right_cases(2,3) [OF go] Suc.prems(3,4,5) step go False t
    show ?thesis by (cases stop) auto
  qed
qed simp

lemma seek_inorder:
  "seek lt gt ls t rs = (ls', t', rs') \<Longrightarrow>
   left_elems ls' @ inorder t' @ right_elems rs' = left_elems ls @ inorder t @ right_elems rs \<and>
   (t = Leaf \<longleftrightarrow> t' = Leaf)"
proof (induction lt gt ls t rs arbitrary: ls' t' rs' rule: seek.induct)
  case (2 lt gt ls l a r rs)
  obtain s1 u1 rs1 where gl: "go_left lt l a r rs = (s1, u1, rs1)" by (metis prod_cases3)
  obtain s2 ls2 u2 where gr: "go_right gt ls l a r = (s2, ls2, u2)" by (metis prod_cases3)
  from "2" gl gr go_left_cases(1,2) [OF gl] go_right_cases(1,2) [OF gr] show ?case
    by (auto split: if_splits)
qed simp

section \<open>What splaying brings to the root\<close>

text \<open>The root separates the elements below the key that was searched from those above it.\<close>

fun parts :: "(addr \<Rightarrow> 'k::linorder) \<Rightarrow> 'k \<Rightarrow> stree \<Rightarrow> bool" where
  "parts key k Leaf = True"
| "parts key k (Node l a r) = ((\<forall>b\<in>set_tree l. key b < k) \<and> (\<forall>b\<in>set_tree r. k < key b))"

lemma go_left_parts:
  assumes "go_left lt l a r rs = (stop, t, rs')" and "lt a" and "\<And>b. lt b \<longleftrightarrow> k < key b"
    and "ascending key (inorder (Node l a r))" and "\<forall>b\<in>set (right_elems rs). k < key b"
  shows "(\<forall>b\<in>set (right_elems rs'). k < key b) \<and> (stop \<longrightarrow> parts key k t)"
proof -
  have a: "k < key a" using assms(2,3) by simp
  have r: "\<forall>b\<in>set_tree r. k < key b" using a assms(4) by (auto intro: less_trans)
  show ?thesis
  proof (cases l)
    case Leaf
    with assms(1,5) r show ?thesis by (auto simp: go_left_def)
  next
    case (Node ll b lr)
    have "\<forall>c\<in>set_tree lr. k < key c" if "k < key b" using that Node assms(4) by (auto intro: less_trans)
    with Node assms(1,3,5) r a show ?thesis
      by (cases "k < key b"; cases "ll = Leaf") (auto simp: go_left_def)
  qed
qed

lemma go_right_parts:
  assumes "go_right gt ls l a r = (stop, ls', t)" and "gt a" and "\<And>b. gt b \<longleftrightarrow> key b < k"
    and "ascending key (inorder (Node l a r))" and "\<forall>b\<in>set (left_elems ls). key b < k"
  shows "(\<forall>b\<in>set (left_elems ls'). key b < k) \<and> (stop \<longrightarrow> parts key k t)"
proof -
  have a: "key a < k" using assms(2,3) by simp
  have l: "\<forall>b\<in>set_tree l. key b < k" using a assms(4) by (auto intro: less_trans)
  show ?thesis
  proof (cases r)
    case Leaf
    with assms(1,5) l show ?thesis by (auto simp: go_right_def)
  next
    case (Node rl b rr)
    have "\<forall>c\<in>set_tree rl. key c < k" if "key b < k" using that Node assms(4) by (auto intro: less_trans)
    with Node assms(1,3,5) l a show ?thesis
      by (cases "key b < k"; cases "rr = Leaf") (auto simp: go_right_def)
  qed
qed

lemma seek_parts:
  assumes "seek lt gt ls t rs = (ls', t', rs')" and "\<And>b. lt b \<longleftrightarrow> k < key b" and "\<And>b. gt b \<longleftrightarrow> key b < k"
    and "ascending key (left_elems ls @ inorder t @ right_elems rs)"
    and "\<forall>b\<in>set (left_elems ls). key b < k" and "\<forall>b\<in>set (right_elems rs). k < key b"
  shows "parts key k t' \<and> (\<forall>b\<in>set (left_elems ls'). key b < k) \<and> (\<forall>b\<in>set (right_elems rs'). k < key b)"
  using assms
proof (induction lt gt ls t rs arbitrary: ls' t' rs' rule: seek.induct)
  case (2 lt gt ls l a r rs)
  obtain s1 u1 rs1 where gl: "go_left lt l a r rs = (s1, u1, rs1)" by (metis prod_cases3)
  obtain s2 ls2 u2 where gr: "go_right gt ls l a r = (s2, ls2, u2)" by (metis prod_cases3)
  have asc: "ascending key (inorder (Node l a r))" using "2.prems"(4) by auto
  consider "lt a" | "\<not> lt a" "gt a" | "\<not> lt a" "\<not> gt a" by blast
  then show ?case
  proof cases
    case 1
    note p = go_left_parts [OF gl 1 "2.prems"(2) asc "2.prems"(6)]
    have asc1: "ascending key (left_elems ls @ inorder u1 @ right_elems rs1)"
      using "2.prems"(4) go_left_cases(1) [OF gl] by simp
    show ?thesis
    proof (cases s1)
      case True
      with 1 gl "2.prems"(1) have "ls' = ls" "t' = u1" "rs' = rs1" by auto
      with p True "2.prems"(5) show ?thesis by blast
    next
      case False
      with 1 gl "2.prems"(1) have "seek lt gt ls u1 rs1 = (ls', t', rs')" by simp
      from "2.IH"(1) [OF 1 gl [symmetric] refl False this "2.prems"(2,3) asc1 "2.prems"(5) conjunct1 [OF p]]
      show ?thesis .
    qed
  next
    case 2
    note p = go_right_parts [OF gr 2(2) "2.prems"(3) asc "2.prems"(5)]
    have "ascending key ((left_elems ls2 @ inorder u2) @ right_elems rs)"
      unfolding go_right_cases(1) [OF gr] using "2.prems"(4) by simp
    then have asc2: "ascending key (left_elems ls2 @ inorder u2 @ right_elems rs)" by (simp only: append_assoc)
    show ?thesis
    proof (cases s2)
      case True
      with 2 gr "2.prems"(1) have "ls' = ls2" "t' = u2" "rs' = rs" by auto
      with p True "2.prems"(6) show ?thesis by blast
    next
      case False
      with 2 gr "2.prems"(1) have "seek lt gt ls2 u2 rs = (ls', t', rs')" by simp
      from "2.IH"(2) [OF 2 gr [symmetric] refl False this "2.prems"(2,3) asc2 conjunct1 [OF p] "2.prems"(6)]
      show ?thesis .
    qed
  next
    case 3
    then have "key a = k" using "2.prems"(2,3) by (metis linorder_cases)
    with 3 "2.prems" show ?thesis by auto
  qed
qed auto

lemma join_inorder: "inorder (join (ls, t, rs)) = (if t = Leaf then [] else left_elems ls @ inorder t @ right_elems rs)"
  by (cases t) simp_all

lemma join_parts:
  "parts key k t \<Longrightarrow> \<forall>b\<in>set (left_elems ls). key b < k \<Longrightarrow> \<forall>b\<in>set (right_elems rs). k < key b \<Longrightarrow>
   parts key k (join (ls, t, rs))"
  by (cases t) (auto simp flip: set_inorder)

definition splayed :: "comparison \<Rightarrow> addr \<Rightarrow> stree \<Rightarrow> stree" where
  "splayed cmp x t = join (seek (\<lambda>a. cmp x a < 0) (\<lambda>a. 0 < cmp x a) [] t [])"

lemma inorder_splayed [simp]: "inorder (splayed cmp x t) = inorder t"
proof -
  obtain ls u rs where sk: "seek (\<lambda>a. cmp x a < 0) (\<lambda>a. 0 < cmp x a) [] t [] = (ls, u, rs)" by (metis prod_cases3)
  from seek_inorder [OF sk] show ?thesis by (simp add: splayed_def sk join_inorder)
qed

lemma splayed_parts:
  assumes "orders cmp key" and "ascending key (inorder t)"
  shows "parts key (key x) (splayed cmp x t)"
proof -
  obtain ls u rs where sk: "seek (\<lambda>a. cmp x a < 0) (\<lambda>a. 0 < cmp x a) [] t [] = (ls, u, rs)" by (metis prod_cases3)
  have "parts key (key x) u \<and> (\<forall>b\<in>set (left_elems ls). key b < key x) \<and> (\<forall>b\<in>set (right_elems rs). key x < key b)"
    by (rule seek_parts [OF sk]) (simp_all add: orders_less [OF assms(1)] orders_greater [OF assms(1)] assms(2))
  then show ?thesis by (simp add: splayed_def sk join_parts)
qed

lemma inorder_Leaf [simp]: "inorder t = [] \<longleftrightarrow> t = Leaf"
  by (cases t) simp_all

lemma splayed_Leaf [simp]: "splayed cmp x t = Leaf \<longleftrightarrow> t = Leaf"
  using inorder_splayed [of cmp x t] by (metis inorder_Leaf)

lemma SPLAY_at:
  assumes "distinct (inorder t)" and "t \<noteq> Leaf" and "size t \<le> n"
  shows "SPLAY cmp n x (sp_state w t) = Inr ((), sp_state w (splayed cmp x t))"
proof -
  obtain ls u rs where sk: "seek (\<lambda>a. cmp x a < 0) (\<lambda>a. 0 < cmp x a) [] t [] = (ls, u, rs)" by (metis prod_cases3)
  from splay_loop_seek [where cmp = cmp and x = x, OF splaying_start [OF assms(1)] assms(2,3) sk] obtain v s where
    "splay_loop cmp n x splay_start (sp_state w t) = Inr (v, s)" and v: "splaying w ls u rs v s" by blast
  moreover obtain l a r where "u = Node l a r" using seek_inorder [OF sk] assms(2) by (cases u) auto
  ultimately show ?thesis using assemble_step [of w ls l a r rs v s] by (simp add: SPLAY_def splayed_def sk)
qed

text \<open>The ends: the search that always goes left stops at the first element.\<close>

lemma seek_first:
  "seek (\<lambda>a. True) gt ls t rs = (ls', t', rs') \<Longrightarrow> t \<noteq> Leaf \<Longrightarrow> ls' = ls \<and> (\<exists>a r. t' = Node Leaf a r)"
proof (induction "\<lambda>a::addr. True" gt ls t rs arbitrary: ls' t' rs' rule: seek.induct)
  case (2 gt ls l a r rs)
  obtain s1 u1 rs1 where gl: "go_left (\<lambda>a. True) l a r rs = (s1, u1, rs1)" by (metis prod_cases3)
  show ?case
  proof (cases s1)
    case True
    with 2 gl show ?thesis by (auto simp: go_left_def split: tree.splits if_splits)
  next
    case False
    with "2.prems"(1) gl have "seek (\<lambda>a. True) gt ls u1 rs1 = (ls', t', rs')" by simp
    from "2.hyps"(1) [OF TrueI gl [symmetric] refl False this go_left_cases(2) [OF gl]] show ?thesis .
  qed
qed simp

lemma seek_last:
  "seek (\<lambda>a. False) (\<lambda>a. True) ls t rs = (ls', t', rs') \<Longrightarrow> t \<noteq> Leaf \<Longrightarrow> rs' = rs \<and> (\<exists>l a. t' = Node l a Leaf)"
proof (induction "\<lambda>a::addr. False" "\<lambda>a::addr. True" ls t rs arbitrary: ls' t' rs' rule: seek.induct)
  case (2 ls l a r rs)
  obtain s2 ls2 u2 where gr: "go_right (\<lambda>a. True) ls l a r = (s2, ls2, u2)" by (metis prod_cases3)
  show ?case
  proof (cases s2)
    case True
    with 2 gr show ?thesis by (auto simp: go_right_def split: tree.splits if_splits)
  next
    case False
    with "2.prems"(1) gr have "seek (\<lambda>a. False) (\<lambda>a. True) ls2 u2 rs = (ls', t', rs')" by simp
    from "2.hyps"(2) [OF _ TrueI gr [symmetric] refl False this go_right_cases(2) [OF gr]] show ?thesis by simp
  qed
qed simp

lemma SPLAY_MINMAX_at:
  assumes "distinct (inorder t)" and "t \<noteq> Leaf" and "size t \<le> n" and "c \<noteq> 0"
  shows "\<exists>t'. SPLAY_MINMAX n c (sp_state w t) = Inr ((), sp_state w t') \<and> inorder t' = inorder t \<and>
    sroot t' = (if c < 0 then front (inorder t) else rear (inorder t))"
proof -
  obtain ls u rs where sk: "seek (\<lambda>a. c < 0) (\<lambda>a. 0 < c) [] t [] = (ls, u, rs)" by (metis prod_cases3)
  from minmax_splay_loop_seek [OF splaying_start [OF assms(1)] assms(2,3,4) sk] obtain v s where
    run: "minmax_splay_loop n c splay_start (sp_state w t) = Inr (v, s)" and v: "splaying w ls u rs v s" by blast
  obtain l a r where u: "u = Node l a r" using seek_inorder [OF sk] assms(2) by (cases u) auto
  have ord: "left_elems ls @ inorder u @ right_elems rs = inorder t" using seek_inorder [OF sk] by simp
  have "SPLAY_MINMAX n c (sp_state w t) = Inr ((), sp_state w (join (ls, u, rs)))"
    using assemble_step [of w ls l a r rs v s] run v u by (simp add: SPLAY_MINMAX_def)
  moreover have "Some a = (if c < 0 then front (inorder t) else rear (inorder t))"
  proof (cases "c < 0")
    case True
    with sk seek_first [of "\<lambda>a. 0 < c" "[]" t "[]"] assms(2) u have "ls = []" "l = Leaf" by auto
    with ord u True show ?thesis by (auto simp flip: ord)
  next
    case False
    with sk seek_last [of "[]" t "[]"] assms(2,4) u have "rs = []" "r = Leaf" by auto
    with ord u False show ?thesis by (auto simp flip: ord)
  qed
  ultimately show ?thesis using ord u by (intro exI [of _ "join (ls, u, rs)"]) (simp add: join_inorder)
qed

end
