(* ===== verification/Splay_Ops.thy ===== *)
theory Splay_Ops
  imports Splay_Shape
begin

text \<open>
  The operations of the splay tree: each splays, and then reads or changes the root only. They are
  equal to the operations on the ascending list of the elements, up to the shape of the tree.
\<close>

section \<open>Finding, inserting, removing\<close>

lemma SPLAY_EMPTY_state [simp]: "SPLAY_EMPTY (sp_state w t) = Inr (t = Leaf, sp_state w t)"
  by (simp add: SPLAY_EMPTY_def sp_state_with)

lemma SPLAY_ROOT_state [simp]: "SPLAY_ROOT (sp_state w t) = Inr (sroot t, sp_state w t)"
  by (simp add: sp_state_with)

lemma sp_mem_root: "sp_mem (sp_state w (Node l a r)) a = Some \<lparr>spe_left = sroot l, spe_right = sroot r\<rparr>"
  by (simp add: sp_state_def)

lemma sp_fields_root [simp]:
  "SPLAY_LEFT (Some a) (sp_state w (Node l a r)) = Inr (sroot l, sp_state w (Node l a r))"
  "SPLAY_RIGHT (Some a) (sp_state w (Node l a r)) = Inr (sroot r, sp_state w (Node l a r))"
  by (simp_all add: SPLAY_LEFT_def SPLAY_RIGHT_def sp_get_def sp_mem_root)

text \<open>In a tree whose root separates the elements, only the root can have the key itself.\<close>

lemma parts_find:
  assumes "parts key k (Node l a r)"
  shows "find (\<lambda>b. key b = k) (inorder (Node l a r)) = (if key a = k then Some a else None)"
proof -
  have "\<forall>b\<in>set (inorder l). key b \<noteq> k" using assms by auto
  from find_append_none [OF this, of "a # inorder r"] show ?thesis
    using assms by (auto simp: find_None_iff)
qed

lemma splayed_Node:
  assumes "orders cmp key" and "ascending key (inorder t)" and "t \<noteq> Leaf"
  obtains l a r where "splayed cmp x t = Node l a r" and "inorder t = inorder l @ a # inorder r"
    and "\<forall>b\<in>set_tree l. key b < key x" and "\<forall>b\<in>set_tree r. key x < key b"
proof -
  obtain l a r where t: "splayed cmp x t = Node l a r" using assms(3) splayed_Leaf [of cmp x t] by (cases "splayed cmp x t") auto
  with inorder_splayed [of cmp x t] splayed_parts [OF assms(1,2), of x] that show ?thesis by simp
qed

lemma SPLAY_FIND_at:
  assumes "orders cmp key" and "ascending key (inorder t)" and "size t \<le> n"
  shows "SPLAY_FIND cmp n x (sp_state w t) =
    Inr (find (\<lambda>a. key a = key x) (inorder t), sp_state w (if t = Leaf then Leaf else splayed cmp x t))"
proof (cases "t = Leaf")
  case False
  obtain l a r where t: "splayed cmp x t = Node l a r" "inorder t = inorder l @ a # inorder r"
    "\<forall>b\<in>set_tree l. key b < key x" "\<forall>b\<in>set_tree r. key x < key b"
    by (rule splayed_Node [OF assms(1,2) False])
  from SPLAY_at [OF ascending_distinct [OF assms(2)] False assms(3), of cmp x w] parts_find [of key "key x" l a r] t
  show ?thesis by (auto simp: SPLAY_FIND_def False orders_equal [OF assms(1)] simp del: splayed_Leaf)
qed (simp add: SPLAY_FIND_def)

lemma SPLAY_INSERT_empty:
  assumes "sp_mem w x \<noteq> None"
  shows "SPLAY_INSERT cmp n x (sp_state w Leaf) = Inr (None, sp_state w (Node Leaf x Leaf))"
proof -
  obtain e where e: "sp_mem w x = Some e" using assms by auto
  show ?thesis
    by (cases e) (simp add: SPLAY_INSERT_def SPLAY_EMPTY_def sp_state_with sp_run e)
qed

lemma SPLAY_INSERT_new:
  assumes "orders cmp key" and "ascending key (inorder t)" and "size t \<le> n"
    and "key x \<notin> key ` set_tree t" and "sp_mem w x \<noteq> None"
  shows "\<exists>t'. SPLAY_INSERT cmp n x (sp_state w t) = Inr (None, sp_state w t') \<and>
    inorder t' = insort_key key x (inorder t)"
proof (cases "t = Leaf")
  case True
  with SPLAY_INSERT_empty [OF assms(5)] show ?thesis by (intro exI [of _ "Node Leaf x Leaf"]) simp
next
  case False
  obtain l a r where t: "splayed cmp x t = Node l a r" "inorder t = inorder l @ a # inorder r"
    "\<forall>b\<in>set_tree l. key b < key x" "\<forall>b\<in>set_tree r. key x < key b"
    by (rule splayed_Node [OF assms(1,2) False])
  have dist: "distinct (inorder t)" by (rule ascending_distinct) fact
  have x: "x \<notin> set_tree t" using assms(4) by auto
  have set: "set_tree t = set_tree l \<union> {a} \<union> set_tree r" using t(2) by (metis set_append list.simps(15) set_inorder insert_is_Un Un_assoc)
  have run: "SPLAY cmp n x (sp_state w t) = Inr ((), sp_state w (Node l a r))"
    using SPLAY_at [OF dist False assms(3), of cmp x w] by (simp add: t)
  obtain m where m: "put_tree (sp_mem w) (Node l a r) = m" by simp
  have at: "sp_at m (Node l a r)" unfolding m [symmetric] by (rule sp_at_put_tree) (use dist t(2) in simp)
  have out: "m z = sp_mem w z" if "z \<notin> set_tree t" for z
    unfolding m [symmetric] by (rule put_tree_outside) (use that set in simp)
  obtain e where e: "m x = Some e" using assms(5) out [OF x] by auto
  have far: "x \<noteq> a" "x \<notin> set_tree l" "x \<notin> set_tree r" "a \<notin> set_tree l" "a \<notin> set_tree r"
    using x set dist t(2) by auto
  have st: "sp_state w (Node l a r) = sp_with w (Some a) m" unfolding sp_state_with m by simp
  consider "key x < key a" | "key a < key x" using assms(4) set by (metis Un_iff image_eqI linorder_less_linear singletonI)
  then show ?thesis
  proof cases
    case 1
    let ?m = "m(x \<mapsto> \<lparr>spe_left = sroot l, spe_right = Some a\<rparr>, a \<mapsto> \<lparr>spe_left = None, spe_right = sroot r\<rparr>)"
    let ?t = "Node l x (Node Leaf a r)"
    have "SPLAY_INSERT cmp n x (sp_state w t) = Inr (None, sp_with w (Some x) ?m)"
      using 1 at e far False by (cases e) (simp add: SPLAY_INSERT_def run st sp_run orders_less [OF assms(1)])
    moreover have "sp_with w (Some x) ?m = sp_state w ?t"
      by (rule sp_with_eqI) (use at far dist t(2) out set in auto)
    moreover have "inorder ?t = insort_key key x (inorder t)"
      using insort_between [of "inorder l" key x "a # inorder r"] 1 t by simp
    ultimately show ?thesis by auto
  next
    case 2
    let ?m = "m(x \<mapsto> \<lparr>spe_left = Some a, spe_right = sroot r\<rparr>, a \<mapsto> \<lparr>spe_left = sroot l, spe_right = None\<rparr>)"
    let ?t = "Node (Node l a Leaf) x r"
    have "SPLAY_INSERT cmp n x (sp_state w t) = Inr (None, sp_with w (Some x) ?m)"
      using 2 at e far False less_asym [OF 2]
      by (cases e) (simp add: SPLAY_INSERT_def run st sp_run orders_less [OF assms(1)] orders_greater [OF assms(1)])
    moreover have "sp_with w (Some x) ?m = sp_state w ?t"
      by (rule sp_with_eqI) (use at far dist t(2) out set in auto)
    moreover have "inorder ?t = insort_key key x (inorder t)"
      using insort_between [of "inorder l @ [a]" key x "inorder r"] 2 t by simp
    ultimately show ?thesis by auto
  qed
qed

lemma SPLAY_INSERT_equal:
  assumes "orders cmp key" and "ascending key (inorder t)" and "size t \<le> n"
    and "a \<in> set_tree t" and "key a = key x"
  shows "SPLAY_INSERT cmp n x (sp_state w t) = Inr (Some a, sp_state w (splayed cmp x t))"
proof -
  have ne: "t \<noteq> Leaf" using assms(4) by auto
  obtain l b r where t: "splayed cmp x t = Node l b r" "inorder t = inorder l @ b # inorder r"
    "\<forall>b\<in>set_tree l. key b < key x" "\<forall>b\<in>set_tree r. key x < key b"
    by (rule splayed_Node [OF assms(1,2) ne])
  have "a \<in> set (inorder t)" using assms(4) by simp
  then have "a = b" using t(2,3,4) assms(5) by auto
  with SPLAY_at [OF ascending_distinct [OF assms(2)] ne assms(3), of cmp x w] t(1) assms(5) ne show ?thesis
    by (simp add: SPLAY_INSERT_def orders_less [OF assms(1)] orders_greater [OF assms(1)])
qed

text \<open>The element that leaves the tree keeps the contents \<open>e\<close> of its field.\<close>

definition sp_left_behind :: "'s sp_head_scheme \<Rightarrow> addr \<Rightarrow> sp_entry \<Rightarrow> 's sp_head_scheme" where
  "sp_left_behind w x e = w\<lparr>sp_mem := (sp_mem w)(x \<mapsto> e)\<rparr>"

lemma sp_with_left_behind [simp]: "sp_with (sp_left_behind w x e) q m = sp_with w q m"
  by (simp add: sp_left_behind_def sp_with_def)

lemma sp_mem_left_behind [simp]: "sp_mem (sp_left_behind w x e) = (sp_mem w)(x \<mapsto> e)"
  by (simp add: sp_left_behind_def)

text \<open>A subtree that becomes the whole tree, and two trees joined below the last element of the first.\<close>

lemma split_root:
  assumes "distinct (inorder (Node l a r))" and "u = l \<and> v = r \<or> u = r \<and> v = l"
  shows "set_SPLAY_ROOT (sroot u) (sp_state w (Node l a r)) =
    Inr ((), sp_state (w\<lparr>sp_mem := put_tree ((sp_mem w)(a \<mapsto> \<lparr>spe_left = sroot l, spe_right = sroot r\<rparr>)) v\<rparr>) u)"
proof -
  let ?e = "\<lparr>spe_left = sroot l, spe_right = sroot r\<rparr>"
  let ?w = "w\<lparr>sp_mem := put_tree ((sp_mem w)(a \<mapsto> ?e)) v\<rparr>"
  obtain m where m: "put_tree (sp_mem w) (Node l a r) = m" by simp
  have at: "sp_at m (Node l a r)" unfolding m [symmetric] by (rule sp_at_put_tree) fact
  have out: "m z = sp_mem w z" if "z \<notin> set_tree (Node l a r)" for z
    unfolding m [symmetric] using that by (rule put_tree_outside)
  have v: "sp_at (put_tree ((sp_mem w)(a \<mapsto> ?e)) v) v" using assms by (intro sp_at_put_tree) auto
  have "sp_with ?w (sroot u) m = sp_state ?w u"
  proof (rule sp_with_eqI)
    fix z
    assume z: "z \<notin> set_tree u"
    show "m z = sp_mem ?w z"
    proof (cases "z \<in> set_tree v")
      case True
      have "sp_at m v" using at assms(2) by auto
      with True v sp_at_unique [of m v] show ?thesis by auto
    next
      case False
      with z out [of z] at assms put_tree_outside [OF False, of "(sp_mem w)(a \<mapsto> ?e)"] show ?thesis by auto
    qed
  qed (use assms at in auto)
  moreover have "sp_with ?w (sroot u) m = sp_with w (sroot u) m" by (simp add: sp_with_def)
  ultimately show ?thesis unfolding sp_state_with m by simp
qed

lemma join_root:
  assumes "distinct (inorder (Node l b r))"
  shows "set_SPLAY_RIGHT (Some b) (sroot r) (sp_state (w\<lparr>sp_mem := put_tree (sp_mem w) r\<rparr>) (Node l b Leaf)) =
    Inr ((), sp_state w (Node l b r))"
proof -
  let ?w = "w\<lparr>sp_mem := put_tree (sp_mem w) r\<rparr>"
  obtain m where m: "put_tree (sp_mem ?w) (Node l b Leaf) = m" by simp
  have at: "sp_at m (Node l b Leaf)" unfolding m [symmetric] by (rule sp_at_put_tree) (use assms in simp)
  have out: "m z = put_tree (sp_mem w) r z" if "z \<notin> set_tree (Node l b Leaf)" for z
    unfolding m [symmetric] using put_tree_outside [OF that, of "sp_mem ?w"] by simp
  let ?m = "m(b \<mapsto> \<lparr>spe_left = sroot l, spe_right = sroot r\<rparr>)"
  have "sp_at (put_tree (sp_mem w) r) r" using assms by (intro sp_at_put_tree) simp
  moreover have "m z = put_tree (sp_mem w) r z" if "z \<in> set_tree r" for z using that assms by (intro out) auto
  ultimately have "sp_at m r" using sp_at_cong [of r m "put_tree (sp_mem w) r"] by simp
  then have "sp_with w (Some b) ?m = sp_state w (Node l b r)"
    by (intro sp_with_eqI) (use assms at out put_tree_outside [of _ r "sp_mem w"] in auto)
  moreover have "set_SPLAY_RIGHT (Some b) (sroot r) (sp_with ?w (Some b) m) = Inr ((), sp_with ?w (Some b) ?m)"
    using at by (simp add: sp_run)
  moreover have "sp_state ?w (Node l b Leaf) = sp_with ?w (Some b) m" unfolding sp_state_with m by simp
  moreover have "sp_with ?w (Some b) ?m = sp_with w (Some b) ?m" by (simp add: sp_with_def)
  ultimately show ?thesis by simp
qed

lemma SPLAY_REMOVE_found:
  assumes "orders cmp key" and "ascending key (inorder t)" and "size t \<le> n"
    and "a \<in> set_tree t" and "key a = key x"
  shows "\<exists>t' e. SPLAY_REMOVE cmp n x (sp_state w t) = Inr (Some x, sp_state (sp_left_behind w a e) t') \<and>
    inorder t' = remove1 a (inorder t)"
proof -
  have ne: "t \<noteq> Leaf" using assms(4) by auto
  have dist: "distinct (inorder t)" by (rule ascending_distinct) fact
  obtain l b r where t: "splayed cmp x t = Node l b r" "inorder t = inorder l @ b # inorder r"
    "\<forall>b\<in>set_tree l. key b < key x" "\<forall>b\<in>set_tree r. key x < key b"
    by (rule splayed_Node [OF assms(1,2) ne])
  have "a \<in> set (inorder t)" using assms(4) by simp
  then have ab: "b = a" using t(2,3,4) assms(5) by auto
  have d: "distinct (inorder (Node l a r))" using dist t(2) ab by simp
  have run: "SPLAY cmp n x (sp_state w t) = Inr ((), sp_state w (Node l a r))"
    using SPLAY_at [OF dist ne assms(3), of cmp x w] t(1) ab by simp
  have rem: "remove1 a (inorder t) = inorder l @ inorder r" using d t(2) ab by (simp add: remove1_append)
  let ?w = "sp_left_behind w a \<lparr>spe_left = sroot l, spe_right = sroot r\<rparr>"
  show ?thesis
  proof (cases "l = Leaf")
    case True
    from split_root [OF d, of r l w] True have
      "set_SPLAY_ROOT (sroot r) (sp_state w (Node l a r)) = Inr ((), sp_state ?w r)"
      by (simp add: sp_left_behind_def)
    with run ne assms(5) True have "SPLAY_REMOVE cmp n x (sp_state w t) = Inr (Some x, sp_state ?w r)"
      by (simp add: SPLAY_REMOVE_def orders_equal [OF assms(1)])
    with rem True show ?thesis by auto
  next
    case False
    let ?v = "?w\<lparr>sp_mem := put_tree (sp_mem ?w) r\<rparr>"
    have split: "set_SPLAY_ROOT (sroot l) (sp_state w (Node l a r)) = Inr ((), sp_state ?v l)"
      using split_root [OF d, of l r w] by (simp add: sp_left_behind_def)
    have asc: "ascending key (inorder l)" using assms(2) t(2) by simp
    have "size l \<le> n" using arg_cong [OF t(2), of length] assms(3) by simp
    from SPLAY_at [OF ascending_distinct [OF asc] False this, of cmp x ?v]
    have run2: "SPLAY cmp n x (sp_state ?v l) = Inr ((), sp_state ?v (splayed cmp x l))" .
    obtain l' c r' where l: "splayed cmp x l = Node l' c r'" "inorder l = inorder l' @ c # inorder r'"
      "\<forall>b\<in>set_tree r'. key x < key b" by (rule splayed_Node [OF assms(1) asc False])
    have "set (inorder l) = set (inorder l' @ c # inorder r')" by (simp only: l(2))
    then have "set_tree r' \<subseteq> set_tree l" by auto
    with l(3) t(3) have "set_tree r' = {}" by (metis equals0I in_mono less_asym)
    then have r': "r' = Leaf" by (cases r') auto
    have "distinct (inorder (Node l' c r))" using d l(2) r' by auto
    from join_root [OF this, of ?w] have
      join: "set_SPLAY_RIGHT (Some c) (sroot r) (sp_state ?v (Node l' c Leaf)) = Inr ((), sp_state ?w (Node l' c r))" .
    have "SPLAY_REMOVE cmp n x (sp_state w t) = Inr (Some x, sp_state ?w (Node l' c r))"
      using run ne assms(5) False split run2 join l(1) r'
      by (simp add: SPLAY_REMOVE_def orders_equal [OF assms(1)])
    moreover have "inorder (Node l' c r) = remove1 a (inorder t)" using rem l(2) r' by simp
    ultimately show ?thesis by blast
  qed
qed

lemma SPLAY_REMOVE_missing:
  assumes "orders cmp key" and "ascending key (inorder t)" and "size t \<le> n" and "key x \<notin> key ` set_tree t"
  shows "SPLAY_REMOVE cmp n x (sp_state w t) = Inr (None, sp_state w (if t = Leaf then Leaf else splayed cmp x t))"
proof (cases "t = Leaf")
  case False
  obtain l a r where t: "splayed cmp x t = Node l a r" "inorder t = inorder l @ a # inorder r"
    by (rule splayed_Node [OF assms(1,2) False])
  have "a \<in> set (inorder t)" by (simp add: t(2))
  then have "key x \<noteq> key a" using assms(4) by auto
  with SPLAY_at [OF ascending_distinct [OF assms(2)] False assms(3), of cmp x w] t(1) False show ?thesis
    by (simp add: SPLAY_REMOVE_def orders_equal [OF assms(1)])
qed (simp add: SPLAY_REMOVE_def)

section \<open>Ends, neighbours and loops\<close>

lemma next_loop_front:
  assumes "sp_at m u" and "u \<noteq> Leaf" and "size u \<le> n"
  shows "next_loop n (sroot u) (sp_with w q m) = Inr (front (inorder u), sp_with w q m)"
  using assms
proof (induction u arbitrary: n)
  case (Node l a r)
  then obtain k where "n = Suc k" "size l \<le> k" by (cases n) auto
  with Node show ?case by (cases "l = Leaf") (auto simp: sp_run)
qed simp

lemma SPLAY_NEXT_at:
  assumes "orders cmp key" and "ascending key (inorder t)" and "size t \<le> n" and "inorder t = xs @ x # ys"
  shows "SPLAY_NEXT cmp n x (sp_state w t) = Inr (front ys, sp_state w (splayed cmp x t))"
proof -
  have ne: "t \<noteq> Leaf" using assms(4) by auto
  have dist: "distinct (inorder t)" by (rule ascending_distinct) fact
  obtain l b r where t: "splayed cmp x t = Node l b r" "inorder t = inorder l @ b # inorder r"
    "\<forall>b\<in>set_tree l. key b < key x" "\<forall>b\<in>set_tree r. key x < key b"
    by (rule splayed_Node [OF assms(1,2) ne])
  have "x \<in> set (inorder t)" using assms(4) by simp
  then have b: "b = x" using t(2,3,4) by auto
  have "x \<notin> set xs" "x \<notin> set ys" using dist assms(4) by auto
  with t(2) assms(4) b have ys: "ys = inorder r"
    using append_Cons_eq_iff [of x xs ys "inorder l" "inorder r"] by simp
  have run: "SPLAY cmp n x (sp_state w t) = Inr ((), sp_state w (Node l x r))"
    using SPLAY_at [OF dist ne assms(3), of cmp x w] t(1) b by simp
  obtain m where m: "put_tree (sp_mem w) (Node l x r) = m" by simp
  have "sp_at m (Node l x r)" unfolding m [symmetric] by (rule sp_at_put_tree) (use dist t(2) b in simp)
  then have "sp_at m r" by simp
  moreover have "size r \<le> n" using arg_cong [OF t(2), of length] assms(3) by simp
  moreover have "sp_state w (Node l x r) = sp_with w (Some x) m" unfolding sp_state_with m by simp
  ultimately have "r \<noteq> Leaf \<Longrightarrow> next_loop n (sroot r) (sp_state w (Node l x r)) = Inr (front ys, sp_state w (Node l x r))"
    using next_loop_front [of m r n w "Some x"] ys by simp
  with run t(1) b ys show ?thesis by (cases "r = Leaf") (simp_all add: SPLAY_NEXT_def)
qed

lemma SPLAY_MIN_at:
  assumes "distinct (inorder t)" and "size t \<le> n"
  shows "\<exists>t'. SPLAY_MIN n (sp_state w t) = Inr (front (inorder t), sp_state w t') \<and> inorder t' = inorder t"
  using SPLAY_MINMAX_at [OF assms(1) _ assms(2), of SPLAY_NEGINF w]
  by (cases "t = Leaf") (auto simp: SPLAY_MIN_def SPLAY_MIN_MAX_def SPLAY_NEGINF_def)

lemma SPLAY_MAX_at:
  assumes "distinct (inorder t)" and "size t \<le> n"
  shows "\<exists>t'. SPLAY_MAX n (sp_state w t) = Inr (rear (inorder t), sp_state w t') \<and> inorder t' = inorder t"
  using SPLAY_MINMAX_at [OF assms(1) _ assms(2), of SPLAY_INF w]
  by (cases "t = Leaf") (auto simp: SPLAY_MAX_def SPLAY_MIN_MAX_def SPLAY_INF_def)

lemma splay_foreach_next:
  assumes "orders cmp key" and "ascending key zs" and "length zs \<le> n" and "zs = xs @ ys" and "length ys < m"
    and "\<And>a w t. a \<in> set zs \<Longrightarrow> inorder t = zs \<Longrightarrow> body a (sp_state w t) = Inr ((), sp_state (g a w) t)"
    and "inorder t = zs"
  shows "\<exists>t'. splay_foreach_loop cmp n m body (front ys) (sp_state w t) = Inr ((), sp_state (fold g ys w) t') \<and>
    inorder t' = zs"
  using assms(4,5,7)
proof (induction ys arbitrary: xs m w t)
  case Nil
  then show ?case by (cases m) auto
next
  case (Cons a ys)
  obtain k where k: "m = Suc k" "length ys < k" using Cons.prems(2) by (cases m) auto
  have "size t \<le> n" using arg_cong [OF Cons.prems(3), of length] assms(3) by simp
  with SPLAY_NEXT_at [OF assms(1), of t n xs a ys "g a w"] assms(2) Cons.prems
  have "SPLAY_NEXT cmp n a (sp_state (g a w) t) = Inr (front ys, sp_state (g a w) (splayed cmp a t))" by simp
  moreover have "body a (sp_state w t) = Inr ((), sp_state (g a w) t)"
    using assms(6) [of a t w] Cons.prems by simp
  moreover have "\<exists>t'. splay_foreach_loop cmp n k body (front ys) (sp_state (g a w) (splayed cmp a t)) =
      Inr ((), sp_state (fold g ys (g a w)) t') \<and> inorder t' = zs"
    using Cons.IH [of "xs @ [a]" k "splayed cmp a t" "g a w"] Cons.prems k by simp
  ultimately show ?case using k by simp
qed

lemma SPLAY_FOREACH_at:
  assumes "orders cmp key" and "ascending key (inorder t)" and "length (inorder t) < n"
    and "\<And>a w u. a \<in> set_tree t \<Longrightarrow> inorder u = inorder t \<Longrightarrow> body a (sp_state w u) = Inr ((), sp_state (g a w) u)"
  shows "\<exists>t'. SPLAY_FOREACH cmp n body (sp_state w t) = Inr ((), sp_state (fold g (inorder t) w) t') \<and>
    inorder t' = inorder t"
proof -
  have "size t \<le> n" using assms(3) by simp
  from SPLAY_MIN_at [OF ascending_distinct [OF assms(2)] this, of w] obtain u where
    u: "SPLAY_MIN n (sp_state w t) = Inr (front (inorder t), sp_state w u)" "inorder u = inorder t" by blast
  from splay_foreach_next [OF assms(1,2), of n "[]" "inorder t" n body g u w] assms(3,4) u show ?thesis
    by (simp add: SPLAY_FOREACH_def)
qed

section \<open>Properties\<close>

text \<open>A memory in which every address holds an element, and three elements in a tree, for examples.\<close>

definition sp_blank :: sp_head where
  "sp_blank = \<lparr>sph_root = None, sp_mem = (\<lambda>a. Some \<lparr>spe_left = None, spe_right = None\<rparr>)\<rparr>"

definition small_splay :: stree where
  "small_splay = Node (Node Leaf 2 Leaf) 4 (Node Leaf 6 Leaf)"

lemma small_splay_facts: "ascending (\<lambda>a. a) (inorder small_splay)" "inorder small_splay = [2, 4, 6]"
  "size small_splay = 3" "set_tree small_splay = {2, 4, 6}"
  by (auto simp: small_splay_def)

text \<open>\<open>SPLAY_FIND\<close> returns the element with the key searched for, or NULL, after at most as many
  rounds as there are elements; the elements stay in order, and an element that is found is the root
  afterwards.\<close>

theorem splay_find:
  assumes "orders cmp key" and "ascending key (inorder t)" and "size t \<le> n"
  shows "\<exists>t'. SPLAY_FIND cmp n x (sp_state w t) = Inr (find (\<lambda>a. key a = key x) (inorder t), sp_state w t') \<and>
    inorder t' = inorder t \<and> (\<forall>a. find (\<lambda>a. key a = key x) (inorder t) = Some a \<longrightarrow> sroot t' = Some a)"
proof (cases "t = Leaf")
  case True
  with SPLAY_FIND_at [OF assms, of x w] show ?thesis by (intro exI [of _ Leaf]) auto
next
  case False
  obtain l a r where t: "splayed cmp x t = Node l a r" "inorder t = inorder l @ a # inorder r"
    "\<forall>b\<in>set_tree l. key b < key x" "\<forall>b\<in>set_tree r. key x < key b"
    by (rule splayed_Node [OF assms(1,2) False])
  then have "find (\<lambda>b. key b = key x) (inorder t) = (if key a = key x then Some a else None)"
    using parts_find [of key "key x" l a r] by simp
  with SPLAY_FIND_at [OF assms, of x w] t(1,2) False show ?thesis
    by (intro exI [of _ "splayed cmp x t"]) (auto split: if_splits)
qed

theorem splay_find_witness:
  "\<exists>t'. SPLAY_FIND plain_cmp 3 6 (sp_state sp_blank small_splay) = Inr (Some 6, sp_state sp_blank t') \<and>
     inorder t' = [2, 4, 6] \<and> sroot t' = Some 6"
  using splay_find [OF orders_plain small_splay_facts(1), of 3 6 sp_blank] by (simp add: small_splay_facts)

text \<open>C30: \<open>SPLAY_INSERT\<close> returns the element with the same key if there is one; otherwise it returns
  NULL and the tree holds the new element at its place in the order.\<close>

theorem splay_insert:
  assumes "orders cmp key" and "ascending key (inorder t)" and "size t \<le> n" and "sp_mem w x \<noteq> None"
  shows "if key x \<in> key ` set_tree t
    then \<exists>a\<in>set_tree t. \<exists>t'. key a = key x \<and> SPLAY_INSERT cmp n x (sp_state w t) = Inr (Some a, sp_state w t') \<and>
      inorder t' = inorder t
    else \<exists>t'. SPLAY_INSERT cmp n x (sp_state w t) = Inr (None, sp_state w t') \<and>
      inorder t' = insort_key key x (inorder t)"
proof (cases "key x \<in> key ` set_tree t")
  case True
  then obtain a where "a \<in> set_tree t" "key a = key x" by auto
  with SPLAY_INSERT_equal [OF assms(1-3) this, of w] inorder_splayed [of cmp x t] True show ?thesis by force
next
  case False
  with SPLAY_INSERT_new [OF assms(1-3) False assms(4)] show ?thesis by simp
qed

theorem splay_insert_witness:
  "\<exists>t'. SPLAY_INSERT plain_cmp 3 5 (sp_state sp_blank small_splay) = Inr (None, sp_state sp_blank t') \<and>
     inorder t' = [2, 4, 5, 6]"
  using splay_insert [OF orders_plain small_splay_facts(1), of 3 sp_blank 5]
  by (simp add: small_splay_facts sp_blank_def)

text \<open>C31: \<open>SPLAY_REMOVE\<close> takes the element with the key of its argument out of the tree, keeps the
  others in order, and returns its argument; without such an element it returns NULL and keeps
  all.\<close>

theorem splay_remove:
  assumes "orders cmp key" and "ascending key (inorder t)" and "size t \<le> n"
  shows "case find (\<lambda>a. key a = key x) (inorder t) of
      None \<Rightarrow> \<exists>t'. SPLAY_REMOVE cmp n x (sp_state w t) = Inr (None, sp_state w t') \<and> inorder t' = inorder t
    | Some a \<Rightarrow> \<exists>t' e. SPLAY_REMOVE cmp n x (sp_state w t) = Inr (Some x, sp_state (sp_left_behind w a e) t') \<and>
        inorder t' = remove1 a (inorder t)"
proof (cases "find (\<lambda>a. key a = key x) (inorder t)")
  case None
  then have "key x \<notin> key ` set_tree t" by (auto simp: find_None_iff)
  from SPLAY_REMOVE_missing [OF assms this, of w] None show ?thesis by auto
next
  case (Some a)
  then obtain i where "i < length (inorder t)" "a = inorder t ! i" "key a = key x"
    unfolding find_Some_iff by blast
  then have "a \<in> set_tree t" "key a = key x" using nth_mem [of i "inorder t"] by auto
  from SPLAY_REMOVE_found [OF assms this, of w] Some show ?thesis by simp
qed

theorem splay_remove_witness:
  "\<exists>t' e. SPLAY_REMOVE plain_cmp 3 4 (sp_state sp_blank small_splay) =
     Inr (Some 4, sp_state (sp_left_behind sp_blank 4 e) t') \<and> inorder t' = [2, 6]"
  using splay_remove [OF orders_plain small_splay_facts(1), of 3 4 sp_blank] by (simp add: small_splay_facts)

text \<open>A loop body that notes the elements it is given in the rest of the state.\<close>

definition sp_note_visit :: "addr \<Rightarrow> (addr list, unit) sp" where
  "sp_note_visit a = upd (sp_head.more_update (\<lambda>l. l @ [a]))"

definition sp_noted :: "addr list \<Rightarrow> addr list sp_head_scheme" where
  "sp_noted l = \<lparr>sph_root = None, sp_mem = sp_mem sp_blank, \<dots> = l\<rparr>"

lemma sp_note_visit_state:
  "sp_note_visit a (sp_state w t) = Inr ((), sp_state (sp_head.more_update (\<lambda>l. l @ [a]) w) t)"
  by (simp add: sp_note_visit_def sp_state_def)

text \<open>C32: \<open>SPLAY_FOREACH\<close>, although every step reshapes the tree, runs its body on every element
  exactly once in ascending order and ends.\<close>

theorem splay_foreach:
  assumes "orders cmp key" and "ascending key (inorder t)" and "size t < n"
    and "\<forall>a\<in>set_tree t. \<forall>w u. inorder u = inorder t \<longrightarrow> body a (sp_state w u) = Inr ((), sp_state (g a w) u)"
  shows "\<exists>t'. SPLAY_FOREACH cmp n body (sp_state w t) = Inr ((), sp_state (fold g (inorder t) w) t') \<and>
    inorder t' = inorder t"
  using SPLAY_FOREACH_at [OF assms(1,2), of n body g w] assms(3,4) by simp

theorem splay_foreach_witness:
  "\<exists>t'. SPLAY_FOREACH plain_cmp 4 sp_note_visit (sp_state (sp_noted []) small_splay) =
     Inr ((), sp_state (sp_noted [2, 4, 6]) t') \<and> inorder t' = [2, 4, 6]"
  using splay_foreach [OF orders_plain small_splay_facts(1), of 4 sp_note_visit
      "\<lambda>a. sp_head.more_update (\<lambda>l. l @ [a])" "sp_noted []"]
  by (simp add: small_splay_facts sp_note_visit_state sp_noted_def)

lemma minmax_splay_zero: "minmax_splay_loop n 0 v s = Inl Diverges"
  by (induction n) simp_all

text \<open>On a tree that is not empty \<open>SPLAY_MINMAX\<close> ends for a direction other than zero and brings
  the first or the last element to the root; for the direction zero its loop never ends.\<close>

theorem splay_minmax_ends:
  assumes "distinct (inorder t)" and "t \<noteq> Leaf" and "size t \<le> n"
  shows "if c = 0 then \<forall>k. SPLAY_MINMAX k c (sp_state w t) = Inl Diverges
    else \<exists>t'. SPLAY_MINMAX n c (sp_state w t) = Inr ((), sp_state w t') \<and> inorder t' = inorder t \<and>
      sroot t' = (if c < 0 then front (inorder t) else rear (inorder t))"
  using SPLAY_MINMAX_at [OF assms, of c w] by (simp add: SPLAY_MINMAX_def minmax_splay_zero)

theorem splay_minmax_ends_witness:
  "\<exists>t'. SPLAY_MINMAX 3 1 (sp_state sp_blank small_splay) = Inr ((), sp_state sp_blank t') \<and>
     inorder t' = [2, 4, 6] \<and> sroot t' = Some 6"
  using splay_minmax_ends [of small_splay 3 1 sp_blank] by (simp add: small_splay_facts) (simp add: small_splay_def)

end
