(* ===== verification/Ordered_Trees.thy ===== *)
theory Ordered_Trees
  imports RB_Query Splay_Ops "HOL-Library.Multiset"
begin

text \<open>
  The contract that the two trees of \<open>tree.h\<close> share, as an interface with one proof of what its
  clients rely on, and its two implementations.
\<close>

section \<open>Two clients\<close>

text \<open>Inserting a list of elements one after the other, and reading all elements back in order.\<close>

primrec insert_all :: "(addr \<Rightarrow> ('s, addr option) prog) \<Rightarrow> addr list \<Rightarrow> ('s, unit) prog" where
  "insert_all ins [] = ret ()"
| "insert_all ins (x # xs) = seq (ins x) (insert_all ins xs)"

primrec walk :: "(addr \<Rightarrow> ('s, addr option) prog) \<Rightarrow> nat \<Rightarrow> addr option \<Rightarrow> ('s, addr list) prog" where
  "walk nxt 0 p = fail Diverges"
| "walk nxt (Suc m) p = (case p of None \<Rightarrow> ret []
     | Some a \<Rightarrow> bnd (nxt a) (\<lambda>q. bnd (walk nxt m q) (\<lambda>xs. ret (a # xs))))"

definition read_all ::
  "('s, addr option) prog \<Rightarrow> (addr \<Rightarrow> ('s, addr option) prog) \<Rightarrow> nat \<Rightarrow> ('s, addr list) prog"
where
  "read_all fst_elm nxt n = bnd fst_elm (walk nxt n)"

section \<open>The contract\<close>

text \<open>
  Both trees of \<open>tree.h\<close> promise their user the same: a state holds an ascending list of elements;
  inserting, finding, removing and asking for the first and for the next element do to the list what
  their names say, with any number of rounds above the length of the list. \<open>ready s x\<close> says that
  \<open>x\<close> points to an element that can be linked in.
\<close>

locale ordered_elements =
  fixes holds :: "'s \<Rightarrow> addr list \<Rightarrow> bool"
    and ready :: "'s \<Rightarrow> addr \<Rightarrow> bool"
    and key :: "addr \<Rightarrow> 'k::linorder"
    and insert_elm find_elm remove_elm next_elm :: "nat \<Rightarrow> addr \<Rightarrow> ('s, addr option) prog"
    and first_elm :: "nat \<Rightarrow> ('s, addr option) prog"
  assumes ordered: "holds s xs \<Longrightarrow> ascending key xs"
    and insert_new: "holds s xs \<Longrightarrow> length xs < n \<Longrightarrow> key x \<notin> key ` set xs \<Longrightarrow> ready s x \<Longrightarrow>
      \<exists>s'. insert_elm n x s = Inr (None, s') \<and> holds s' (insort_key key x xs) \<and> (\<forall>y. ready s y \<longrightarrow> ready s' y)"
    and insert_equal: "holds s xs \<Longrightarrow> length xs < n \<Longrightarrow> a \<in> set xs \<Longrightarrow> key a = key x \<Longrightarrow>
      \<exists>s'. insert_elm n x s = Inr (Some a, s') \<and> holds s' xs \<and> (\<forall>y. ready s y \<longrightarrow> ready s' y)"
    and find: "holds s xs \<Longrightarrow> length xs < n \<Longrightarrow>
      \<exists>s'. find_elm n x s = Inr (find (\<lambda>a. key a = key x) xs, s') \<and> holds s' xs \<and> (\<forall>y. ready s y \<longrightarrow> ready s' y)"
    and remove: "holds s xs \<Longrightarrow> length xs < n \<Longrightarrow> x \<in> set xs \<Longrightarrow>
      \<exists>s'. remove_elm n x s = Inr (Some x, s') \<and> holds s' (remove1 x xs) \<and> (\<forall>y. ready s y \<longrightarrow> ready s' y)"
    and first: "holds s xs \<Longrightarrow> length xs < n \<Longrightarrow>
      \<exists>s'. first_elm n s = Inr (front xs, s') \<and> holds s' xs \<and> (\<forall>y. ready s y \<longrightarrow> ready s' y)"
    and after: "holds s (xs @ x # ys) \<Longrightarrow> length (xs @ x # ys) < n \<Longrightarrow>
      \<exists>s'. next_elm n x s = Inr (front ys, s') \<and> holds s' (xs @ x # ys) \<and> (\<forall>y. ready s y \<longrightarrow> ready s' y)"
begin

lemma insert_all_sorts:
  assumes "holds s xs" and "length xs + length ys < n" and "distinct (map key (xs @ ys))" and "\<forall>y\<in>set ys. ready s y"
  shows "\<exists>s'. insert_all (insert_elm n) ys s = Inr ((), s') \<and> holds s' (fold (insort_key key) ys xs)"
  using assms
proof (induction ys arbitrary: s xs)
  case (Cons y ys)
  have "key y \<notin> key ` set xs" using Cons.prems(3) by auto
  with Cons.prems insert_new [of s xs n y] obtain s1 where
    s1: "insert_elm n y s = Inr (None, s1)" "holds s1 (insort_key key y xs)" "\<forall>z. ready s z \<longrightarrow> ready s1 z" by auto
  have "distinct (map key (insort_key key y xs @ ys))"
    using Cons.prems(3) by (auto simp: distinct_map set_insort_key distinct_insort)
  with Cons.IH [OF s1(2)] Cons.prems s1 show ?case by auto
qed simp

lemma walk_reads:
  assumes "holds s (xs @ ys)" and "length (xs @ ys) < n" and "length ys < m"
  shows "\<exists>s'. walk (next_elm n) m (front ys) s = Inr (ys, s') \<and> holds s' (xs @ ys)"
  using assms
proof (induction ys arbitrary: s xs m)
  case Nil
  then show ?case by (cases m) auto
next
  case (Cons y ys)
  obtain k where k: "m = Suc k" "length ys < k" using Cons.prems(3) by (cases m) auto
  obtain s1 where s1: "next_elm n y s = Inr (front ys, s1)" "holds s1 (xs @ y # ys)"
    using after [OF Cons.prems(1,2)] by blast
  from Cons.IH [of s1 "xs @ [y]" k] s1(2) k Cons.prems(2) obtain s2 where
    "walk (next_elm n) k (front ys) s1 = Inr (ys, s2)" "holds s2 (xs @ y # ys)" by auto
  with s1 k show ?case by auto
qed

lemma read_all_reads:
  assumes "holds s xs" and "length xs < n"
  shows "\<exists>s'. read_all (first_elm n) (next_elm n) n s = Inr (xs, s') \<and> holds s' xs"
proof -
  obtain s1 where s1: "first_elm n s = Inr (front xs, s1)" "holds s1 xs" using first [OF assms] by blast
  with walk_reads [of s1 "[]" xs n n] assms show ?thesis by (auto simp: read_all_def)
qed

text \<open>What was inserted is found, and what was removed is not.\<close>

lemma find_after_insert:
  assumes "holds s xs" and "Suc (length xs) < n" and "key x \<notin> key ` set xs" and "ready s x"
  shows "\<exists>s' s''. insert_elm n x s = Inr (None, s') \<and> find_elm n x s' = Inr (Some x, s'')"
proof -
  obtain s1 where s1: "insert_elm n x s = Inr (None, s1)" "holds s1 (insort_key key x xs)"
    using insert_new [OF assms(1) _ assms(3,4), of n] assms(2) by auto
  obtain s2 where "find_elm n x s1 = Inr (List.find (\<lambda>a. key a = key x) (insort_key key x xs), s2)"
    using find [OF s1(2), of n x] assms(2) by auto
  moreover have "List.find (\<lambda>a. key a = key x) (insort_key key x xs) = Some x"
    using assms(3) by (induction xs) auto
  ultimately show ?thesis using s1 by auto
qed

lemma find_after_remove:
  assumes "holds s xs" and "length xs < n" and "x \<in> set xs"
  shows "\<exists>s' s''. remove_elm n x s = Inr (Some x, s') \<and> find_elm n x s' = Inr (None, s'')"
proof -
  obtain s1 where s1: "remove_elm n x s = Inr (Some x, s1)" "holds s1 (remove1 x xs)"
    using remove [OF assms] by auto
  have "length (remove1 x xs) < n" using assms(2,3) by (simp add: length_remove1)
  then obtain s2 where "find_elm n x s1 = Inr (List.find (\<lambda>a. key a = key x) (remove1 x xs), s2)"
    using find [OF s1(2), of n x] by auto
  moreover have "key a \<noteq> key x" if "a \<in> set (remove1 x xs)" for a
    using that ascending_key_inj [OF ordered [OF assms(1)]] ascending_distinct [OF ordered [OF assms(1)]] assms(3)
    by (auto simp: set_remove1_eq)
  then have "List.find (\<lambda>a. key a = key x) (remove1 x xs) = None" by (auto simp: find_None_iff)
  ultimately show ?thesis using s1 by auto
qed

end

section \<open>The red-black tree\<close>

definition rb_holds :: "comparison \<Rightarrow> (addr \<Rightarrow> 'k::linorder) \<Rightarrow> 's rb_head_scheme \<Rightarrow> addr list \<Rightarrow> bool" where
  "rb_holds cmp key s xs \<longleftrightarrow> orders cmp key \<and> (\<exists>t. s = rb_state s t \<and> rbtree key t \<and> elems t = xs)"

definition rb_ready :: "'s rb_head_scheme \<Rightarrow> addr \<Rightarrow> bool" where
  "rb_ready s x \<longleftrightarrow> rb_mem s x \<noteq> None"

lemma rb_state_idem: "distinct (elems t) \<Longrightarrow> rb_state (rb_state w t) t = rb_state w t"
  using store_eqI [of "store (rb_mem w) None t" None t "store (rb_mem w) None t"] tree_at_store [of t "rb_mem w" None]
  by (simp add: rb_state_def)

lemma store_dom: "m y \<noteq> None \<Longrightarrow> store m p t y \<noteq> None"
  by (induction t arbitrary: m p) auto

lemma rb_ready_state: "rb_ready w y \<Longrightarrow> rb_ready (rb_state w t) y"
  by (simp add: rb_ready_def rb_state_def store_dom del: not_None_eq)

lemma rb_ready_left_behind: "rb_ready w y \<Longrightarrow> rb_ready (left_behind w x e) y"
  by (simp add: rb_ready_def)

lemma rb_holdsI: "orders cmp key \<Longrightarrow> rbtree key t \<Longrightarrow> elems t = xs \<Longrightarrow> rb_holds cmp key (rb_state w t) xs"
  unfolding rb_holds_def
  by (intro conjI exI [of _ t]) (auto simp: rb_state_idem ascending_distinct rbtree_def)

lemma rb_holdsE:
  assumes "rb_holds cmp key s xs"
  obtains t where "orders cmp key" "s = rb_state s t" "rbtree key t" "elems t = xs" "ascending key (elems t)"
    "distinct (elems t)" "rb_height t \<le> length xs"
proof -
  from assms obtain t where "orders cmp key" "s = rb_state s t" "rbtree key t" "elems t = xs" unfolding rb_holds_def by auto
  moreover from this(3) have "ascending key (elems t)" "distinct (elems t)"
    using ascending_distinct unfolding rbtree_def by auto
  moreover have "rb_height t \<le> length xs" using height_le_length [of t] \<open>elems t = xs\<close> by simp
  ultimately show ?thesis using that by blast
qed

interpretation rb_set: ordered_elements "rb_holds cmp key" rb_ready key "RB_INSERT cmp" "RB_FIND cmp"
  "\<lambda>n x. RB_REMOVE n (Some x)" "\<lambda>n x. RB_NEXT n (Some x)" RB_MIN
  for cmp :: comparison and key :: "addr \<Rightarrow> 'k::linorder"
proof
  fix s :: "'s rb_head_scheme" and xs n x
  assume h: "rb_holds cmp key s xs"
  then obtain t where t: "orders cmp key" "s = rb_state s t" "rbtree key t" "elems t = xs" "ascending key (elems t)"
    "distinct (elems t)" "rb_height t \<le> length xs" by (rule rb_holdsE)
  show "ascending key xs" using t by simp
  assume n: "length xs < n"
  have ht: "rb_height t < n" using t(7) n by simp
  {
    assume "key x \<notin> key ` set xs" and "rb_ready s x"
    with RB_INSERT_new [OF t(1,3) ht, of x s] t(4) obtain t' where
      "RB_INSERT cmp n x (rb_state s t) = Inr (None, rb_state s t')" "rbtree key t'" "elems t' = insort_key key x xs"
      unfolding rb_ready_def by auto
    with t(1,2) rb_holdsI [of cmp key t' _ s] rb_ready_state [of s]
    show "\<exists>s'. RB_INSERT cmp n x s = Inr (None, s') \<and> rb_holds cmp key s' (insort_key key x xs) \<and>
        (\<forall>y. rb_ready s y \<longrightarrow> rb_ready s' y)" by auto
  next
    fix a
    assume "a \<in> set xs" and "key a = key x"
    with RB_INSERT_equal [OF t(1,3) ht, of a x s] t(2,4) h
    show "\<exists>s'. RB_INSERT cmp n x s = Inr (Some a, s') \<and> rb_holds cmp key s' xs \<and>
        (\<forall>y. rb_ready s y \<longrightarrow> rb_ready s' y)" by auto
  next
    show "\<exists>s'. RB_FIND cmp n x s = Inr (find (\<lambda>a. key a = key x) xs, s') \<and> rb_holds cmp key s' xs \<and>
        (\<forall>y. rb_ready s y \<longrightarrow> rb_ready s' y)"
      using RB_FIND_at [OF t(1,5) ht, of x s] t(2,4) h by auto
  next
    assume "x \<in> set xs"
    with RB_REMOVE_node [OF t(3) ht, of x s] t(4) obtain t' e where
      "RB_REMOVE n (Some x) (rb_state s t) = Inr (Some x, rb_state (left_behind s x e) t')" "rbtree key t'"
      "elems t' = remove1 x xs" by auto
    with t(1,2) rb_holdsI [of cmp key t' _ "left_behind s x e"]
      rb_ready_state [of "left_behind s x e"] rb_ready_left_behind [of s]
    show "\<exists>s'. RB_REMOVE n (Some x) s = Inr (Some x, s') \<and> rb_holds cmp key s' (remove1 x xs) \<and>
        (\<forall>y. rb_ready s y \<longrightarrow> rb_ready s' y)" by auto
  next
    show "\<exists>s'. RB_MIN n s = Inr (front xs, s') \<and> rb_holds cmp key s' xs \<and> (\<forall>y. rb_ready s y \<longrightarrow> rb_ready s' y)"
      using RB_MIN_at [OF t(6) ht, of s] t(2,4) h by auto
  }
next
  fix s :: "'s rb_head_scheme" and xs x ys n
  assume h: "rb_holds cmp key s (xs @ x # ys)" and n: "length (xs @ x # ys) < n"
  from h obtain t where t: "s = rb_state s t" "elems t = xs @ x # ys" "distinct (elems t)" "rb_height t < n"
    by (rule rb_holdsE) (use n in fastforce)
  then show "\<exists>s'. RB_NEXT n (Some x) s = Inr (front ys, s') \<and> rb_holds cmp key s' (xs @ x # ys) \<and>
      (\<forall>y. rb_ready s y \<longrightarrow> rb_ready s' y)"
    using RB_NEXT_at [OF t(3,4,2), of s] h by auto
qed

section \<open>The splay tree\<close>

definition sp_holds :: "comparison \<Rightarrow> (addr \<Rightarrow> 'k::linorder) \<Rightarrow> 's sp_head_scheme \<Rightarrow> addr list \<Rightarrow> bool" where
  "sp_holds cmp key s xs \<longleftrightarrow> orders cmp key \<and> ascending key xs \<and> (\<exists>t. s = sp_state s t \<and> inorder t = xs)"

definition sp_ready :: "'s sp_head_scheme \<Rightarrow> addr \<Rightarrow> bool" where
  "sp_ready s x \<longleftrightarrow> sp_mem s x \<noteq> None"

lemma sp_state_idem: "distinct (inorder t) \<Longrightarrow> sp_state (sp_state w t) t = sp_state w t"
proof -
  assume d: "distinct (inorder t)"
  let ?w = "sp_state w t"
  have "sp_with ?w (sroot t) (put_tree (sp_mem w) t) = sp_state ?w t"
    by (rule sp_with_eqI) (use d in \<open>auto simp: sp_at_put_tree sp_state_def\<close>)
  moreover have "sp_with ?w (sroot t) (put_tree (sp_mem w) t) = ?w" by (simp add: sp_with_def sp_state_def)
  ultimately show ?thesis by simp
qed

lemma put_tree_dom: "m y \<noteq> None \<Longrightarrow> put_tree m t y \<noteq> None"
  by (induction t arbitrary: m) auto

lemma sp_ready_state: "sp_ready w y \<Longrightarrow> sp_ready (sp_state w t) y"
  by (simp add: sp_ready_def sp_state_def put_tree_dom del: not_None_eq)

lemma sp_ready_left_behind: "sp_ready w y \<Longrightarrow> sp_ready (sp_left_behind w x e) y"
  by (simp add: sp_ready_def)

lemma sp_holdsI:
  "orders cmp key \<Longrightarrow> ascending key xs \<Longrightarrow> inorder t = xs \<Longrightarrow> sp_holds cmp key (sp_state w t) xs"
  unfolding sp_holds_def by (intro conjI exI [of _ t]) (auto simp: sp_state_idem ascending_distinct)

lemma ascending_insort: "ascending key xs \<Longrightarrow> key x \<notin> key ` set xs \<Longrightarrow> ascending key (insort_key key x xs)"
  by (induction xs) (auto simp: set_insort_key neq_iff)

lemma ascending_remove1: "ascending key xs \<Longrightarrow> ascending key (remove1 x xs)"
  by (induction xs) (auto dest: notin_set_remove1)

interpretation splay_set: ordered_elements "sp_holds cmp key" sp_ready key "SPLAY_INSERT cmp" "SPLAY_FIND cmp"
  "SPLAY_REMOVE cmp" "SPLAY_NEXT cmp" SPLAY_MIN
  for cmp :: comparison and key :: "addr \<Rightarrow> 'k::linorder"
proof
  fix s :: "'s sp_head_scheme" and xs n x
  assume h: "sp_holds cmp key s xs"
  then obtain t where t: "orders cmp key" "ascending key xs" "s = sp_state s t" "inorder t = xs"
    unfolding sp_holds_def by auto
  show "ascending key xs" by fact
  assume n: "length xs < n"
  have sz: "size t \<le> n" using n arg_cong [OF t(4), of length] by simp
  have asc: "ascending key (inorder t)" using t by simp
  have set: "set_tree t = set xs" using t(4) by (metis set_inorder)
  note keep = sp_holdsI [OF t(1)] sp_ready_state [of s]
  have same: "sp_holds cmp key (sp_state s (splayed cmp x t)) xs" using t by (intro sp_holdsI) simp_all
  {
    assume x: "key x \<notin> key ` set xs" and "sp_ready s x"
    with SPLAY_INSERT_new [OF t(1) asc sz, of x s] t(4) set obtain t' where
      "SPLAY_INSERT cmp n x (sp_state s t) = Inr (None, sp_state s t')" "inorder t' = insort_key key x xs"
      unfolding sp_ready_def by auto
    with t(3) keep ascending_insort [OF t(2) x]
    show "\<exists>s'. SPLAY_INSERT cmp n x s = Inr (None, s') \<and> sp_holds cmp key s' (insort_key key x xs) \<and>
        (\<forall>y. sp_ready s y \<longrightarrow> sp_ready s' y)" by auto
  next
    fix a
    assume "a \<in> set xs" and "key a = key x"
    with SPLAY_INSERT_equal [OF t(1) asc sz, of a x s] set t(2-4) keep same
    show "\<exists>s'. SPLAY_INSERT cmp n x s = Inr (Some a, s') \<and> sp_holds cmp key s' xs \<and>
        (\<forall>y. sp_ready s y \<longrightarrow> sp_ready s' y)" by auto
  next
    show "\<exists>s'. SPLAY_FIND cmp n x s = Inr (find (\<lambda>a. key a = key x) xs, s') \<and> sp_holds cmp key s' xs \<and>
        (\<forall>y. sp_ready s y \<longrightarrow> sp_ready s' y)"
      using SPLAY_FIND_at [OF t(1) asc sz, of x s] t(2-4) keep same h by (auto split: if_splits)
  next
    assume "x \<in> set xs"
    with SPLAY_REMOVE_found [OF t(1) asc sz, of x x s] t(4) set obtain t' e where
      "SPLAY_REMOVE cmp n x (sp_state s t) = Inr (Some x, sp_state (sp_left_behind s x e) t')"
      "inorder t' = remove1 x xs" by auto
    with t(1,3) sp_holdsI [OF t(1) ascending_remove1 [OF t(2)], of t' x "sp_left_behind s x e"]
      sp_ready_state [of "sp_left_behind s x e"] sp_ready_left_behind [of s]
    show "\<exists>s'. SPLAY_REMOVE cmp n x s = Inr (Some x, s') \<and> sp_holds cmp key s' (remove1 x xs) \<and>
        (\<forall>y. sp_ready s y \<longrightarrow> sp_ready s' y)" by auto
  next
    show "\<exists>s'. SPLAY_MIN n s = Inr (front xs, s') \<and> sp_holds cmp key s' xs \<and> (\<forall>y. sp_ready s y \<longrightarrow> sp_ready s' y)"
      using SPLAY_MIN_at [OF ascending_distinct [OF asc] sz, of s] t(2-4) keep by auto
  }
next
  fix s :: "'s sp_head_scheme" and xs x ys n
  assume h: "sp_holds cmp key s (xs @ x # ys)" and n: "length (xs @ x # ys) < n"
  then obtain t where t: "orders cmp key" "ascending key (xs @ x # ys)" "s = sp_state s t" "inorder t = xs @ x # ys"
    unfolding sp_holds_def by blast
  have "size t \<le> n" using n arg_cong [OF t(4), of length] by simp
  with SPLAY_NEXT_at [OF t(1), of t n xs x ys s] t sp_holdsI [OF t(1,2), of "splayed cmp x t" s] sp_ready_state [of s]
  show "\<exists>s'. SPLAY_NEXT cmp n x s = Inr (front ys, s') \<and> sp_holds cmp key s' (xs @ x # ys) \<and>
      (\<forall>y. sp_ready s y \<longrightarrow> sp_ready s' y)" by (auto simp del: ascending_simps)
qed

section \<open>Both trees sort\<close>

lemma fold_insort_sort: "distinct (map key ys) \<Longrightarrow> fold (insort_key key) ys [] = sort_key key (rev ys)"
  by (simp add: sort_key_def foldr_conv_fold)

lemma sort_key_rev:
  assumes "distinct (map key ys)"
  shows "sort_key key (rev ys) = sort_key key ys"
  using assms by (intro map_sorted_distinct_set_unique [of key]) (auto simp: distinct_map rev_map)

lemma rb_init_holds: "orders cmp key \<Longrightarrow> rb_holds cmp key (s\<lparr>rbh_root := None\<rparr>) []"
  unfolding rb_holds_def
  by (intro conjI exI [of _ Lf]) (auto simp: rb_state_def rbtree_def rb_inv_def)

lemma sp_init_holds: "orders cmp key \<Longrightarrow> sp_holds cmp key (s\<lparr>sph_root := None\<rparr>) []"
  unfolding sp_holds_def by (intro conjI exI [of _ Leaf]) (auto simp: sp_state_def)

text \<open>C28: the two trees are equivalent as sorted sets. Elements with distinct keys, inserted one after
  the other into an initialised tree of either kind and read back from the first to the last, come
  out as the list sorted by key; every call on the way returns.\<close>

theorem trees_sort:
  assumes "orders cmp key" and "distinct (map key ys)" and "length ys < n"
    and "\<forall>y\<in>set ys. rb_mem s y \<noteq> None \<and> sp_mem u y \<noteq> None"
  shows "\<exists>s' u'. seq RB_INIT (seq (insert_all (RB_INSERT cmp n) ys)
        (read_all (RB_MIN n) (\<lambda>x. RB_NEXT n (Some x)) n)) s = Inr (sort_key key ys, s') \<and>
    seq SPLAY_INIT (seq (insert_all (SPLAY_INSERT cmp n) ys)
        (read_all (SPLAY_MIN n) (SPLAY_NEXT cmp n) n)) u = Inr (sort_key key ys, u')"
proof -
  have sort: "fold (insort_key key) ys [] = sort_key key ys"
    using fold_insort_sort [OF assms(2)] sort_key_rev [OF assms(2)] by simp
  obtain s1 where s1: "insert_all (RB_INSERT cmp n) ys (s\<lparr>rbh_root := None\<rparr>) = Inr ((), s1)"
    "rb_holds cmp key s1 (sort_key key ys)"
    using rb_set.insert_all_sorts [OF rb_init_holds [OF assms(1), of s], of ys n] assms(2-4) sort
    by (auto simp: rb_ready_def)
  obtain u1 where u1: "insert_all (SPLAY_INSERT cmp n) ys (u\<lparr>sph_root := None\<rparr>) = Inr ((), u1)"
    "sp_holds cmp key u1 (sort_key key ys)"
    using splay_set.insert_all_sorts [OF sp_init_holds [OF assms(1), of u], of ys n] assms(2-4) sort
    by (auto simp: sp_ready_def)
  have "length (sort_key key ys) < n" using assms(3) by simp
  from rb_set.read_all_reads [OF s1(2) this] splay_set.read_all_reads [OF u1(2) this] s1(1) u1(1) show ?thesis
    by (auto simp: RB_INIT_def set_RB_ROOT_def SPLAY_INIT_def set_SPLAY_ROOT_def)
qed

theorem trees_sort_witness:
  "\<exists>s' u'. seq RB_INIT (seq (insert_all (RB_INSERT plain_cmp 4) [5, 3, 8])
        (read_all (RB_MIN 4) (\<lambda>x. RB_NEXT 4 (Some x)) 4)) rb_blank = Inr ([3, 5, 8], s') \<and>
    seq SPLAY_INIT (seq (insert_all (SPLAY_INSERT plain_cmp 4) [5, 3, 8])
        (read_all (SPLAY_MIN 4) (SPLAY_NEXT plain_cmp 4) 4)) sp_blank = Inr ([3, 5, 8], u')"
  using trees_sort [OF orders_plain, of "[5, 3, 8]" 4 rb_blank sp_blank] by (simp add: rb_blank_def sp_blank_def)

section \<open>What every red-black tree in use looks like\<close>

text \<open>
  The states that a program reaches which initialises a head and then inserts and removes elements
  in any order: elements that exist, and only elements of the tree are removed.
\<close>

inductive rb_used :: "comparison \<Rightarrow> 's rb_head_scheme \<Rightarrow> addr list \<Rightarrow> bool" for cmp where
  init: "RB_INIT s = Inr ((), s') \<Longrightarrow> rb_used cmp s' []"
| inserted: "rb_used cmp s xs \<Longrightarrow> length xs < n \<Longrightarrow> rb_mem s x \<noteq> None \<Longrightarrow>
    RB_INSERT cmp n x s = Inr (None, s') \<Longrightarrow> rb_used cmp s' (x # xs)"
| present: "rb_used cmp s xs \<Longrightarrow> length xs < n \<Longrightarrow> rb_mem s x \<noteq> None \<Longrightarrow>
    RB_INSERT cmp n x s = Inr (Some a, s') \<Longrightarrow> rb_used cmp s' xs"
| removed: "rb_used cmp s xs \<Longrightarrow> length xs < n \<Longrightarrow> x \<in> set xs \<Longrightarrow>
    RB_REMOVE n (Some x) s = Inr (r, s') \<Longrightarrow> rb_used cmp s' (remove1 x xs)"

text \<open>
  The links of a tree are well typed: the head and the links of an element are NULL or point to
  elements of the tree, the parent links are the inverse of the child links, and the colours are the
  two that the macros define.
\<close>

definition child_ok :: "(addr \<rightharpoonup> rb_entry) \<Rightarrow> addr set \<Rightarrow> addr \<Rightarrow> addr option \<Rightarrow> bool" where
  "child_ok m A a p \<longleftrightarrow> (case p of None \<Rightarrow> True
     | Some b \<Rightarrow> b \<in> A \<and> (\<exists>f. m b = Some f \<and> rbe_parent f = Some a))"

definition links_ok :: "(addr \<rightharpoonup> rb_entry) \<Rightarrow> addr option \<Rightarrow> addr set \<Rightarrow> bool" where
  "links_ok m q A \<longleftrightarrow> (q = None \<longleftrightarrow> A = {}) \<and> (\<forall>a. q = Some a \<longrightarrow> a \<in> A) \<and>
     (\<forall>a\<in>A. \<exists>e. m a = Some e \<and> rbe_color e \<in> {RB_BLACK, RB_RED} \<and>
        child_ok m A a (rbe_left e) \<and> child_ok m A a (rbe_right e) \<and>
        (rbe_parent e = None \<longleftrightarrow> q = Some a))"

lemma tree_at_links:
  "tree_at m p t \<Longrightarrow> set (elems t) \<subseteq> A \<Longrightarrow> a \<in> set (elems t) \<Longrightarrow>
   \<exists>e. m a = Some e \<and> rbe_color e \<in> {RB_BLACK, RB_RED} \<and> child_ok m A a (rbe_left e) \<and>
     child_ok m A a (rbe_right e) \<and> (rbe_parent e = None \<longrightarrow> p = None \<and> root_of t = Some a)"
proof (induction t arbitrary: p)
  case (Nd c l b r)
  have col: "shade c \<in> {RB_BLACK, RB_RED}" by (cases c) simp_all
  have child: "child_ok m A b (root_of s)" if "tree_at m (Some b) s" "set (elems s) \<subseteq> A" for s
    using that by (cases s) (auto simp: child_ok_def)
  consider "a = b" | "a \<in> set (elems l)" | "a \<in> set (elems r)" using Nd.prems(3) by auto
  then show ?case
  proof cases
    case 1
    with Nd.prems col child [of l] child [of r] show ?thesis by auto
  next
    case 2
    with Nd.IH(1) [of "Some b"] Nd.prems show ?thesis by auto
  next
    case 3
    with Nd.IH(2) [of "Some b"] Nd.prems show ?thesis by auto
  qed
qed simp

lemma rb_holds_links:
  assumes "rb_holds cmp key s xs"
  shows "links_ok (rb_mem s) (rbh_root s) (set xs)"
proof -
  obtain t where t: "s = rb_state s t" "elems t = xs" "distinct (elems t)" using assms by (rule rb_holdsE)
  have at: "tree_at (rb_mem s) None t" using tree_at_state [OF t(3), of s] t(1) by simp
  have root: "rbh_root s = root_of t" using t(1) rb_root_state [of s t] by simp
  have "\<exists>e. rb_mem s a = Some e \<and> rbe_parent e = None" if "root_of t = Some a" for a
    using at that by (cases t) auto
  with tree_at_links [OF at, of "set xs"] t(2) root root_in_elems [of t] show ?thesis
    unfolding links_ok_def by (cases t) fastforce+
qed

lemma rb_used_holds:
  assumes "rb_used cmp s xs" and "orders cmp key"
  shows "\<exists>ys. rb_holds cmp key s ys \<and> mset ys = mset xs"
  using assms(1)
proof induction
  case (init s s')
  with rb_init_holds [OF assms(2), of s] show ?case by (auto simp: RB_INIT_def set_RB_ROOT_def)
next
  case (inserted s xs n x s')
  then obtain ys where ys: "rb_holds cmp key s ys" "mset ys = mset xs" by blast
  have len: "length ys < n" using inserted.hyps(2) mset_eq_length [OF ys(2)] by simp
  show ?case
  proof (cases "key x \<in> key ` set ys")
    case True
    then obtain a where "a \<in> set ys" "key a = key x" by auto
    with rb_set.insert_equal [OF ys(1) len] inserted.hyps(4) show ?thesis by fastforce
  next
    case False
    with rb_set.insert_new [OF ys(1) len False] inserted.hyps(3,4) have "rb_holds cmp key s' (insort_key key x ys)"
      by (auto simp: rb_ready_def)
    then show ?thesis using ys(2) by (intro exI [of _ "insort_key key x ys"]) simp
  qed
next
  case (present s xs n x a s')
  then obtain ys where ys: "rb_holds cmp key s ys" "mset ys = mset xs" by blast
  have len: "length ys < n" using present.hyps(2) mset_eq_length [OF ys(2)] by simp
  have "key x \<in> key ` set ys"
    using rb_set.insert_new [OF ys(1) len, of x] present.hyps(3,4) by (auto simp: rb_ready_def)
  then obtain b where "b \<in> set ys" "key b = key x" by auto
  with rb_set.insert_equal [OF ys(1) len] present.hyps(4) ys show ?case by fastforce
next
  case (removed s xs n x r s')
  then obtain ys where ys: "rb_holds cmp key s ys" "mset ys = mset xs" by blast
  have len: "length ys < n" using removed.hyps(2) mset_eq_length [OF ys(2)] by simp
  have "x \<in> set ys" using removed.hyps(3) mset_eq_setD [OF ys(2)] by simp
  from rb_set.remove [OF ys(1) len this] removed.hyps(4) ys(2) show ?case
    by (intro exI [of _ "remove1 x ys"]) auto
qed

lemma rb_used_example: "\<exists>s :: rb_head. rb_used plain_cmp s [4]"
proof -
  let ?s = "rb_blank\<lparr>rbh_root := None\<rparr>"
  have "rb_used plain_cmp ?s []" by (rule rb_used.init [of rb_blank]) (simp add: RB_INIT_def set_RB_ROOT_def)
  moreover obtain s' where "RB_INSERT plain_cmp 1 4 ?s = Inr (None, s')"
    using rb_set.insert_new [OF rb_init_holds [OF orders_plain, of rb_blank], of 1 4]
    by (auto simp: rb_ready_def rb_blank_def)
  ultimately show ?thesis
    using rb_used.inserted [of plain_cmp ?s "[]" 1 4 s'] by (auto simp: rb_blank_def)
qed

text \<open>C26: whatever elements a program inserts and removes, in whatever order, the links of the tree
  stay well typed - they are NULL or lead to elements of the tree, parents are the inverse of
  children, colours are red or black - and the tree stays a red-black tree of exactly the elements
  in use, at most $2 \lg (n + 1)$ high.\<close>

theorem rb_used_sound:
  assumes "rb_used cmp s xs" and "orders cmp key"
  shows "links_ok (rb_mem s) (rbh_root s) (set xs) \<and>
    (\<exists>t. s = rb_state s t \<and> rbtree key t \<and> mset (elems t) = mset xs \<and> 2 ^ rb_height t \<le> (length xs + 1)\<^sup>2)"
proof -
  obtain ys where ys: "rb_holds cmp key s ys" "mset ys = mset xs" using rb_used_holds [OF assms] by blast
  from ys(1) obtain t where t: "s = rb_state s t" "rbtree key t" "elems t = ys" by (rule rb_holdsE)
  have "2 ^ rb_height t \<le> (length xs + 1)\<^sup>2"
    using height_log [of t] t(2,3) mset_eq_length [OF ys(2)] by (simp add: rbtree_def)
  with rb_holds_links [OF ys(1)] t ys(2) mset_eq_setD [OF ys(2)] show ?thesis by auto
qed

theorem rb_used_sound_witness:
  "\<exists>s :: rb_head. rb_used plain_cmp s [4] \<and> links_ok (rb_mem s) (rbh_root s) {4}"
  using rb_used_example rb_used_sound [OF _ orders_plain, of _ "[4]"] by auto

end
