(* ===== verification/Byte_Order.thy ===== *)
theory Byte_Order
  imports Prelude
begin

text \<open>
  Byte order. How a \<open>uint32_t\<close> lies in memory on a little- or big-endian host, the big-endian
  meaning of four bytes on the wire, the contract of \<open>htonl\<close> and \<open>ntohl\<close> as the library relies on
  it (the functions \<open>ctb_htonl\<close> and \<open>ctb_ntohl\<close> are those of the C toolbelt, which is not part of
  the repository), and the implementation in \<open>test/tools/endian.h\<close>, which satisfies it.
\<close>

unbundle bit_operations_syntax

section \<open>Words as bytes\<close>

datatype endian = Little | Big

text \<open>Value of a run of bytes, most significant first, and the four bytes of a 32-bit word.\<close>

fun be_value :: "bytes \<Rightarrow> nat" where
  "be_value [] = 0"
| "be_value (b # bs) = unat b * 256 ^ length bs + be_value bs"

definition byte_of :: "nat \<Rightarrow> u32 \<Rightarrow> u8" where
  "byte_of i w = ucast (drop_bit (8 * i) w)"

definition be_bytes :: "u32 \<Rightarrow> bytes" where
  "be_bytes w = [byte_of 3 w, byte_of 2 w, byte_of 1 w, byte_of 0 w]"

text \<open>Object representation of a \<open>uint32_t\<close> on the host.\<close>

definition store32 :: "endian \<Rightarrow> u32 \<Rightarrow> bytes" where
  "store32 e w = (case e of Big \<Rightarrow> be_bytes w | Little \<Rightarrow> rev (be_bytes w))"

definition load32 :: "endian \<Rightarrow> bytes \<Rightarrow> u32" where
  "load32 e bs = of_nat (be_value (case e of Big \<Rightarrow> bs | Little \<Rightarrow> rev bs))"

lemma length_be_bytes [simp]: "length (be_bytes w) = 4"
  by (simp add: be_bytes_def)

lemma length_store32 [simp]: "length (store32 e w) = 4"
  by (cases e) (simp_all add: store32_def)

lemma be_value_append: "be_value (xs @ ys) = be_value xs * 256 ^ length ys + be_value ys"
  by (induction xs) (simp_all add: algebra_simps power_add)

lemma be_value_less: "be_value bs < 256 ^ length bs"
proof (induction bs)
  case Nil
  then show ?case by simp
next
  case (Cons b bs)
  have "unat b * 256 ^ length bs + be_value bs < (unat b + 1) * 256 ^ length bs"
    using Cons.IH by simp
  also have "\<dots> \<le> 256 * 256 ^ length bs"
    using unsigned_less [of b, where 'a = nat] by (intro mult_right_mono) simp_all
  finally show ?case by simp
qed

lemma be_value_less_4: "length bs = 4 \<Longrightarrow> be_value bs < 2 ^ 32"
  using be_value_less [of bs] by simp

lemma be_value_zeros [simp]: "be_value (replicate n 0) = 0"
  by (induction n) simp_all

lemma be_value_eq_0_iff: "be_value bs = 0 \<longleftrightarrow> (\<forall>b \<in> set bs. b = 0)"
  by (induction bs) (auto simp: unat_eq_0)

lemma unat_byte_of: "unat (byte_of i w) = unat w div 256 ^ i mod 256"
proof -
  have "unat (byte_of i w) = take_bit 8 (drop_bit (8 * i) (unat w))"
    by (simp add: byte_of_def unsigned_ucast_eq unat_drop_bit_eq take_bit_eq_mod)
  also have "\<dots> = unat w div 256 ^ i mod 256"
    by (simp add: take_bit_eq_mod drop_bit_eq_div power_mult)
  finally show ?thesis .
qed

lemma be_value_be_bytes [simp]: "be_value (be_bytes w) = unat w"
proof -
  define n where "n = unat w"
  have lt: "n < 4294967296"
    using unsigned_less [of w, where 'a = nat] by (simp add: n_def)
  define a b c where "a = n div 256" and "b = a div 256" and "c = b div 256"
  have d: "n div 65536 = b" "n div 16777216 = c"
    by (simp_all add: a_def b_def c_def div_mult2_eq [symmetric])
  have "c < 256"
    using lt d by simp
  then have top: "n div 16777216 mod 256 = n div 16777216"
    using d by simp
  moreover from \<open>c < 256\<close> have "n = 256 * a + n mod 256" "a = 256 * b + a mod 256" "b = 256 * c + b mod 256"
    by (simp_all add: a_def b_def c_def)
  ultimately have "n div 16777216 * 16777216 + (n div 65536 mod 256 * 65536
      + (n div 256 mod 256 * 256 + n mod 256)) = n"
    by (simp add: d a_def [symmetric])
  then show ?thesis
    using top by (simp add: be_bytes_def unat_byte_of n_def)
qed

lemma be_value_inj:
  "length xs = length ys \<Longrightarrow> be_value xs = be_value ys \<Longrightarrow> xs = ys"
proof (induction xs ys rule: list_induct2)
  case Nil
  then show ?case by simp
next
  case (Cons x xs y ys)
  let ?k = "256 ^ length ys :: nat"
  have eq: "unat x * ?k + be_value xs = unat y * ?k + be_value ys"
    using Cons.prems Cons.hyps by simp
  have lx: "be_value xs < ?k" and ly: "be_value ys < ?k"
    using be_value_less [of xs] be_value_less [of ys] Cons.hyps by simp_all
  have "unat x = (unat x * ?k + be_value xs) div ?k"
    using lx by simp
  also have "\<dots> = unat y"
    using eq ly by simp
  finally have "unat x = unat y" .
  then show ?case
    using eq Cons.IH by (auto simp: unsigned_word_eqI)
qed

lemma be_bytes_inj: "be_bytes v = be_bytes w \<Longrightarrow> v = w"
  using be_value_be_bytes [of v] be_value_be_bytes [of w]
  by (intro word_unat_eq_iff [THEN iffD2]) simp

lemma be_bytes_of_value: "length bs = 4 \<Longrightarrow> be_bytes (of_nat (be_value bs)) = bs"
  by (rule be_value_inj) (simp_all add: unat_of_nat be_value_less_4 [simplified])

lemma load32_store32 [simp]: "load32 e (store32 e w) = w"
  by (cases e) (simp_all add: load32_def store32_def)

lemma store32_load32 [simp]: "length bs = 4 \<Longrightarrow> store32 e (load32 e bs) = bs"
  by (cases e) (simp_all add: load32_def store32_def be_bytes_of_value)

section \<open>The contract of htonl and ntohl\<close>

text \<open>
  What POSIX documents of the two functions, on a host of byte order \<open>e\<close>: the memory image of
  \<open>htonl(w)\<close> is \<open>w\<close> most significant byte first, and \<open>ntohl\<close> is the converse.
\<close>

locale network_order =
  fixes e :: endian
    and htonl :: "u32 \<Rightarrow> u32"
    and ntohl :: "u32 \<Rightarrow> u32"
  assumes store_htonl: "store32 e (htonl w) = be_bytes w"
    and be_ntohl: "be_bytes (ntohl w) = store32 e w"
begin

lemma ntohl_load: "length bs = 4 \<Longrightarrow> ntohl (load32 e bs) = of_nat (be_value bs)"
  using be_ntohl [of "load32 e bs"] be_value_be_bytes [of "ntohl (load32 e bs)"]
  by simp

lemma ntohl_htonl: "ntohl (htonl w) = w"
proof -
  have "be_bytes (ntohl (htonl w)) = be_bytes w"
    by (simp add: be_ntohl store_htonl)
  then show ?thesis
    by (rule be_bytes_inj)
qed

lemma htonl_ntohl: "htonl (ntohl w) = w"
  using store_htonl [of "ntohl w"] be_ntohl [of w] load32_store32 [of e "htonl (ntohl w)"]
  by simp

lemma unat_ntohl_load: "length bs = 4 \<Longrightarrow> unat (ntohl (load32 e bs)) = be_value bs"
  by (simp add: ntohl_load unat_of_nat be_value_less_4 [simplified])

lemma htonl_0: "htonl 0 = 0"
proof -
  have "store32 e 0 = be_bytes 0"
    by (cases e) (simp_all add: store32_def be_bytes_def byte_of_def)
  then have "store32 e (htonl 0) = store32 e 0"
    using store_htonl [of 0] by simp
  then show ?thesis
    using load32_store32 [of e "htonl 0"] load32_store32 [of e 0] by simp
qed

end

section \<open>test/tools/endian.h\<close>

text \<open>
  \<open>musl_bswap32\<close>; and \<open>musl_htonl\<close>, \<open>musl_ntohl\<close>, which look at the first byte of the
  integer 1 to find the byte order of the host.
\<close>

definition musl_bswap32 :: "u32 \<Rightarrow> u32" where
  "musl_bswap32 x =
     drop_bit 24 x OR (drop_bit 8 x AND 0xff00) OR (push_bit 8 x AND 0xff0000) OR push_bit 24 x"

definition musl_htonl :: "endian \<Rightarrow> u32 \<Rightarrow> u32" where
  "musl_htonl e n = (if hd (store32 e 1) \<noteq> 0 then musl_bswap32 n else n)"

definition musl_ntohl :: "endian \<Rightarrow> u32 \<Rightarrow> u32" where
  "musl_ntohl e n = (if hd (store32 e 1) \<noteq> 0 then musl_bswap32 n else n)"

lemma musl_probe: "hd (store32 e 1) \<noteq> 0 \<longleftrightarrow> e = Little"
  by (cases e) (simp_all add: store32_def be_bytes_def byte_of_def)

lemma bswap32_masks:
  "musl_bswap32 x =
     drop_bit 24 x OR (drop_bit 8 x AND push_bit 8 (mask 8))
       OR (push_bit 8 x AND push_bit 16 (mask 8)) OR push_bit 24 x"
proof -
  have masks: "(0xff00 :: u32) = push_bit 8 (mask 8)" "(0xff0000 :: u32) = push_bit 16 (mask 8)"
    by (simp_all add: mask_eq_exp_minus_1 push_bit_eq_mult)
  show ?thesis
    unfolding musl_bswap32_def masks ..
qed

lemma bit_byte_of: "bit (byte_of i w) k \<longleftrightarrow> k < 8 \<and> bit w (8 * i + k)"
  by (auto simp: byte_of_def bit_simps)

lemma bit_u32_ge: "32 \<le> n \<Longrightarrow> \<not> bit (x :: u32) n"
  using bit_imp_le_length [of x n] by auto

lemma bit_bswap32:
  "bit (musl_bswap32 x) n \<longleftrightarrow>
     n < 32 \<and> (bit x (n + 24) \<or> bit x (n + 8) \<and> 8 \<le> n \<and> n < 16
        \<or> bit x (n - 8) \<and> 16 \<le> n \<and> n < 24 \<or> 24 \<le> n \<and> bit x (n - 24))"
proof (cases "n < 32")
  case True
  then show ?thesis
    unfolding bswap32_masks
    by (simp add: bit_or_iff bit_and_iff bit_drop_bit_eq bit_push_bit_iff bit_mask_iff
        possible_bit_word add.commute) linarith
next
  case False
  then show ?thesis by (simp add: bit_u32_ge)
qed

lemma byte_of_bswap32: "i < 4 \<Longrightarrow> byte_of i (musl_bswap32 x) = byte_of (3 - i) x"
proof (rule bit_word_eqI)
  fix k
  assume "i < 4" and k: "k < LENGTH(8)"
  then consider "i = 0" | "i = 1" | "i = 2" | "i = 3" by linarith
  then show "bit (byte_of i (musl_bswap32 x)) k = bit (byte_of (3 - i) x) k"
    using k by cases (simp_all add: bit_byte_of bit_bswap32 bit_u32_ge add.commute)
qed

lemma rev_be_bytes_bswap32: "rev (be_bytes (musl_bswap32 x)) = be_bytes x"
  using byte_of_bswap32 [of 0 x] byte_of_bswap32 [of 1 x] byte_of_bswap32 [of 2 x]
    byte_of_bswap32 [of 3 x]
  by (simp add: be_bytes_def)

interpretation musl: network_order e "musl_htonl e" "musl_ntohl e"
proof unfold_locales
  fix w
  show "store32 e (musl_htonl e w) = be_bytes w"
    by (cases e) (simp_all add: musl_htonl_def musl_probe, simp_all add: store32_def rev_be_bytes_bswap32)
  have "be_bytes (musl_bswap32 w) = rev (be_bytes w)"
    using rev_be_bytes_bswap32 [of w] by (metis rev_rev_ident)
  then show "be_bytes (musl_ntohl e w) = store32 e w"
    by (cases e) (simp_all add: musl_ntohl_def musl_probe, simp_all add: store32_def)
qed

section \<open>Properties\<close>

text \<open>C36: \<open>musl_htonl\<close> leaves in memory the four bytes of its argument, most significant first,
  on a host of either byte order, and \<open>musl_ntohl\<close> undoes it; so both directions of
  \<open>test/tools/endian.h\<close> agree with the network order.\<close>

theorem musl_network_order:
  "store32 e (musl_htonl e x) = be_bytes x \<and> musl_ntohl e (musl_htonl e x) = x \<and>
   musl_htonl e (musl_ntohl e x) = x \<and> be_value (store32 e (musl_htonl e x)) = unat x"
  by (simp add: musl.store_htonl musl.ntohl_htonl musl.htonl_ntohl)

end
