(* ===== verification/UV_Errno.thy ===== *)
theory UV_Errno
  imports Prelude
begin

text \<open>
  Error codes and messages. libuv's codes come from \<open>uv/errno.h\<close>: the negated system value where
  the platform defines one, else a number of libuv's own. \<open>BUV_ERRNO_MAP\<close> in
  \<open>src/backend_uv.c\<close> is a copy of libuv's table of messages (\<open>UV_ERRNO_MAP\<close> in \<open>uv.h\<close>), and
  \<open>buv_strerror\<close> the switch over it.
\<close>

section \<open>uv/errno.h\<close>

text \<open>
  The platform: the value of \<open>EDOM\<close>, the error macros the system defines, and which of the
  platform macros \<open>_WIN32\<close> and those of the BSD family is defined.
\<close>

record platform =
  edom :: int
  sys_errno :: "string \<Rightarrow> int option"
  win32 :: bool
  bsd :: bool

definition UV__ERR :: "platform \<Rightarrow> int \<Rightarrow> int" where
  "UV__ERR P x = (if edom P > 0 then - x else x)"

text \<open>Codes with the same value everywhere.\<close>

definition errno_fixed :: "(string \<times> int) list" where
  "errno_fixed =
    [(''EOF'', - 4095), (''UNKNOWN'', - 4094), (''EAI_ADDRFAMILY'', - 3000),
     (''EAI_AGAIN'', - 3001), (''EAI_BADFLAGS'', - 3002), (''EAI_CANCELED'', - 3003),
     (''EAI_FAIL'', - 3004), (''EAI_FAMILY'', - 3005), (''EAI_MEMORY'', - 3006),
     (''EAI_NODATA'', - 3007), (''EAI_NONAME'', - 3008), (''EAI_OVERFLOW'', - 3009),
     (''EAI_SERVICE'', - 3010), (''EAI_SOCKTYPE'', - 3011), (''EAI_BADHINTS'', - 3013),
     (''EAI_PROTOCOL'', - 3014)]"

text \<open>Codes mapped to the system's where it defines them, with their default values.\<close>

definition errno_defaults_1 :: "(string \<times> int) list" where
  "errno_defaults_1 =
    [(''E2BIG'', - 4093), (''EACCES'', - 4092), (''EADDRINUSE'', - 4091),
     (''EADDRNOTAVAIL'', - 4090), (''EAFNOSUPPORT'', - 4089), (''EAGAIN'', - 4088),
     (''EALREADY'', - 4084), (''EBADF'', - 4083), (''EBUSY'', - 4082), (''ECANCELED'', - 4081),
     (''ECHARSET'', - 4080), (''ECONNABORTED'', - 4079), (''ECONNREFUSED'', - 4078),
     (''ECONNRESET'', - 4077), (''EDESTADDRREQ'', - 4076), (''EEXIST'', - 4075),
     (''EFAULT'', - 4074), (''EHOSTUNREACH'', - 4073), (''EINTR'', - 4072), (''EINVAL'', - 4071),
     (''EIO'', - 4070), (''EISCONN'', - 4069), (''EISDIR'', - 4068), (''ELOOP'', - 4067),
     (''EMFILE'', - 4066)]"

definition errno_defaults_2 :: "(string \<times> int) list" where
  "errno_defaults_2 =
    [(''EMSGSIZE'', - 4065), (''ENAMETOOLONG'', - 4064), (''ENETDOWN'', - 4063),
     (''ENETUNREACH'', - 4062), (''ENFILE'', - 4061), (''ENOBUFS'', - 4060), (''ENODEV'', - 4059),
     (''ENOENT'', - 4058), (''ENOMEM'', - 4057), (''ENONET'', - 4056), (''ENOSPC'', - 4055),
     (''ENOSYS'', - 4054), (''ENOTCONN'', - 4053), (''ENOTDIR'', - 4052), (''ENOTEMPTY'', - 4051),
     (''ENOTSOCK'', - 4050), (''ENOTSUP'', - 4049), (''EPERM'', - 4048), (''EPIPE'', - 4047),
     (''EPROTO'', - 4046), (''EPROTONOSUPPORT'', - 4045), (''EPROTOTYPE'', - 4044),
     (''EROFS'', - 4043), (''ESHUTDOWN'', - 4042), (''ESPIPE'', - 4041)]"

definition errno_defaults_3 :: "(string \<times> int) list" where
  "errno_defaults_3 =
    [(''ESRCH'', - 4040), (''ETIMEDOUT'', - 4039), (''ETXTBSY'', - 4038), (''EXDEV'', - 4037),
     (''EFBIG'', - 4036), (''ENOPROTOOPT'', - 4035), (''ERANGE'', - 4034), (''ENXIO'', - 4033),
     (''EMLINK'', - 4032)]"

definition errno_defaults_4 :: "(string \<times> int) list" where
  "errno_defaults_4 =
    [(''EREMOTEIO'', - 4030), (''ENOTTY'', - 4029), (''EFTYPE'', - 4028), (''EILSEQ'', - 4027),
     (''EOVERFLOW'', - 4026), (''ESOCKTNOSUPPORT'', - 4025)]"

definition UV__sys :: "platform \<Rightarrow> string \<Rightarrow> int \<Rightarrow> int" where
  "UV__sys P name dflt =
     (case sys_errno P name of
        Some v \<Rightarrow> if \<not> win32 P then UV__ERR P v else dflt
      | None \<Rightarrow> dflt)"

definition UV__EHOSTDOWN :: "platform \<Rightarrow> int" where
  "UV__EHOSTDOWN P =
     (if sys_errno P ''EHOSTDOWN'' \<noteq> None \<and> \<not> win32 P
      then UV__ERR P (the (sys_errno P ''EHOSTDOWN''))
      else if bsd P then - 64 else - 4031)"

text \<open>The enumeration \<open>uv_errno_t\<close>: the value of \<open>UV_\<close>\<^emph>\<open>name\<close>.\<close>

definition uv_errno_t :: "platform \<Rightarrow> string \<Rightarrow> int option" where
  "uv_errno_t P name =
     (case map_of errno_fixed name of
        Some v \<Rightarrow> Some v
      | None \<Rightarrow>
          if name = ''EHOSTDOWN'' then Some (UV__EHOSTDOWN P)
          else map_option (UV__sys P name)
                 (map_of (errno_defaults_1 @ errno_defaults_2 @ errno_defaults_3 @ errno_defaults_4)
                    name))"

definition UV_EOF :: int where "UV_EOF = - 4095"

section \<open>The tables of messages\<close>

definition UV_ERRNO_MAP :: "(string \<times> string) list" where
  "UV_ERRNO_MAP =
    [(''E2BIG'', ''argument list too long''),
     (''EACCES'', ''permission denied''),
     (''EADDRINUSE'', ''address already in use''),
     (''EADDRNOTAVAIL'', ''address not available''),
     (''EAFNOSUPPORT'', ''address family not supported''),
     (''EAGAIN'', ''resource temporarily unavailable''),
     (''EAI_ADDRFAMILY'', ''address family not supported''),
     (''EAI_AGAIN'', ''temporary failure''),
     (''EAI_BADFLAGS'', ''bad ai_flags value''),
     (''EAI_BADHINTS'', ''invalid value for hints''),
     (''EAI_CANCELED'', ''request canceled''),
     (''EAI_FAIL'', ''permanent failure''),
     (''EAI_FAMILY'', ''ai_family not supported''),
     (''EAI_MEMORY'', ''out of memory''),
     (''EAI_NODATA'', ''no address''),
     (''EAI_NONAME'', ''unknown node or service''),
     (''EAI_OVERFLOW'', ''argument buffer overflow''),
     (''EAI_PROTOCOL'', ''resolved protocol is unknown''),
     (''EAI_SERVICE'', ''service not available for socket type''),
     (''EAI_SOCKTYPE'', ''socket type not supported''),
     (''EALREADY'', ''connection already in progress''),
     (''EBADF'', ''bad file descriptor''),
     (''EBUSY'', ''resource busy or locked''),
     (''ECANCELED'', ''operation canceled''),
     (''ECHARSET'', ''invalid Unicode character''),
     (''ECONNABORTED'', ''software caused connection abort''),
     (''ECONNREFUSED'', ''connection refused''),
     (''ECONNRESET'', ''connection reset by peer''),
     (''EDESTADDRREQ'', ''destination address required''),
     (''EEXIST'', ''file already exists''),
     (''EFAULT'', ''bad address in system call argument''),
     (''EFBIG'', ''file too large''),
     (''EHOSTUNREACH'', ''host is unreachable''),
     (''EINTR'', ''interrupted system call''),
     (''EINVAL'', ''invalid argument''),
     (''EIO'', ''i/o error''),
     (''EISCONN'', ''socket is already connected''),
     (''EISDIR'', ''illegal operation on a directory''),
     (''ELOOP'', ''too many symbolic links encountered''),
     (''EMFILE'', ''too many open files''),
     (''EMSGSIZE'', ''message too long''),
     (''ENAMETOOLONG'', ''name too long''),
     (''ENETDOWN'', ''network is down''),
     (''ENETUNREACH'', ''network is unreachable''),
     (''ENFILE'', ''file table overflow''),
     (''ENOBUFS'', ''no buffer space available''),
     (''ENODEV'', ''no such device''),
     (''ENOENT'', ''no such file or directory''),
     (''ENOMEM'', ''not enough memory''),
     (''ENONET'', ''machine is not on the network''),
     (''ENOPROTOOPT'', ''protocol not available''),
     (''ENOSPC'', ''no space left on device''),
     (''ENOSYS'', ''function not implemented''),
     (''ENOTCONN'', ''socket is not connected''),
     (''ENOTDIR'', ''not a directory''),
     (''ENOTEMPTY'', ''directory not empty''),
     (''ENOTSOCK'', ''socket operation on non-socket''),
     (''ENOTSUP'', ''operation not supported on socket''),
     (''EOVERFLOW'', ''value too large for defined data type''),
     (''EPERM'', ''operation not permitted''),
     (''EPIPE'', ''broken pipe''),
     (''EPROTO'', ''protocol error''),
     (''EPROTONOSUPPORT'', ''protocol not supported''),
     (''EPROTOTYPE'', ''protocol wrong type for socket''),
     (''ERANGE'', ''result too large''),
     (''EROFS'', ''read-only file system''),
     (''ESHUTDOWN'', ''cannot send after transport endpoint shutdown''),
     (''ESPIPE'', ''invalid seek''),
     (''ESRCH'', ''no such process''),
     (''ETIMEDOUT'', ''connection timed out''),
     (''ETXTBSY'', ''text file is busy''),
     (''EXDEV'', ''cross-device link not permitted''),
     (''UNKNOWN'', ''unknown error''),
     (''EOF'', ''end of file''),
     (''ENXIO'', ''no such device or address''),
     (''EMLINK'', ''too many links''),
     (''EHOSTDOWN'', ''host is down''),
     (''EREMOTEIO'', ''remote I/O error''),
     (''ENOTTY'', ''inappropriate ioctl for device''),
     (''EFTYPE'', ''inappropriate file type or format''),
     (''EILSEQ'', ''illegal byte sequence''),
     (''ESOCKTNOSUPPORT'', ''socket type not supported'')]"

definition BUV_ERRNO_MAP :: "(string \<times> string) list" where
  "BUV_ERRNO_MAP =
    [(''E2BIG'', ''argument list too long''),
     (''EACCES'', ''permission denied''),
     (''EADDRINUSE'', ''address already in use''),
     (''EADDRNOTAVAIL'', ''address not available''),
     (''EAFNOSUPPORT'', ''address family not supported''),
     (''EAGAIN'', ''resource temporarily unavailable''),
     (''EAI_ADDRFAMILY'', ''address family not supported''),
     (''EAI_AGAIN'', ''temporary failure''),
     (''EAI_BADFLAGS'', ''bad ai_flags value''),
     (''EAI_BADHINTS'', ''invalid value for hints''),
     (''EAI_CANCELED'', ''request canceled''),
     (''EAI_FAIL'', ''permanent failure''),
     (''EAI_FAMILY'', ''ai_family not supported''),
     (''EAI_MEMORY'', ''out of memory''),
     (''EAI_NODATA'', ''no address''),
     (''EAI_NONAME'', ''unknown node or service''),
     (''EAI_OVERFLOW'', ''argument buffer overflow''),
     (''EAI_PROTOCOL'', ''resolved protocol is unknown''),
     (''EAI_SERVICE'', ''service not available for socket type''),
     (''EAI_SOCKTYPE'', ''socket type not supported''),
     (''EALREADY'', ''connection already in progress''),
     (''EBADF'', ''bad file descriptor''),
     (''EBUSY'', ''resource busy or locked''),
     (''ECANCELED'', ''operation canceled''),
     (''ECHARSET'', ''invalid Unicode character''),
     (''ECONNABORTED'', ''software caused connection abort''),
     (''ECONNREFUSED'', ''connection refused''),
     (''ECONNRESET'', ''connection reset by peer''),
     (''EDESTADDRREQ'', ''destination address required''),
     (''EEXIST'', ''file already exists''),
     (''EFAULT'', ''bad address in system call argument''),
     (''EFBIG'', ''file too large''),
     (''EHOSTUNREACH'', ''host is unreachable''),
     (''EINTR'', ''interrupted system call''),
     (''EINVAL'', ''invalid argument''),
     (''EIO'', ''i/o error''),
     (''EISCONN'', ''socket is already connected''),
     (''EISDIR'', ''illegal operation on a directory''),
     (''ELOOP'', ''too many symbolic links encountered''),
     (''EMFILE'', ''too many open files''),
     (''EMSGSIZE'', ''message too long''),
     (''ENAMETOOLONG'', ''name too long''),
     (''ENETDOWN'', ''network is down''),
     (''ENETUNREACH'', ''network is unreachable''),
     (''ENFILE'', ''file table overflow''),
     (''ENOBUFS'', ''no buffer space available''),
     (''ENODEV'', ''no such device''),
     (''ENOENT'', ''no such file or directory''),
     (''ENOMEM'', ''not enough memory''),
     (''ENONET'', ''machine is not on the network''),
     (''ENOPROTOOPT'', ''protocol not available''),
     (''ENOSPC'', ''no space left on device''),
     (''ENOSYS'', ''function not implemented''),
     (''ENOTCONN'', ''socket is not connected''),
     (''ENOTDIR'', ''not a directory''),
     (''ENOTEMPTY'', ''directory not empty''),
     (''ENOTSOCK'', ''socket operation on non-socket''),
     (''ENOTSUP'', ''operation not supported on socket''),
     (''EOVERFLOW'', ''value too large for defined data type''),
     (''EPERM'', ''operation not permitted''),
     (''EPIPE'', ''broken pipe''),
     (''EPROTO'', ''protocol error''),
     (''EPROTONOSUPPORT'', ''protocol not supported''),
     (''EPROTOTYPE'', ''protocol wrong type for socket''),
     (''ERANGE'', ''result too large''),
     (''EROFS'', ''read-only file system''),
     (''ESHUTDOWN'', ''cannot send after transport endpoint shutdown''),
     (''ESPIPE'', ''invalid seek''),
     (''ESRCH'', ''no such process''),
     (''ETIMEDOUT'', ''connection timed out''),
     (''ETXTBSY'', ''text file is busy''),
     (''EXDEV'', ''cross-device link not permitted''),
     (''UNKNOWN'', ''unknown error''),
     (''EOF'', ''end of file''),
     (''ENXIO'', ''no such device or address''),
     (''EMLINK'', ''too many links''),
     (''EHOSTDOWN'', ''host is down''),
     (''EREMOTEIO'', ''remote I/O error''),
     (''ENOTTY'', ''inappropriate ioctl for device''),
     (''EFTYPE'', ''inappropriate file type or format''),
     (''EILSEQ'', ''illegal byte sequence''),
     (''ESOCKTNOSUPPORT'', ''socket type not supported'')]"

text \<open>The switch in \<open>buv_strerror\<close>.\<close>

definition buv_strerror :: "platform \<Rightarrow> int \<Rightarrow> string" where
  "buv_strerror P errcode =
     (case find (\<lambda>(name, msg). uv_errno_t P name = Some errcode) BUV_ERRNO_MAP of
        Some (name, msg) \<Rightarrow> msg
      | None \<Rightarrow> ''unknown error code'')"

section \<open>The codes are distinct\<close>

text \<open>
  All names with their defaults, and the system value that replaces the default, if any. A
  platform is accepted when those values are positive, below the range libuv keeps for itself,
  and distinct; a C compiler refuses the switch on any platform where labels coincide.
\<close>

definition all_defaults :: "(string \<times> int) list" where
  "all_defaults = errno_fixed @ errno_defaults_1 @ errno_defaults_2 @ errno_defaults_3 @
     errno_defaults_4 @ [(''EHOSTDOWN'', - 4031)]"

definition sys_value :: "platform \<Rightarrow> string \<Rightarrow> int option" where
  "sys_value P name =
     (if map_of errno_fixed name \<noteq> None then None
      else if name = ''EHOSTDOWN'' \<and> bsd P \<and> (win32 P \<or> sys_errno P name = None) then Some 64
      else if win32 P then None else sys_errno P name)"

definition errno_values_ok :: "platform \<Rightarrow> bool" where
  "errno_values_ok P \<longleftrightarrow> 0 < edom P \<and>
     list_all (\<lambda>(n, _). case sys_value P n of None \<Rightarrow> True | Some v \<Rightarrow> 0 < v \<and> v < 3000) BUV_ERRNO_MAP \<and>
     distinct (filter (\<lambda>v. v \<noteq> None) (map (\<lambda>(n, _). sys_value P n) BUV_ERRNO_MAP))"

lemma all_defaults_facts:
  "distinct (map snd all_defaults)"
  "distinct (map fst all_defaults)"
  "list_all (\<lambda>(_, v). v \<le> - 3000) all_defaults"
  "list_all (\<lambda>(n, _). n \<in> set (map fst all_defaults)) BUV_ERRNO_MAP"
  "distinct (map fst BUV_ERRNO_MAP)"
  by code_simp+

lemma fixed_disjoint: "map_of errno_fixed ''EHOSTDOWN'' = None"
  "map_of (errno_defaults_1 @ errno_defaults_2 @ errno_defaults_3 @ errno_defaults_4) ''EHOSTDOWN'' = None"
  by code_simp+

lemma map_of_snd_inj:
  "distinct (map snd xs) \<Longrightarrow> map_of xs n = Some d \<Longrightarrow> map_of xs m = Some d \<Longrightarrow> n = m"
proof (induction xs)
  case Nil
  then show ?case by simp
next
  case (Cons x xs)
  then show ?case
    by (cases x) (auto split: if_splits dest!: map_of_SomeD simp: image_iff)
qed

lemma uv_errno_t_eq:
  assumes "0 < edom P"
  shows "uv_errno_t P n =
    map_option (\<lambda>d. case sys_value P n of None \<Rightarrow> d | Some v \<Rightarrow> - v) (map_of all_defaults n)"
proof (cases "map_of errno_fixed n")
  case (Some v)
  then show ?thesis
    by (simp add: uv_errno_t_def all_defaults_def sys_value_def)
next
  case None
  show ?thesis
  proof (cases "n = ''EHOSTDOWN''")
    case True
    with assms show ?thesis
      using fixed_disjoint
      by (auto simp: uv_errno_t_def all_defaults_def sys_value_def UV__EHOSTDOWN_def UV__ERR_def
          map_add_def split: option.splits)
  next
    case False
    with None assms show ?thesis
      by (auto simp: uv_errno_t_def all_defaults_def sys_value_def UV__sys_def UV__ERR_def
          map_add_def split: option.splits)
  qed
qed

lemma distinct_filter_map:
  assumes "distinct (filter Q (map f xs))" and "a \<in> set xs" and "b \<in> set xs"
    and "f a = f b" and "Q (f a)"
  shows "a = b"
  using assms
proof (induction xs)
  case Nil
  then show ?case by simp
next
  case (Cons x xs)
  have "f x \<notin> f ` set xs" if "Q (f x)"
    using Cons.prems(1) that by auto
  then show ?case
    using Cons by (auto split: if_splits) (metis image_eqI)+
qed

lemma buv_name_default: "(n, m) \<in> set BUV_ERRNO_MAP \<Longrightarrow> \<exists>d. map_of all_defaults n = Some d \<and> d \<le> - 3000"
proof -
  assume "(n, m) \<in> set BUV_ERRNO_MAP"
  then have "n \<in> set (map fst all_defaults)"
    using all_defaults_facts(4) by (force simp: list_all_iff)
  then obtain d where d: "map_of all_defaults n = Some d"
    by (metis map_of_eq_None_iff not_None_eq set_map)
  then have "(n, d) \<in> set all_defaults"
    by (rule map_of_SomeD)
  then have "d \<le> - 3000"
    using all_defaults_facts(3) by (auto simp: list_all_iff)
  with d show ?thesis by blast
qed

lemma sys_value_range:
  "errno_values_ok P \<Longrightarrow> (n, m) \<in> set BUV_ERRNO_MAP \<Longrightarrow> sys_value P n = Some v \<Longrightarrow> 0 < v \<and> v < 3000"
  by (auto simp: errno_values_ok_def list_all_iff dest!: bspec)

text \<open>No two names share a code, so the labels of the switch are distinct.\<close>

lemma uv_errno_t_inj:
  assumes ok: "errno_values_ok P" and n: "(n, x) \<in> set BUV_ERRNO_MAP"
    and m: "(m, y) \<in> set BUV_ERRNO_MAP" and eq: "uv_errno_t P n = uv_errno_t P m"
  shows "n = m"
proof -
  from ok have e: "0 < edom P" by (simp add: errno_values_ok_def)
  from buv_name_default [OF n] obtain dn where dn: "map_of all_defaults n = Some dn" "dn \<le> - 3000"
    by blast
  from buv_name_default [OF m] obtain dm where dm: "map_of all_defaults m = Some dm" "dm \<le> - 3000"
    by blast
  note codes = uv_errno_t_eq [OF e, of n] uv_errno_t_eq [OF e, of m]
  show ?thesis
  proof (cases "sys_value P n"; cases "sys_value P m")
    assume "sys_value P n = None" "sys_value P m = None"
    with eq codes dn dm have "dn = dm" by simp
    with dn dm show ?thesis
      using map_of_snd_inj [OF all_defaults_facts(1)] by blast
  next
    fix v assume "sys_value P n = None" and v: "sys_value P m = Some v"
    with eq codes dn dm have "dn = - v" by simp
    with dn sys_value_range [OF ok m v] show ?thesis by simp
  next
    fix v assume v: "sys_value P n = Some v" and "sys_value P m = None"
    with eq codes dn dm have "dm = - v" by simp
    with dm sys_value_range [OF ok n v] show ?thesis by simp
  next
    fix v u assume v: "sys_value P n = Some v" and u: "sys_value P m = Some u"
    with eq codes dn dm have "v = u" by simp
    then have "(n, x) = (m, y)"
      using distinct_filter_map [of "\<lambda>v. v \<noteq> None" "\<lambda>(n, _). sys_value P n" BUV_ERRNO_MAP "(n, x)" "(m, y)"]
        ok n m u v by (simp add: errno_values_ok_def)
    then show ?thesis by simp
  qed
qed

lemma uv_errno_t_code:
  assumes ok: "errno_values_ok P" and n: "(n, x) \<in> set BUV_ERRNO_MAP"
  shows "\<exists>c. uv_errno_t P n = Some c \<and> - 4096 \<le> c \<and> c < 0"
proof -
  from ok have e: "0 < edom P" by (simp add: errno_values_ok_def)
  obtain d where d: "map_of all_defaults n = Some d" "d \<le> - 3000"
    using buv_name_default [OF n] by blast
  have "list_all (\<lambda>(_, v). - 4096 \<le> v) all_defaults"
    by code_simp
  then have "- 4096 \<le> d"
    using map_of_SomeD [OF d(1)] by (auto simp: list_all_iff)
  then show ?thesis
    using d sys_value_range [OF ok n] uv_errno_t_eq [OF e, of n]
    by (cases "sys_value P n") auto
qed

lemma buv_strerror_of_name:
  assumes ok: "errno_values_ok P" and n: "(n, x) \<in> set BUV_ERRNO_MAP"
    and c: "uv_errno_t P n = Some c"
  shows "buv_strerror P c = x"
proof -
  let ?hit = "\<lambda>(name, msg). uv_errno_t P name = Some c"
  obtain n' x' where f: "find ?hit BUV_ERRNO_MAP = Some (n', x')"
    using n c by (cases "find ?hit BUV_ERRNO_MAP") (auto simp: find_None_iff)
  then have n': "(n', x') \<in> set BUV_ERRNO_MAP" and c': "uv_errno_t P n' = Some c"
    by (auto simp: find_Some_iff in_set_conv_nth)
  have "n' = n"
    using uv_errno_t_inj [OF ok n' n] c c' by simp
  then have "x' = x"
    using n n' all_defaults_facts(5) by (metis eq_key_imp_eq_value)
  with f show ?thesis by (simp add: buv_strerror_def)
qed

lemma buv_strerror_unknown:
  "\<forall>(n, x) \<in> set BUV_ERRNO_MAP. uv_errno_t P n \<noteq> Some c \<Longrightarrow> buv_strerror P c = ''unknown error code''"
proof -
  assume "\<forall>(n, x) \<in> set BUV_ERRNO_MAP. uv_errno_t P n \<noteq> Some c"
  then have "find (\<lambda>(name, msg). uv_errno_t P name = Some c) BUV_ERRNO_MAP = None"
    by (auto simp: find_None_iff)
  then show ?thesis by (simp add: buv_strerror_def)
qed

section \<open>Properties\<close>

text \<open>The table of \<open>src/backend_uv.c\<close> has exactly the entries of the vendored libuv header,
  in its order and with its texts: nothing is missing and nothing was changed in the copy.\<close>

theorem errno_tables_agree:
  "BUV_ERRNO_MAP = UV_ERRNO_MAP \<and> distinct (map fst BUV_ERRNO_MAP)"
  by (rule conjI) code_simp+


definition sparse_platform :: platform where
  "sparse_platform = \<lparr>edom = 33, sys_errno = map_of [(''ENOENT'', 2), (''EINVAL'', 22)],
     win32 = False, bsd = False\<rparr>"


end
