(* ===== verification/World.thy ===== *)
theory World
  imports Byte_Order UV_Errno
begin

text \<open>
  The state the library works on: its structures (\<open>src/*.c\<close>, \<open>src/*.h\<close>, \<open>include/sc/*.h\<close>) as
  records, the C heap that holds them, the static variables, and the parameters of the model: the
  C toolbelt, libuv and the application's callbacks, whose code is not in the repository.
\<close>

section \<open>Structures\<close>

text \<open>\<open>enum proto\<close> of \<open>src/proto.h\<close> and \<open>enum sc_backend\<close> of \<open>include/sc/backend.h\<close>.\<close>

datatype proto = PROTO_NOSET | PROTO_PIPE | PROTO_TCP

datatype sc_backend = SC_NOTSET | SC_LIBUV

text \<open>The codes of \<open>include/sc/errcode.h\<close>.\<close>

definition SC_ENOMEM :: int where "SC_ENOMEM = 3193"
definition SC_EURIPARSE :: int where "SC_EURIPARSE = 3194"
definition SC_EINVPROTO :: int where "SC_EINVPROTO = 3195"

text \<open>
  \<open>struct sc_msg\<close>: the memory image of \<open>size_be\<close> (four bytes, so that it can be filled byte by
  byte from the network) and the array \<open>data\<close> points to, whose length is what was allocated.
\<close>

record sc_msg =
  size_be :: bytes
  msg_data :: bytes

definition SC_MSG_SIZE_BYTES :: u32 where "SC_MSG_SIZE_BYTES = 4"

text \<open>
  A \<open>char *\<close> into a message: at an offset from \<open>&msg->size_be\<close> or from \<open>msg->data\<close>. The
  difference of two pointers is defined only within one array.
\<close>

datatype ptr = Size_be addr nat | Data addr nat

fun ptr_diff :: "ptr \<Rightarrow> ptr \<Rightarrow> int option" where
  "ptr_diff (Size_be a i) (Size_be b j) = (if a = b then Some (int i - int j) else None)"
| "ptr_diff (Data a i) (Data b j) = (if a = b then Some (int i - int j) else None)"
| "ptr_diff _ _ = None"

fun ptr_add :: "ptr \<Rightarrow> nat \<Rightarrow> ptr" where
  "ptr_add (Size_be a i) n = Size_be a (i + n)"
| "ptr_add (Data a i) n = Data a (i + n)"

text \<open>\<open>struct msg_reader\<close> of \<open>src/msg_reader.h\<close>.\<close>

record msg_reader =
  reader_msg :: addr
  head_pos :: ptr
  body_pos :: ptr

text \<open>
  \<open>struct uri\<close> of \<open>src/uri.c\<close>. The members other than \<open>str\<close> are C strings inside the
  block \<open>str\<close> points to; the union of \<open>pipe.filepath\<close> with \<open>tcp.ip4\<close> and \<open>tcp.port\<close> is two
  pointer slots, the first shared by \<open>filepath\<close> and \<open>ip4\<close>.
\<close>

record uri =
  uri_str :: "addr option"
  uri_proto :: "string option"
  uri_slot0 :: "string option"
  uri_slot1 :: "string option"

text \<open>
  A callback field: NULL, one of the \<open>_noop\<close> functions of \<open>src/watcher.c\<close>, or a function of the
  application. \<open>struct watcher\<close> is \<open>src/watcher.h\<close>.
\<close>

datatype callback = Null_fn | Noop_fn | User_fn fn

record watcher =
  watcher_socket :: addr
  on_connect :: callback
  on_connection :: callback
  on_accept :: callback
  on_recv :: callback
  on_send :: callback
  on_close :: callback

text \<open>\<open>struct sc_socket\<close> of \<open>src/socket.c\<close>; the watcher is embedded in it.\<close>

record sc_socket =
  userdata :: "addr option"
  sock_backend :: "addr option"
  sock_uri :: "addr option"
  sock_watcher :: watcher

text \<open>\<open>uv_buf_t\<close>, and \<open>struct socket_uv\<close> of \<open>src/backend_uv.c\<close>.\<close>

record uv_buf =
  buf_base :: "ptr option"
  buf_len :: u64

text \<open>
  The handle and the requests embedded in \<open>socket_uv\<close> belong to libuv but for their \<open>data\<close>
  members; a pointer to one of them is the address of the structure. The watcher is pointed to
  inside its socket, so a \<open>struct watcher *\<close> is the address of that socket.
\<close>

record socket_uv =
  uv_watcher :: addr
  stream_data :: "addr option"
  connect_data :: "addr option"
  write_data :: "addr option"
  write_buffers :: "uv_buf list"
  uv_msg :: "addr option"
  uv_reader :: msg_reader
  uv_proto :: proto
  tcp_addr :: bytes

text \<open>What a block of memory holds; \<open>Uv_data\<close> is \<open>struct sc_backend_uv_data\<close> with its loop.\<close>

datatype obj =
    Sock sc_socket
  | Buv socket_uv
  | Uri uri
  | Str string
  | Msg sc_msg
  | Uv_data addr

section \<open>The state\<close>

text \<open>
  \<open>malloc_ok k\<close> says whether the \<open>k\<close>-th request to the allocator succeeds, and the \<open>junk\<close>
  fields what fresh memory holds: both are arbitrary. \<open>backend\<close>, \<open>buv_data\<close>, \<open>msg_alloc\<close> and
  \<open>msg_free\<close> are the static variables of \<open>backend.c\<close>, \<open>backend_uv.c\<close> and \<open>msg.c\<close>;
  \<open>ndebug\<close> is the build's \<open>NDEBUG\<close>; \<open>stderr_lines\<close> what was printed; \<open>uv\<close> and \<open>app\<close> are
  the state of libuv and of the application.
\<close>

datatype backend_id = Buv_funcs

datatype alloc_fn = Default_heap_alloc | User_alloc fn

datatype free_fn = Default_heap_free | User_free fn

record ('u, 'a) world =
  heap :: "addr \<rightharpoonup> obj"
  fresh :: addr
  malloc_ok :: "nat \<Rightarrow> bool"
  junk_sock :: sc_socket
  junk_buv :: socket_uv
  junk_uri :: uri
  junk_byte :: "nat \<Rightarrow> u8"
  backend :: "backend_id option"
  buv_data :: "addr option"
  msg_alloc :: alloc_fn
  msg_free :: free_fn
  ndebug :: bool
  stderr_lines :: "string list"
  uv :: 'u
  app :: 'a

section \<open>Parameters\<close>

text \<open>
  The functions the library calls and does not define. The first group is the platform's
  error numbers and the C toolbelt on a host of byte order \<open>host\<close>; the second the application's functions, by name; the third libuv,
  whose functions take the handle, return a status and change libuv's own state only (their
  callbacks run later, from the loop).
\<close>

record ('u, 'a) env =
  plat :: platform
  host :: endian
  ctb_htonl :: "u32 \<Rightarrow> u32"
  ctb_ntohl :: "u32 \<Rightarrow> u32"
  ctb_bzero :: "nat \<Rightarrow> bytes"
  ctb_strdup :: "string \<Rightarrow> (('u, 'a) world, addr option) prog"
  ctb_strtok_s :: "string \<Rightarrow> nat \<Rightarrow> string \<Rightarrow> string option \<times> string option"
  call_event :: "fn \<Rightarrow> addr \<Rightarrow> int \<Rightarrow> (('u, 'a) world, unit) prog"
  call_recv :: "fn \<Rightarrow> addr \<Rightarrow> addr option \<Rightarrow> int \<Rightarrow> (('u, 'a) world, unit) prog"
  call_close :: "fn \<Rightarrow> addr \<Rightarrow> (('u, 'a) world, unit) prog"
  call_alloc :: "fn \<Rightarrow> u32 \<Rightarrow> (('u, 'a) world, addr option) prog"
  call_free :: "fn \<Rightarrow> addr option \<Rightarrow> (('u, 'a) world, unit) prog"
  uv_buf_init :: "ptr option \<Rightarrow> u32 \<Rightarrow> uv_buf"
  uv_pipe_init :: "addr \<Rightarrow> addr \<Rightarrow> int \<Rightarrow> 'u \<Rightarrow> int \<times> 'u"
  uv_tcp_init :: "addr \<Rightarrow> addr \<Rightarrow> 'u \<Rightarrow> int \<times> 'u"
  uv_pipe_connect :: "addr \<Rightarrow> string \<Rightarrow> 'u \<Rightarrow> 'u"
  uv_ip4_addr :: "string \<Rightarrow> int \<Rightarrow> int \<times> bytes"
  uv_tcp_connect :: "addr \<Rightarrow> bytes \<Rightarrow> 'u \<Rightarrow> int \<times> 'u"
  uv_pipe_bind :: "addr \<Rightarrow> string \<Rightarrow> 'u \<Rightarrow> int \<times> 'u"
  uv_tcp_bind :: "addr \<Rightarrow> bytes \<Rightarrow> u32 \<Rightarrow> 'u \<Rightarrow> int \<times> 'u"
  uv_listen :: "addr \<Rightarrow> int \<Rightarrow> 'u \<Rightarrow> int \<times> 'u"
  uv_accept :: "addr \<Rightarrow> addr \<Rightarrow> 'u \<Rightarrow> int \<times> 'u"
  uv_read_start :: "addr \<Rightarrow> 'u \<Rightarrow> int \<times> 'u"
  uv_write :: "addr \<Rightarrow> uv_buf list \<Rightarrow> 'u \<Rightarrow> int \<times> 'u"
  uv_close :: "addr \<Rightarrow> 'u \<Rightarrow> 'u"

text \<open>Calling libuv: the status is returned and its state replaced.\<close>

definition uv_call :: "('u \<Rightarrow> 'r \<times> 'u) \<Rightarrow> (('u, 'a) world, 'r) prog" where
  "uv_call f w = (let (r, u) = f (uv w) in Inr (r, w\<lparr>uv := u\<rparr>))"

section \<open>Memory\<close>

text \<open>\<open>malloc\<close> of a block that comes to hold \<open>ob\<close>, and \<open>free\<close>.\<close>

definition malloc :: "obj \<Rightarrow> (('u, 'a) world, addr option) prog" where
  "malloc ob w =
     (if malloc_ok w (fresh w)
      then Inr (Some (fresh w), w\<lparr>heap := (heap w)(fresh w \<mapsto> ob), fresh := Suc (fresh w)\<rparr>)
      else Inr (None, w\<lparr>fresh := Suc (fresh w)\<rparr>))"

definition c_free :: "addr option \<Rightarrow> (('u, 'a) world, unit) prog" where
  "c_free p w =
     (case p of
        None \<Rightarrow> Inr ((), w)
      | Some a \<Rightarrow>
          (if heap w a = None then Inl Bad_Free else Inr ((), w\<lparr>heap := (heap w)(a := None)\<rparr>)))"

definition store :: "addr \<Rightarrow> obj \<Rightarrow> (('u, 'a) world, unit) prog" where
  "store a ob w =
     (if heap w a = None then Inl Bad_Pointer else Inr ((), w\<lparr>heap := (heap w)(a \<mapsto> ob)\<rparr>))"

definition load_sock :: "addr \<Rightarrow> (('u, 'a) world, sc_socket) prog" where
  "load_sock a w = (case heap w a of Some (Sock s) \<Rightarrow> Inr (s, w) | _ \<Rightarrow> Inl Bad_Pointer)"

definition load_buv :: "addr \<Rightarrow> (('u, 'a) world, socket_uv) prog" where
  "load_buv a w = (case heap w a of Some (Buv s) \<Rightarrow> Inr (s, w) | _ \<Rightarrow> Inl Bad_Pointer)"

definition load_uri :: "addr \<Rightarrow> (('u, 'a) world, uri) prog" where
  "load_uri a w = (case heap w a of Some (Uri s) \<Rightarrow> Inr (s, w) | _ \<Rightarrow> Inl Bad_Pointer)"

definition load_msg :: "addr \<Rightarrow> (('u, 'a) world, sc_msg) prog" where
  "load_msg a w = (case heap w a of Some (Msg s) \<Rightarrow> Inr (s, w) | _ \<Rightarrow> Inl Bad_Pointer)"

definition load_uv_data :: "addr \<Rightarrow> (('u, 'a) world, addr) prog" where
  "load_uv_data a w = (case heap w a of Some (Uv_data s) \<Rightarrow> Inr (s, w) | _ \<Rightarrow> Inl Bad_Pointer)"

text \<open>\<open>assert\<close>, which a build with \<open>NDEBUG\<close> removes.\<close>

definition dbg_assert :: "bool \<Rightarrow> (('u, 'a) world, unit) prog" where
  "dbg_assert b w = (if ndebug w \<or> b then Inr ((), w) else Inl Assert_Failed)"

text \<open>Every block lies below the next fresh address: so a fresh block is a new one.\<close>

definition wf_heap :: "('u, 'a) world \<Rightarrow> bool" where
  "wf_heap w \<longleftrightarrow> (\<forall>a \<in> dom (heap w). a < fresh w)"

lemma wf_heap_ge: "wf_heap w \<Longrightarrow> fresh w \<le> a \<Longrightarrow> heap w a = None"
  by (cases "heap w a") (auto simp: wf_heap_def dom_def)

lemma wf_heap_fresh: "wf_heap w \<Longrightarrow> heap w (fresh w) = None"
  by (simp add: wf_heap_ge)

lemma load_simps [simp]:
  "heap w a = Some (Sock s) \<Longrightarrow> load_sock a w = Inr (s, w)"
  "heap w a = Some (Buv b) \<Longrightarrow> load_buv a w = Inr (b, w)"
  "heap w a = Some (Uri u) \<Longrightarrow> load_uri a w = Inr (u, w)"
  "heap w a = Some (Msg m) \<Longrightarrow> load_msg a w = Inr (m, w)"
  "heap w a = Some (Uv_data l) \<Longrightarrow> load_uv_data a w = Inr (l, w)"
  by (simp_all add: load_sock_def load_buv_def load_uri_def load_msg_def load_uv_data_def)

lemma store_simp [simp]:
  "heap w a \<noteq> None \<Longrightarrow> store a ob w = Inr ((), w\<lparr>heap := (heap w)(a \<mapsto> ob)\<rparr>)"
  by (simp add: store_def)

lemma c_free_simps [simp]:
  "c_free None w = Inr ((), w)"
  "heap w a \<noteq> None \<Longrightarrow> c_free (Some a) w = Inr ((), w\<lparr>heap := (heap w)(a := None)\<rparr>)"
  "heap w a = None \<Longrightarrow> c_free (Some a) w = Inl Bad_Free"
  by (simp_all add: c_free_def)

lemma dbg_assert_simp [simp]: "b \<Longrightarrow> dbg_assert b w = Inr ((), w)"
  by (simp add: dbg_assert_def)

text \<open>Loads change nothing, so they keep every predicate; so do assertions and libuv's calls.\<close>

lemma keeps_loads [keeps_intros]:
  "keeps I (load_sock a)" "keeps I (load_buv a)" "keeps I (load_uri a)"
  "keeps I (load_msg a)" "keeps I (load_uv_data a)"
  by (auto intro!: keepsI simp: load_sock_def load_buv_def load_uri_def load_msg_def
      load_uv_data_def split: option.splits obj.splits)

lemma keeps_dbg_assert [keeps_intros]: "keeps I (dbg_assert b)"
  by (rule keepsI) (auto simp: dbg_assert_def split: if_splits)

lemma wf_heap_malloc [keeps_intros]: "keeps wf_heap (malloc ob)"
  by (rule keepsI) (auto simp: malloc_def wf_heap_def less_Suc_eq split: if_splits)

lemma wf_heap_c_free [keeps_intros]: "keeps wf_heap (c_free p)"
  by (rule keepsI) (auto simp: c_free_def wf_heap_def split: if_splits option.splits)

lemma wf_heap_store [keeps_intros]: "keeps wf_heap (store a ob)"
  by (rule keepsI) (auto simp: store_def wf_heap_def split: if_splits)

lemma wf_heap_uv_call [keeps_intros]: "keeps wf_heap (uv_call f)"
  by (rule keepsI) (auto simp: uv_call_def wf_heap_def split: prod.splits)

section \<open>src/warn.c\<close>

text \<open>\<open>sc_warn\<close> prints a line, in a build without \<open>NDEBUG\<close>.\<close>

definition sc_warn :: "string \<Rightarrow> (('u, 'a) world, unit) prog" where
  "sc_warn msg =
     upd (\<lambda>w. if ndebug w then w else w\<lparr>stderr_lines := stderr_lines w @ [msg]\<rparr>)"

lemma wf_heap_sc_warn [keeps_intros]: "keeps wf_heap (sc_warn m)"
  by (rule keepsI) (auto simp: sc_warn_def wf_heap_def split: if_splits)

end
