(* ===== verification/C_String.thy ===== *)
theory C_String
  imports Prelude
begin

text \<open>
  The string functions of the C library that \<open>src/uri.c\<close> uses. A C string is the list of its
  characters before the terminating NUL; \<open>strlen\<close> is \<open>length\<close> and \<open>strcmp(a, b) == 0\<close> is
  equality. \<open>long\<close> has 64 bits.
\<close>

section \<open>Characters\<close>

definition code :: "char \<Rightarrow> nat" where
  "code c = of_char c"

definition is_digit :: "char \<Rightarrow> bool" where
  "is_digit c \<longleftrightarrow> 48 \<le> code c \<and> code c \<le> 57"

definition digit :: "char \<Rightarrow> nat" where
  "digit c = code c - 48"

text \<open>\<open>isspace\<close> in the C locale.\<close>

definition is_space :: "char \<Rightarrow> bool" where
  "is_space c \<longleftrightarrow> code c = 32 \<or> 9 \<le> code c \<and> code c \<le> 13"

text \<open>\<open>strchr(s, c)\<close>, as the offset of the character found.\<close>

fun strchr :: "string \<Rightarrow> char \<Rightarrow> nat option" where
  "strchr [] c = None"
| "strchr (x # s) c = (if x = c then Some 0 else map_option Suc (strchr s c))"

lemma strchr_None: "c \<notin> set s \<Longrightarrow> strchr s c = None"
  by (induction s) auto

declare strchr.simps [simp del]

lemma digit_less: "is_digit c \<Longrightarrow> digit c < 10"
  by (auto simp: is_digit_def digit_def)

lemma code_inject: "code c = code d \<longleftrightarrow> c = d"
  by (simp add: code_def)

lemma strchr_digits:
  "strchr ''0123456789'' c = (if is_digit c then Some (digit c) else None)"
proof (cases "is_digit c")
  case True
  define n where "n = digit c"
  then have "n < 10" and c: "c = char_of (48 + n)"
    using True by (auto simp: digit_less is_digit_def digit_def code_def)
  moreover have "\<forall>n \<in> set [0..<10]. strchr ''0123456789'' (char_of (48 + n)) = Some n"
    by code_simp
  ultimately have "strchr ''0123456789'' c = Some n"
    by simp
  with True show ?thesis by (simp add: n_def)
next
  case False
  then have "c \<notin> set ''0123456789''"
    by (auto simp: is_digit_def code_def)
  from strchr_None [OF this] show ?thesis
    using False by (simp only: if_False)
qed

section \<open>Decimal numbers\<close>

definition dec_value :: "string \<Rightarrow> nat" where
  "dec_value s = foldl (\<lambda>n c. n * 10 + digit c) 0 s"

lemma dec_value_Nil [simp]: "dec_value [] = 0"
  by (simp add: dec_value_def)

lemma dec_value_snoc [simp]: "dec_value (s @ [c]) = dec_value s * 10 + digit c"
  by (simp add: dec_value_def)

lemma dec_value_single [simp]: "dec_value [c] = digit c"
  by (simp add: dec_value_def)

lemma dec_value_append_ge: "dec_value s \<le> dec_value (s @ t)"
proof (induction t rule: rev_induct)
  case Nil
  then show ?case by simp
next
  case (snoc c t)
  then show ?case
    using dec_value_snoc [of "s @ t" c] by simp
qed

text \<open>\<open>strtol(s, &end, 10)\<close>: the value, clamped to \<open>long\<close>, and the string \<open>end\<close> points to.\<close>

definition LONG_MAX :: int where "LONG_MAX = 2 ^ 63 - 1"

definition long_clamp :: "int \<Rightarrow> int" where
  "long_clamp x = max (- LONG_MAX - 1) (min LONG_MAX x)"

definition strtol :: "string \<Rightarrow> int \<times> string" where
  "strtol s =
     (let s1 = dropWhile is_space s;
          neg = (s1 \<noteq> [] \<and> hd s1 = CHR ''-'');
          s2 = (if s1 \<noteq> [] \<and> hd s1 \<in> {CHR ''-'', CHR ''+''} then tl s1 else s1);
          ds = takeWhile is_digit s2
      in if ds = [] then (0, s)
         else (long_clamp (if neg then - int (dec_value ds) else int (dec_value ds)),
               dropWhile is_digit s2))"

lemma strtol_digits:
  assumes "ds \<noteq> []" and "\<forall>c \<in> set ds. is_digit c" and "rest = [] \<or> \<not> is_digit (hd rest)"
  shows "strtol (ds @ rest) = (long_clamp (int (dec_value ds)), rest)"
proof -
  obtain d ds' where ds: "ds = d # ds'"
    using assms(1) by (cases ds) auto
  then have d: "is_digit d" using assms(2) by simp
  then have "\<not> is_space d" and "d \<noteq> CHR ''-''" and "d \<noteq> CHR ''+''"
    by (auto simp: is_digit_def is_space_def code_def)
  moreover have "takeWhile is_digit (ds @ rest) = ds" and "dropWhile is_digit (ds @ rest) = rest"
    using assms(2,3) by (cases rest; simp add: takeWhile_append dropWhile_append)+
  ultimately show ?thesis
    using ds by (simp add: strtol_def)
qed

text \<open>A decimal numeral, most significant digit first: what \<open>printf\<close>'s \<open>%u\<close> prints.\<close>

fun decimal :: "nat \<Rightarrow> string" where
  "decimal n = (if n < 10 then [char_of (48 + n)] else decimal (n div 10) @ [char_of (48 + n mod 10)])"

declare decimal.simps [simp del]

lemma digit_char_of: "n < 10 \<Longrightarrow> is_digit (char_of (48 + n)) \<and> digit (char_of (48 + n)) = n"
  by (simp add: is_digit_def digit_def code_def)

lemma decimal_digits: "decimal n \<noteq> [] \<and> (\<forall>c \<in> set (decimal n). is_digit c)"
proof (induction n rule: decimal.induct)
  case (1 n)
  then show ?case
    by (subst (1 2) decimal.simps) (simp add: digit_char_of)
qed

lemma dec_value_decimal [simp]: "dec_value (decimal n) = n"
proof (induction n rule: decimal.induct)
  case (1 n)
  show ?case
  proof (cases "n < 10")
    case True
    then show ?thesis
      using dec_value_snoc [of "[]" "char_of (48 + n)"] by (simp add: decimal.simps digit_char_of)
  next
    case False
    with 1 have "dec_value (decimal (n div 10)) = n div 10" by simp
    then show ?thesis
      using False by (subst decimal.simps) (simp add: digit_char_of)
  qed
qed

lemma strtol_decimal: "int n \<le> LONG_MAX \<Longrightarrow> strtol (decimal n) = (int n, [])"
  using strtol_digits [of "decimal n" "[]"] decimal_digits [of n]
  by (simp add: long_clamp_def LONG_MAX_def)

section \<open>strtok_s\<close>

text \<open>The first call of \<open>strtok_s\<close> on a string, after the text of the C11 standard: the token, and
  the string the saved pointer then points to. The size argument bounds the string and has no
  effect when it is the length with the NUL, as in \<open>src/uri.c\<close>.\<close>

definition strtok_c11 :: "string \<Rightarrow> nat \<Rightarrow> string \<Rightarrow> string option \<times> string option" where
  "strtok_c11 s n d =
     (let t = dropWhile (\<lambda>c. c \<in> set d) s in
      if t = [] then (None, None)
      else (Some (takeWhile (\<lambda>c. c \<notin> set d) t),
            (case dropWhile (\<lambda>c. c \<notin> set d) t of [] \<Rightarrow> None | _ # r \<Rightarrow> Some r)))"

end
