(* ===== verification/Sample.thy ===== *)
theory Sample
  imports World C_String
begin

text \<open>
  One concrete instance of the parameters of the model, on which the hypotheses of the properties
  hold: a little-endian host, byte order by \<open>test/tools/endian.h\<close>, the tokenizer of the C
  standard, a libuv that records the calls and reports success, and an application that records
  the events it is told of.
\<close>

type_synonym events = "(addr \<times> bytes option \<times> int) list"
type_synonym sample_world = "(string list, events) world"
type_synonym sample_env = "(string list, events) env"

definition linux :: platform where
  "linux =
     \<lparr>edom = 33,
      sys_errno = map_of
        [(''EPERM'', 1), (''ENOENT'', 2), (''EAGAIN'', 11), (''EINVAL'', 22), (''EPIPE'', 32),
         (''EADDRINUSE'', 98), (''ECONNRESET'', 104), (''ECONNREFUSED'', 111),
         (''EHOSTDOWN'', 112)],
      win32 = False, bsd = False\<rparr>"

definition note_event :: "addr \<times> bytes option \<times> int \<Rightarrow> (sample_world, unit) prog" where
  "note_event ev = upd (\<lambda>w. w\<lparr>app := app w @ [ev]\<rparr>)"

definition peek_msg :: "sample_world \<Rightarrow> addr \<Rightarrow> bytes" where
  "peek_msg w a =
     (case heap w a of
        Some (Msg m) \<Rightarrow> take (unat (musl_ntohl Little (load32 Little (size_be m)))) (msg_data m)
      | _ \<Rightarrow> [])"

definition sample_recv :: "fn \<Rightarrow> addr \<Rightarrow> addr option \<Rightarrow> int \<Rightarrow> (sample_world, unit) prog" where
  "sample_recv f s m e = bnd (gets peek_msg) (\<lambda>pk. note_event (s, map_option pk m, e))"

definition uv_log :: "string \<Rightarrow> string list \<Rightarrow> int \<times> string list" where
  "uv_log name u = (0, u @ [name])"

definition sample_env :: sample_env where
  "sample_env =
     \<lparr>plat = linux, host = Little, ctb_htonl = musl_htonl Little, ctb_ntohl = musl_ntohl Little,
      ctb_bzero = (\<lambda>n. replicate n 0), ctb_strdup = (\<lambda>s. malloc (Str s)),
      ctb_strtok_s = strtok_c11,
      call_event = (\<lambda>f s e. note_event (s, None, e)), call_recv = sample_recv,
      call_close = (\<lambda>f s. note_event (s, None, 0)),
      call_alloc = (\<lambda>f n. malloc (Msg \<lparr>size_be = replicate 4 0, msg_data = replicate (unat n) 0\<rparr>)),
      call_free = (\<lambda>f p. c_free p),
      uv_buf_init = (\<lambda>base n. \<lparr>buf_base = base, buf_len = ucast n\<rparr>),
      uv_pipe_init = (\<lambda>lp h ipc. uv_log ''pipe_init''), uv_tcp_init = (\<lambda>lp h. uv_log ''tcp_init''),
      uv_pipe_connect = (\<lambda>h path u. u @ [''pipe_connect '' @ path]),
      uv_ip4_addr = (\<lambda>ip port. (0, map (\<lambda>c. of_char c) ip @ [word_of_int (port div 256), word_of_int port])),
      uv_tcp_connect = (\<lambda>h sa. uv_log ''tcp_connect''),
      uv_pipe_bind = (\<lambda>h path. uv_log (''pipe_bind '' @ path)),
      uv_tcp_bind = (\<lambda>h sa fl. uv_log ''tcp_bind''), uv_listen = (\<lambda>h n. uv_log ''listen''),
      uv_accept = (\<lambda>s c. uv_log ''accept''), uv_read_start = (\<lambda>h. uv_log ''read_start''),
      uv_write = (\<lambda>h bufs. uv_log ''write''), uv_close = (\<lambda>h u. u @ [''close''])\<rparr>"

lemma sample_env_simps [simp]:
  "plat sample_env = linux" "host sample_env = Little"
  "ctb_htonl sample_env = musl_htonl Little" "ctb_ntohl sample_env = musl_ntohl Little"
  "ctb_bzero sample_env = (\<lambda>n. replicate n 0)" "ctb_strdup sample_env = (\<lambda>s. malloc (Str s))"
  "ctb_strtok_s sample_env = strtok_c11"
  "call_event sample_env = (\<lambda>f s e. note_event (s, None, e))"
  "call_recv sample_env = sample_recv"
  "call_close sample_env = (\<lambda>f s. note_event (s, None, 0))"
  "uv_buf_init sample_env = (\<lambda>base n. \<lparr>buf_base = base, buf_len = ucast n\<rparr>)"
  "uv_pipe_init sample_env = (\<lambda>lp h ipc. uv_log ''pipe_init'')"
  "uv_tcp_init sample_env = (\<lambda>lp h. uv_log ''tcp_init'')"
  "uv_pipe_connect sample_env = (\<lambda>h path u. u @ [''pipe_connect '' @ path])"
  "uv_ip4_addr sample_env = (\<lambda>ip port.
     (0, map (\<lambda>c. of_char c) ip @ [word_of_int (port div 256), word_of_int port]))"
  "uv_tcp_connect sample_env = (\<lambda>h sa. uv_log ''tcp_connect'')"
  "uv_pipe_bind sample_env = (\<lambda>h path. uv_log (''pipe_bind '' @ path))"
  "uv_tcp_bind sample_env = (\<lambda>h sa fl. uv_log ''tcp_bind'')"
  "uv_listen sample_env = (\<lambda>h n. uv_log ''listen'')"
  "uv_accept sample_env = (\<lambda>s c. uv_log ''accept'')"
  "uv_read_start sample_env = (\<lambda>h. uv_log ''read_start'')"
  "uv_write sample_env = (\<lambda>h bufs. uv_log ''write'')"
  "uv_close sample_env = (\<lambda>h u. u @ [''close''])"
  by (simp_all add: sample_env_def)

definition junk_watcher :: watcher where
  "junk_watcher =
     \<lparr>watcher_socket = 0, on_connect = Null_fn, on_connection = Null_fn, on_accept = Null_fn,
      on_recv = Null_fn, on_send = Null_fn, on_close = Null_fn\<rparr>"

text \<open>A world before anything was allocated, with \<open>sc_init\<close> done or not.\<close>

definition blank_world :: sample_world where
  "blank_world =
     \<lparr>heap = Map.empty, fresh = 0, malloc_ok = (\<lambda>_. True),
      junk_sock = \<lparr>userdata = Some 99, sock_backend = None, sock_uri = Some 98, sock_watcher = junk_watcher\<rparr>,
      junk_buv = \<lparr>uv_watcher = 0, stream_data = None, connect_data = None, write_data = None,
        write_buffers = [], uv_msg = Some 97,
        uv_reader = \<lparr>reader_msg = 0, head_pos = Size_be 0 0, body_pos = Data 0 0\<rparr>,
        uv_proto = PROTO_TCP, tcp_addr = []\<rparr>,
      junk_uri = \<lparr>uri_str = None, uri_proto = None, uri_slot0 = None, uri_slot1 = None\<rparr>,
      junk_byte = (\<lambda>_. 90), backend = None, buv_data = None, msg_alloc = Default_heap_alloc,
      msg_free = Default_heap_free, ndebug = False, stderr_lines = [], uv = [], app = []\<rparr>"

definition sample_world :: sample_world where
  "sample_world = blank_world\<lparr>heap := [0 \<mapsto> Uv_data 7], fresh := 1,
     backend := Some Buv_funcs, buv_data := Some 0\<rparr>"

lemma wf_sample [simp]: "wf_heap blank_world" "wf_heap sample_world"
  by (simp_all add: wf_heap_def blank_world_def sample_world_def)

lemma sample_world_simps [simp]:
  "heap sample_world = [0 \<mapsto> Uv_data 7]" "fresh sample_world = 1" "malloc_ok sample_world k"
  "backend sample_world = Some Buv_funcs" "buv_data sample_world = Some 0"
  "msg_alloc sample_world = Default_heap_alloc" "msg_free sample_world = Default_heap_free"
  "\<not> ndebug sample_world" "app sample_world = []" "uv sample_world = []" "stderr_lines sample_world = []"
  by (simp_all add: sample_world_def blank_world_def)

lemma blank_world_simps [simp]:
  "heap blank_world = Map.empty" "fresh blank_world = 0" "malloc_ok blank_world k"
  "backend blank_world = None"
  by (simp_all add: blank_world_def)

text \<open>The byte-order functions of the instance have the contract of the toolbelt's.\<close>

lemma sample_network_order [simp]: "network_order Little (musl_htonl Little) (musl_ntohl Little)"
  by (rule musl.network_order_axioms)

end
