(* ===== verification/Msg.thy ===== *)
theory Msg
  imports Sample
begin

text \<open>
  \<open>src/msg.c\<close>: allocation of messages through replaceable functions, and the big-endian size
  field. The contract of an allocator is a locale, which the default one (on \<open>malloc\<close> and
  \<open>free\<close>) satisfies.
\<close>

section \<open>The default allocator\<close>

text \<open>
  One block holds the structure and \<open>size\<close> bytes, \<open>data\<close> pointing at the latter. The result of
  \<open>malloc\<close> is not tested before \<open>msg->data\<close> is assigned.
\<close>

definition default_heap_alloc :: "u32 \<Rightarrow> (('u, 'a) world, addr option) prog" where
  "default_heap_alloc sz =
     bnd (gets junk_byte) (\<lambda>j.
     bnd (malloc (Msg \<lparr>size_be = map j [0..<4], msg_data = map j [4..<4 + unat sz]\<rparr>)) (\<lambda>p.
     bnd (deref p) (\<lambda>msg.
     ret (Some msg))))"

definition default_heap_free :: "addr option \<Rightarrow> (('u, 'a) world, unit) prog" where
  "default_heap_free msg = c_free msg"

section \<open>Operations\<close>

definition sc_msg_alloc :: "('u, 'a) env \<Rightarrow> u32 \<Rightarrow> (('u, 'a) world, addr option) prog" where
  "sc_msg_alloc E sz =
     bnd (gets msg_alloc) (\<lambda>f.
     case f of Default_heap_alloc \<Rightarrow> default_heap_alloc sz | User_alloc g \<Rightarrow> call_alloc E g sz)"

definition sc_msg_free :: "('u, 'a) env \<Rightarrow> addr option \<Rightarrow> (('u, 'a) world, unit) prog" where
  "sc_msg_free E msg =
     bnd (gets msg_free) (\<lambda>f.
     case f of Default_heap_free \<Rightarrow> default_heap_free msg | User_free g \<Rightarrow> call_free E g msg)"

definition sc_msg_set_size :: "('u, 'a) env \<Rightarrow> addr \<Rightarrow> u32 \<Rightarrow> (('u, 'a) world, unit) prog" where
  "sc_msg_set_size E msg sz =
     bnd (load_msg msg) (\<lambda>m.
     store msg (Msg (m\<lparr>size_be := store32 (host E) (ctb_htonl E sz)\<rparr>)))"

text \<open>The size field of a message as a number, and its reading through a pointer.\<close>

definition msg_size :: "('u, 'a) env \<Rightarrow> sc_msg \<Rightarrow> u32" where
  "msg_size E m = ctb_ntohl E (load32 (host E) (size_be m))"

definition sc_msg_get_size :: "('u, 'a) env \<Rightarrow> addr \<Rightarrow> (('u, 'a) world, u32) prog" where
  "sc_msg_get_size E msg = bnd (load_msg msg) (\<lambda>m. ret (msg_size E m))"

text \<open>\<open>sc_msg_init\<close> writes \<open>data[0]\<close>, which must exist.\<close>

definition sc_msg_init :: "('u, 'a) env \<Rightarrow> addr option \<Rightarrow> (('u, 'a) world, unit) prog" where
  "sc_msg_init E p =
     bnd (deref p) (\<lambda>msg.
     bnd (load_msg msg) (\<lambda>m.
     if msg_data m = [] then fail Out_Of_Bounds
     else store msg (Msg (m\<lparr>size_be := store32 (host E) 0, msg_data := (msg_data m)[0 := 0]\<rparr>))))"

definition sc_msg_init_allocator ::
    "alloc_fn option \<Rightarrow> free_fn option \<Rightarrow> (('u, 'a) world, unit) prog" where
  "sc_msg_init_allocator rec_alloc rec_free =
     seq (case rec_alloc of None \<Rightarrow> ret () | Some f \<Rightarrow> upd (\<lambda>w. w\<lparr>msg_alloc := f\<rparr>))
         (case rec_free of None \<Rightarrow> ret () | Some f \<Rightarrow> upd (\<lambda>w. w\<lparr>msg_free := f\<rparr>))"

section \<open>What an allocator promises\<close>

text \<open>
  A successful allocation yields a new message with room for the requested bytes and changes
  nothing else; releasing a message removes exactly it.
\<close>

locale msg_allocator =
  fixes alloc :: "u32 \<Rightarrow> (('u, 'a) world, addr option) prog"
    and release :: "addr option \<Rightarrow> (('u, 'a) world, unit) prog"
  assumes alloc_spec:
      "wf_heap w \<Longrightarrow> alloc n w = Inr (Some a, w') \<Longrightarrow>
       \<exists>m. heap w a = None \<and> length (size_be m) = 4 \<and> unat n \<le> length (msg_data m) \<and>
           wf_heap w' \<and> w' = w\<lparr>heap := (heap w)(a \<mapsto> Msg m), fresh := fresh w'\<rparr>"
    and release_spec:
      "heap w a = Some (Msg m) \<Longrightarrow>
       release (Some a) w = Inr ((), w\<lparr>heap := (heap w)(a := None)\<rparr>)"
begin

lemma alloc_release:
  assumes "wf_heap w" and "alloc n w = Inr (Some a, w')"
  shows "\<exists>w''. release (Some a) w' = Inr ((), w'') \<and> heap w'' = heap w"
proof -
  from alloc_spec [OF assms] obtain m where "heap w a = None"
    and w': "w' = w\<lparr>heap := (heap w)(a \<mapsto> Msg m), fresh := fresh w'\<rparr>"
    by blast
  have h: "heap w' = (heap w)(a \<mapsto> Msg m)"
    by (subst w') simp
  then have "release (Some a) w' = Inr ((), w'\<lparr>heap := (heap w')(a := None)\<rparr>)"
    by (intro release_spec) simp
  moreover have "(heap w')(a := None) = heap w"
    using h \<open>heap w a = None\<close> by (simp add: fun_upd_idem)
  ultimately show ?thesis by simp
qed

lemma alloc_fresh_block: "wf_heap w \<Longrightarrow> alloc n w = Inr (Some a, w') \<Longrightarrow> heap w a = None"
  using alloc_spec by blast

end

lemma default_heap_alloc_ok [step_simps]:
  "malloc_ok w (fresh w) \<Longrightarrow>
   default_heap_alloc n w =
     Inr (Some (fresh w),
       w\<lparr>heap := (heap w)(fresh w \<mapsto>
            Msg \<lparr>size_be = map (junk_byte w) [0..<4],
                 msg_data = map (junk_byte w) [4..<4 + unat n]\<rparr>),
         fresh := Suc (fresh w)\<rparr>)"
  by (simp add: default_heap_alloc_def malloc_def bnd_def)

lemma default_heap_alloc_fail [step_simps]:
  "\<not> malloc_ok w (fresh w) \<Longrightarrow> default_heap_alloc n w = Inl Null_Deref"
  by (simp add: default_heap_alloc_def malloc_def bnd_def)

interpretation heap_msgs: msg_allocator
  "default_heap_alloc :: u32 \<Rightarrow> (('u, 'a) world, addr option) prog"
  "default_heap_free :: addr option \<Rightarrow> (('u, 'a) world, unit) prog"
proof unfold_locales
  fix w :: "('u, 'a) world" and n a w'
  assume wf: "wf_heap w" and al: "default_heap_alloc n w = Inr (Some a, w')"
  from al have ok: "malloc_ok w (fresh w)"
    by (cases "malloc_ok w (fresh w)") (simp_all add: default_heap_alloc_fail)
  with wf al show "\<exists>m. heap w a = None \<and> length (size_be m) = 4 \<and> unat n \<le> length (msg_data m) \<and>
      wf_heap w' \<and> w' = w\<lparr>heap := (heap w)(a \<mapsto> Msg m), fresh := fresh w'\<rparr>"
    by (intro exI [of _ "\<lparr>size_be = map (junk_byte w) [0..<4],
          msg_data = map (junk_byte w) [4..<4 + unat n]\<rparr>"])
      (auto simp: default_heap_alloc_ok wf_heap_fresh wf_heap_def less_Suc_eq)
next
  fix w :: "('u, 'a) world" and a m
  assume "heap w a = Some (Msg m)"
  then show "default_heap_free (Some a) w = Inr ((), w\<lparr>heap := (heap w)(a := None)\<rparr>)"
    by (simp add: default_heap_free_def)
qed

section \<open>The size field\<close>

text \<open>The contract of the toolbelt's byte-order functions, on the parameters of the model.\<close>

abbreviation ctb_network_order :: "('u, 'a) env \<Rightarrow> bool" where
  "ctb_network_order E \<equiv> network_order (host E) (ctb_htonl E) (ctb_ntohl E)"

lemma unat_msg_size:
  "ctb_network_order E \<Longrightarrow> length (size_be m) = 4 \<Longrightarrow> unat (msg_size E m) = be_value (size_be m)"
  by (simp add: msg_size_def network_order.unat_ntohl_load)

lemma sc_msg_set_size_wire:
  "ctb_network_order E \<Longrightarrow> heap w a = Some (Msg m) \<Longrightarrow>
   sc_msg_set_size E a n w = Inr ((), w\<lparr>heap := (heap w)(a \<mapsto> Msg (m\<lparr>size_be := be_bytes n\<rparr>))\<rparr>)"
  by (simp add: sc_msg_set_size_def network_order.store_htonl)

text \<open>What was set is what is got, whatever the byte order of the host.\<close>

lemma get_after_set:
  assumes "ctb_network_order E" and "heap w a = Some (Msg m)"
  shows "bnd (sc_msg_set_size E a n) (\<lambda>_. sc_msg_get_size E a) w =
    Inr (n, w\<lparr>heap := (heap w)(a \<mapsto> Msg (m\<lparr>size_be := be_bytes n\<rparr>))\<rparr>)"
  using assms
  by (simp add: sc_msg_set_size_def sc_msg_get_size_def msg_size_def network_order.store_htonl
      network_order.ntohl_load)

lemma wf_heap_default_alloc [keeps_intros]: "keeps wf_heap (default_heap_alloc n)"
  unfolding default_heap_alloc_def by (intro keeps_intros)

lemma wf_heap_set_size [keeps_intros]: "keeps wf_heap (sc_msg_set_size E a n)"
  unfolding sc_msg_set_size_def by (intro keeps_intros)

lemma wf_heap_get_size [keeps_intros]: "keeps wf_heap (sc_msg_get_size E a)"
  unfolding sc_msg_get_size_def by (intro keeps_intros)

lemma wf_heap_msg_init [keeps_intros]: "keeps wf_heap (sc_msg_init E p)"
  unfolding sc_msg_init_def by (intro keeps_intros)

section \<open>Properties\<close>

text \<open>Setting a message's size stores it in network order, whatever the host's byte order,
  touches nothing but that field, and \<open>sc_msg_get_size\<close> then returns it.\<close>

theorem msg_size_roundtrip:
  assumes "ctb_network_order E" and "heap w a = Some (Msg m)"
  shows "bnd (sc_msg_set_size E a n) (\<lambda>_. sc_msg_get_size E a) w =
    Inr (n, w\<lparr>heap := (heap w)(a \<mapsto> Msg (m\<lparr>size_be := be_bytes n\<rparr>))\<rparr>)"
  by (rule get_after_set [OF assms])

theorem msg_size_roundtrip_witness:
  "\<exists>w. bnd (sc_msg_set_size sample_env 3 258) (\<lambda>_. sc_msg_get_size sample_env 3)
      (sample_world\<lparr>heap := [3 \<mapsto> Msg \<lparr>size_be = [9, 9, 9, 9], msg_data = [1, 2]\<rparr>]\<rparr>) = Inr (258, w) \<and>
    heap w 3 = Some (Msg \<lparr>size_be = [0, 0, 1, 2], msg_data = [1, 2]\<rparr>)"
  using msg_size_roundtrip [of sample_env "sample_world\<lparr>heap :=
      [3 \<mapsto> Msg \<lparr>size_be = [9, 9, 9, 9], msg_data = [1, 2]\<rparr>]\<rparr>" 3
      "\<lparr>size_be = [9, 9, 9, 9], msg_data = [1, 2]\<rparr>" 258]
  by (simp add: be_bytes_def byte_of_def unsigned_take_bit_eq)

text \<open>\<open>sc_msg_alloc\<close> with the default allocator gives a message of its own, with room for the
  bytes asked for, and \<open>sc_msg_free\<close> then leaves the heap as it was before.\<close>

theorem msg_alloc_free:
  assumes "wf_heap w" and "msg_alloc w = Default_heap_alloc" and "msg_free w = Default_heap_free"
    and "malloc_ok w (fresh w)"
  shows "\<exists>a w' m w''. sc_msg_alloc E n w = Inr (Some a, w') \<and> heap w a = None \<and>
    heap w' = (heap w)(a \<mapsto> Msg m) \<and> length (msg_data m) = unat n \<and> length (size_be m) = 4 \<and>
    sc_msg_free E (Some a) w' = Inr ((), w'') \<and> heap w'' = heap w"
proof -
  let ?a = "fresh w"
  let ?m = "\<lparr>size_be = map (junk_byte w) [0..<4], msg_data = map (junk_byte w) [4..<4 + unat n]\<rparr>"
  let ?w' = "w\<lparr>heap := (heap w)(?a \<mapsto> Msg ?m), fresh := Suc ?a\<rparr>"
  have al: "default_heap_alloc n w = Inr (Some ?a, ?w')"
    using assms(4) by (rule default_heap_alloc_ok)
  from heap_msgs.alloc_release [OF assms(1) al] obtain w'' where
    "default_heap_free (Some ?a) ?w' = Inr ((), w'')" "heap w'' = heap w" by blast
  then have "sc_msg_free E (Some ?a) ?w' = Inr ((), w'')"
    using assms(3) by (simp add: sc_msg_free_def)
  moreover have "sc_msg_alloc E n w = Inr (Some ?a, ?w')"
    using assms(2) al by (simp add: sc_msg_alloc_def)
  ultimately show ?thesis
    using heap_msgs.alloc_fresh_block [OF assms(1) al] \<open>heap w'' = heap w\<close>
    by (intro exI [of _ ?a] exI [of _ ?w'] exI [of _ ?m] exI [of _ w'']) simp
qed

theorem msg_alloc_free_witness:
  "\<exists>a w' m w''. sc_msg_alloc sample_env 16 sample_world = Inr (Some a, w') \<and>
    heap w' = [0 \<mapsto> Uv_data 7, a \<mapsto> Msg m] \<and> length (msg_data m) = 16 \<and>
    sc_msg_free sample_env (Some a) w' = Inr ((), w'') \<and> heap w'' = [0 \<mapsto> Uv_data 7]"
  using msg_alloc_free [of sample_world sample_env 16] by auto

text \<open>The default allocator does not test the result of \<open>malloc\<close>: without memory the pointer
  is used all the same, and no caller gets to see the failure.\<close>

theorem msg_alloc_no_memory:
  assumes "msg_alloc w = Default_heap_alloc" and "\<not> malloc_ok w (fresh w)"
  shows "sc_msg_alloc E n w = Inl Null_Deref"
  using assms by (simp add: sc_msg_alloc_def default_heap_alloc_fail)

theorem msg_alloc_no_memory_witness:
  "sc_msg_alloc sample_env 8 (sample_world\<lparr>malloc_ok := \<lambda>_. False\<rparr>) = Inl Null_Deref"
  by (rule msg_alloc_no_memory) simp_all

end
