(* ===== verification/Msg_Reader.thy ===== *)
theory Msg_Reader
  imports Msg
begin

text \<open>
  \<open>src/msg_reader.c\<close>: the incremental reader of one message. The structure is passed by value
  and returned; the message it fills is reached through the heap. All counts are \<open>unsigned\<close>, so
  differences wrap; the invariant below is what keeps them from doing so.
\<close>

section \<open>Operations\<close>

definition msg_reader_init :: "addr \<Rightarrow> (('u, 'a) world, msg_reader) prog" where
  "msg_reader_init msg =
     bnd (load_msg msg) (\<lambda>_.
     ret \<lparr>reader_msg = msg, head_pos = Size_be msg 0, body_pos = Data msg 0\<rparr>)"

definition skip_pos :: "ptr \<Rightarrow> u32 \<Rightarrow> u32 \<Rightarrow> ptr \<times> u32" where
  "skip_pos pos avail sz =
     (let skip = (if avail < sz then avail else sz) in (ptr_add pos (unat skip), sz - skip))"

definition msg_reader_head_pos :: "msg_reader \<Rightarrow> ptr" where
  "msg_reader_head_pos reader = head_pos reader"

definition msg_reader_body_pos :: "msg_reader \<Rightarrow> ptr" where
  "msg_reader_body_pos reader = body_pos reader"

definition msg_reader_avail_head_size :: "msg_reader \<Rightarrow> (('u, 'a) world, u32) prog" where
  "msg_reader_avail_head_size reader =
     (case ptr_diff (head_pos reader) (Size_be (reader_msg reader) 0) of
        None \<Rightarrow> fail Bad_Pointer
      | Some used \<Rightarrow> ret (SC_MSG_SIZE_BYTES - to_unsigned used))"

definition msg_reader_avail_body_size ::
    "('u, 'a) env \<Rightarrow> msg_reader \<Rightarrow> (('u, 'a) world, u32) prog" where
  "msg_reader_avail_body_size E reader =
     bnd (load_msg (reader_msg reader)) (\<lambda>_.
     case ptr_diff (body_pos reader) (Data (reader_msg reader) 0) of
        None \<Rightarrow> fail Bad_Pointer
      | Some used \<Rightarrow>
          bnd (sc_msg_get_size E (reader_msg reader)) (\<lambda>sz. ret (sz - to_unsigned used)))"

definition msg_reader_parse_head ::
    "msg_reader \<Rightarrow> u32 \<Rightarrow> (('u, 'a) world, msg_reader \<times> u32) prog" where
  "msg_reader_parse_head reader sz =
     bnd (msg_reader_avail_head_size reader) (\<lambda>avail.
     let (pos, left) = skip_pos (head_pos reader) avail sz
     in ret (reader\<lparr>head_pos := pos\<rparr>, left))"

definition msg_reader_parse_body ::
    "('u, 'a) env \<Rightarrow> msg_reader \<Rightarrow> u32 \<Rightarrow> (('u, 'a) world, msg_reader \<times> u32) prog" where
  "msg_reader_parse_body E reader sz =
     bnd (msg_reader_avail_body_size E reader) (\<lambda>avail.
     let (pos, left) = skip_pos (body_pos reader) avail sz
     in ret (reader\<lparr>body_pos := pos\<rparr>, left))"

definition msg_reader_finished :: "('u, 'a) env \<Rightarrow> msg_reader \<Rightarrow> (('u, 'a) world, bool) prog" where
  "msg_reader_finished E reader =
     bnd (msg_reader_avail_body_size E reader) (\<lambda>n. ret (n = 0))"

section \<open>The invariant\<close>

text \<open>
  A reader of message \<open>m\<close> that has taken \<open>h\<close> bytes of the head and \<open>b\<close> of the body: it
  never stands past the end of either part.
\<close>

definition reader_at :: "nat \<Rightarrow> nat \<Rightarrow> addr \<Rightarrow> msg_reader" where
  "reader_at h b a = \<lparr>reader_msg = a, head_pos = Size_be a h, body_pos = Data a b\<rparr>"

lemma reader_at_simps [simp]:
  "reader_msg (reader_at h b a) = a"
  "head_pos (reader_at h b a) = Size_be a h"
  "body_pos (reader_at h b a) = Data a b"
  "(reader_at h b a)\<lparr>head_pos := Size_be a h'\<rparr> = reader_at h' b a"
  "(reader_at h b a)\<lparr>body_pos := Data a b'\<rparr> = reader_at h b' a"
  by (simp_all add: reader_at_def)

lemma skip_pos_fits: "n \<le> avail \<Longrightarrow> skip_pos pos avail n = (ptr_add pos (unat n), 0)"
  by (auto simp: skip_pos_def Let_def)

lemma skip_pos_exceeds: "avail \<le> n \<Longrightarrow> skip_pos pos avail n = (ptr_add pos (unat avail), n - avail)"
  by (auto simp: skip_pos_def Let_def)

lemma reader_init [step_simps]:
  "heap w a = Some (Msg m) \<Longrightarrow> msg_reader_init a w = Inr (reader_at 0 0 a, w)"
  by (simp add: msg_reader_init_def reader_at_def)

lemma avail_head [step_simps]:
  "msg_reader_avail_head_size (reader_at h b a) w = Inr (4 - of_nat h, w)"
  by (simp add: msg_reader_avail_head_size_def SC_MSG_SIZE_BYTES_def)

lemma avail_body [step_simps]:
  "heap w a = Some (Msg m) \<Longrightarrow>
   msg_reader_avail_body_size E (reader_at h b a) w = Inr (msg_size E m - of_nat b, w)"
  by (simp add: msg_reader_avail_body_size_def sc_msg_get_size_def)

text \<open>Within the invariant the two differences are the true ones.\<close>

lemma unat_avail_head: "h \<le> 4 \<Longrightarrow> unat (4 - of_nat h :: u32) = 4 - h"
proof -
  assume h: "h \<le> 4"
  have "of_nat h \<le> (4 :: u32)"
    using h by (simp add: word_le_nat_alt unat_of_nat)
  then show ?thesis
    using h by (simp add: unat_sub unat_of_nat)
qed

lemma unat_avail_body:
  assumes "b \<le> unat (s :: u32)"
  shows "unat (s - of_nat b) = unat s - b"
proof -
  have b: "unat (of_nat b :: u32) = b"
    using assms unsigned_less [of s, where 'a = nat] by (simp add: unat_of_nat)
  then have "of_nat b \<le> s"
    using assms by (simp add: word_le_nat_alt)
  then show ?thesis
    by (simp add: unat_sub b)
qed

lemma parse_head [step_simps]:
  assumes "h \<le> 4" and "unat n \<le> 4 - h"
  shows "msg_reader_parse_head (reader_at h b a) n w = Inr ((reader_at (h + unat n) b a, 0), w)"
proof -
  have "n \<le> 4 - of_nat h"
    using assms by (simp add: word_le_nat_alt unat_avail_head)
  then show ?thesis
    by (simp add: msg_reader_parse_head_def avail_head skip_pos_fits)
qed

lemma parse_body [step_simps]:
  assumes "heap w a = Some (Msg m)" and "b \<le> unat (msg_size E m)"
    and "unat n \<le> unat (msg_size E m) - b"
  shows "msg_reader_parse_body E (reader_at h b a) n w = Inr ((reader_at h (b + unat n) a, 0), w)"
proof -
  have "n \<le> msg_size E m - of_nat b"
    using assms by (simp add: word_le_nat_alt unat_avail_body)
  with assms(1) show ?thesis
    by (simp add: msg_reader_parse_body_def avail_body skip_pos_fits)
qed

lemma finished [step_simps]:
  assumes "heap w a = Some (Msg m)" and "b \<le> unat (msg_size E m)"
  shows "msg_reader_finished E (reader_at h b a) w = Inr (b = unat (msg_size E m), w)"
proof -
  have "msg_size E m - of_nat b = 0 \<longleftrightarrow> b = unat (msg_size E m)"
    using assms(2) unat_avail_body [OF assms(2)] by (auto simp: unat_eq_0 [symmetric])
  with assms(1) show ?thesis
    by (simp add: msg_reader_finished_def avail_body)
qed

lemma keeps_reader [keeps_intros]:
  "keeps I (msg_reader_avail_head_size r)" "keeps I (msg_reader_avail_body_size E r)"
  "keeps I (msg_reader_parse_head r n)" "keeps I (msg_reader_parse_body E r n)"
  "keeps I (msg_reader_finished E r)" "keeps I (msg_reader_init a)"
  unfolding msg_reader_avail_head_size_def msg_reader_avail_body_size_def sc_msg_get_size_def
    msg_reader_parse_head_def msg_reader_parse_body_def msg_reader_finished_def
    msg_reader_init_def Let_def case_prod_unfold
  by (intro keeps_intros)+

section \<open>Any division into pieces\<close>

text \<open>What a call takes, and what it leaves: no more than is missing, and no wrap-around.\<close>

lemma skip_pos_eq:
  "skip_pos pos avail n =
     (ptr_add pos (min (unat avail) (unat n)), of_nat (unat n - min (unat avail) (unat n)))"
proof (cases "avail < n")
  case True
  then have "avail \<le> n" and "unat avail \<le> unat n"
    by (simp_all add: word_less_nat_alt word_le_nat_alt)
  then show ?thesis
    by (simp add: skip_pos_exceeds min_absorb1 of_nat_diff)
next
  case False
  then have "n \<le> avail" and "unat n \<le> unat avail"
    by (simp_all add: word_le_nat_alt not_less)
  then show ?thesis
    by (simp add: skip_pos_fits min_absorb2)
qed

lemma parse_head_any:
  "h \<le> 4 \<Longrightarrow> msg_reader_parse_head (reader_at h b a) n w =
     Inr ((reader_at (min 4 (h + unat n)) b a, of_nat (unat n - (4 - h))), w)"
  by (auto simp: msg_reader_parse_head_def avail_head skip_pos_eq unat_avail_head min_def)

lemma parse_body_any:
  assumes "heap w a = Some (Msg m)" and "b \<le> unat (msg_size E m)"
  shows "msg_reader_parse_body E (reader_at h b a) n w =
     Inr ((reader_at h (min (unat (msg_size E m)) (b + unat n)) a,
           of_nat (unat n - (unat (msg_size E m) - b))), w)"
  using assms by (auto simp: msg_reader_parse_body_def avail_body skip_pos_eq unat_avail_body min_def)

fun parse_heads :: "msg_reader \<Rightarrow> u32 list \<Rightarrow> (('u, 'a) world, msg_reader) prog" where
  "parse_heads r [] = ret r"
| "parse_heads r (n # ns) = bnd (msg_reader_parse_head r n) (\<lambda>(r, _). parse_heads r ns)"

fun parse_bodies ::
    "('u, 'a) env \<Rightarrow> msg_reader \<Rightarrow> u32 list \<Rightarrow> (('u, 'a) world, msg_reader) prog" where
  "parse_bodies E r [] = ret r"
| "parse_bodies E r (n # ns) = bnd (msg_reader_parse_body E r n) (\<lambda>(r, _). parse_bodies E r ns)"

lemma parse_heads_eq:
  assumes "h \<le> 4"
  shows "parse_heads (reader_at h b a) ns w =
     Inr (reader_at (min 4 (h + sum_list (map unat ns))) b a, w)"
  using assms
proof (induction ns arbitrary: h)
  case Nil
  then show ?case by (simp add: min_absorb2)
next
  case (Cons n ns)
  have "min 4 (h + unat n) \<le> 4" by simp
  from Cons.IH [OF this] Cons.prems show ?case
    by (simp add: parse_head_any min_def)
qed

lemma parse_bodies_eq:
  assumes "heap w a = Some (Msg m)" and "b \<le> unat (msg_size E m)"
  shows "parse_bodies E (reader_at h b a) ns w =
     Inr (reader_at h (min (unat (msg_size E m)) (b + sum_list (map unat ns))) a, w)"
  using assms(2)
proof (induction ns arbitrary: b)
  case Nil
  then show ?case by (simp add: min_absorb2)
next
  case (Cons n ns)
  let ?s = "unat (msg_size E m)"
  have "min ?s (b + unat n) \<le> ?s" by simp
  from Cons.IH [OF this] Cons.prems assms(1) show ?case
    by (simp add: parse_body_any min_def)
qed

section \<open>Properties\<close>

text \<open>C34: Reading a head: however the bytes of the size field are counted in, in pieces of any
  sizes, the reader stands after as many of them as came, and never past the fourth; the counts
  left over are exact (no difference wraps).\<close>

theorem reader_head_pieces:
  assumes "h \<le> 4"
  shows "parse_heads (reader_at h b a) ns w = Inr (reader_at (min 4 (h + sum_list (map unat ns))) b a, w)
    \<and> (\<exists>r left. msg_reader_parse_head (reader_at h b a) n w = Inr ((r, left), w) \<and>
         unat left = unat n - (4 - h))"
proof -
  have "unat (of_nat (unat n - (4 - h)) :: u32) = unat n - (4 - h)"
    using unsigned_less [of n, where 'a = nat] by (simp add: unat_of_nat)
  with assms show ?thesis
    by (simp add: parse_heads_eq parse_head_any)
qed

theorem reader_head_pieces_witness:
  "parse_heads (reader_at 1 0 5) [2, 7] sample_world = Inr (reader_at 4 0 5, sample_world) \<and>
   (\<exists>r left. msg_reader_parse_head (reader_at 1 0 5) 10 sample_world = Inr ((r, left), sample_world) \<and>
         unat left = 7)"
  using reader_head_pieces [of 1 0 5 "[2, 7]" sample_world 10] by simp

text \<open>C33: Reading a body: however it is divided, the reader stops at the size in the message's
  head, and \<open>msg_reader_finished\<close> says exactly whether that many bytes have come.\<close>

theorem reader_body_pieces:
  assumes "heap w a = Some (Msg m)" and "b \<le> unat (msg_size E m)"
  shows "bnd (parse_bodies E (reader_at h b a) ns) (msg_reader_finished E) w =
    Inr (unat (msg_size E m) \<le> b + sum_list (map unat ns), w)"
proof -
  let ?k = "min (unat (msg_size E m)) (b + sum_list (map unat ns))"
  have "msg_reader_finished E (reader_at h ?k a) w = Inr (?k = unat (msg_size E m), w)"
    using assms(1) by (intro finished) simp_all
  then show ?thesis
    using parse_bodies_eq [OF assms] by (auto simp: min_def)
qed

theorem reader_body_pieces_witness:
  "\<exists>w :: sample_world. bnd (parse_bodies sample_env (reader_at 4 1 3) [2, 3])
     (msg_reader_finished sample_env) w = Inr (True, w)"
proof -
  let ?m = "\<lparr>size_be = [0, 0, 0, 5], msg_data = [1, 2, 3, 4, 5, 6]\<rparr>"
  let ?w = "sample_world\<lparr>heap := [3 \<mapsto> Msg ?m]\<rparr>"
  have "unat (msg_size sample_env ?m) = 5"
    using unat_msg_size [of sample_env ?m] by simp
  then have "bnd (parse_bodies sample_env (reader_at 4 1 3) [2, 3]) (msg_reader_finished sample_env) ?w
      = Inr (True, ?w)"
    using reader_body_pieces [of ?w 3 ?m 1 sample_env 4 "[2, 3]"] by simp
  then show ?thesis ..
qed

end
