(* ===== verification/Uri.thy ===== *)
theory Uri
  imports Sample
begin

text \<open>
  \<open>src/uri.c\<close>: parsing \<open>pipe://path\<close> and \<open>tcp://ip4:port\<close>. The tokenizer \<open>ctb_strtok_s\<close> and
  \<open>ctb_strdup\<close> are the C toolbelt's; what their documentation (C11, K.3.7.3.1, and POSIX)
  promises are the locale \<open>strtok_s\<close> and the predicate \<open>strdup_mallocs\<close>.
\<close>

section \<open>Dotted quads\<close>

text \<open>
  The loop of \<open>check_ip4\<close>, with the array \<open>tmp\<close>, the index \<open>tp\<close> into it, \<open>saw_digit\<close> and
  \<open>octets\<close>. A write outside \<open>tmp\<close> is a fault.
\<close>

fun check_ip4_loop :: "u8 list \<Rightarrow> nat \<Rightarrow> bool \<Rightarrow> nat \<Rightarrow> string \<Rightarrow> fault + bool" where
  "check_ip4_loop tmp tp saw_digit octets [] = Inr (\<not> octets < 4)"
| "check_ip4_loop tmp tp saw_digit octets (ch # src) =
     (case strchr ''0123456789'' ch of
        Some pch \<Rightarrow>
          if length tmp \<le> tp then Inl Out_Of_Bounds
          else
            let new = unat (tmp ! tp) * 10 + pch in
            if 255 < new then Inr False
            else if \<not> saw_digit then
              if 4 < octets + 1 then Inr False
              else check_ip4_loop (tmp[tp := of_nat new]) tp True (octets + 1) src
            else check_ip4_loop (tmp[tp := of_nat new]) tp saw_digit octets src
      | None \<Rightarrow>
          if ch = CHR ''.'' \<and> saw_digit then
            if octets = 4 then Inr False
            else if length tmp \<le> tp + 1 then Inl Out_Of_Bounds
            else check_ip4_loop (tmp[tp + 1 := 0]) (tp + 1) False octets src
          else Inr False)"

definition check_ip4 :: "string option \<Rightarrow> fault + bool" where
  "check_ip4 p =
     (case p of None \<Rightarrow> Inl Null_Deref | Some src \<Rightarrow> check_ip4_loop [0, 0, 0, 0] 0 False 0 src)"

text \<open>What it should accept: four fields of digits, separated by dots, each at most 255.\<close>

fun dot_fields :: "string \<Rightarrow> string list" where
  "dot_fields [] = [[]]"
| "dot_fields (c # s) =
     (if c = CHR ''.'' then [] # dot_fields s
      else (c # hd (dot_fields s)) # tl (dot_fields s))"

definition octet :: "string \<Rightarrow> bool" where
  "octet f \<longleftrightarrow> f \<noteq> [] \<and> (\<forall>c \<in> set f. is_digit c) \<and> dec_value f \<le> 255"

definition dotted_quad :: "string \<Rightarrow> bool" where
  "dotted_quad s \<longleftrightarrow> length (dot_fields s) = 4 \<and> (\<forall>f \<in> set (dot_fields s). octet f)"

lemma dot_fields_not_Nil [simp]: "dot_fields s \<noteq> []"
  by (cases s) auto

lemma octet_prefix: "octet (xs @ ys) \<Longrightarrow> dec_value xs \<le> 255"
  using dec_value_append_ge [of xs ys] by (auto simp: octet_def)

text \<open>
  The loop, started in the middle: \<open>k\<close> fields done and the digits \<open>cur\<close> of the next one read.
\<close>

lemma check_ip4_loop_eq:
  assumes "length tmp = 4" and "k \<le> 3" and "unat (tmp ! k) = dec_value cur"
    and "\<forall>c \<in> set cur. is_digit c" and "dec_value cur \<le> 255"
  shows "check_ip4_loop tmp k (cur \<noteq> []) (k + (if cur = [] then 0 else 1)) s =
    Inr (let fs = (cur @ hd (dot_fields s)) # tl (dot_fields s)
         in k + length fs = 4 \<and> (\<forall>f \<in> set fs. octet f))"
  using assms
proof (induction s arbitrary: tmp k cur)
  case Nil
  then show ?case by (auto simp: octet_def)
next
  case (Cons ch s)
  have not_digit_dot: "\<not> is_digit (CHR ''.'')"
    by (simp add: is_digit_def code_def)
  consider (digit) "is_digit ch" | (dot) "ch = CHR ''.''" "cur \<noteq> []"
    | (other) "\<not> is_digit ch" "ch = CHR ''.'' \<longrightarrow> cur = []"
    using not_digit_dot by blast
  then show ?case
  proof cases
    case digit
    let ?new = "dec_value (cur @ [ch])"
    have ch: "ch \<noteq> CHR ''.''"
      using digit not_digit_dot by auto
    show ?thesis
    proof (cases "255 < ?new")
      case True
      then have "\<not> octet (cur @ ch # hd (dot_fields s))"
        using octet_prefix [of "cur @ [ch]" "hd (dot_fields s)"] by auto
      with True digit ch Cons.prems show ?thesis
        by (simp add: strchr_digits Let_def)
    next
      case False
      have "unat (of_nat ?new :: u8) = ?new"
        by (subst unat_of_nat) (use False in simp)
      then have "check_ip4_loop (tmp[k := of_nat ?new]) k (cur @ [ch] \<noteq> [])
          (k + (if cur @ [ch] = [] then 0 else 1)) s =
        Inr (let fs = ((cur @ [ch]) @ hd (dot_fields s)) # tl (dot_fields s)
             in k + length fs = 4 \<and> (\<forall>f \<in> set fs. octet f))"
        using Cons.prems False digit by (intro Cons.IH) (auto simp del: of_nat_add of_nat_mult)
      with False digit ch Cons.prems show ?thesis
        by (cases "cur = []") (simp_all add: strchr_digits Let_def)
    qed
  next
    case dot
    show ?thesis
    proof (cases "k = 3")
      case True
      with dot Cons.prems not_digit_dot show ?thesis
        by (simp add: strchr_digits Let_def)
    next
      case False
      have "check_ip4_loop (tmp[k + 1 := 0]) (k + 1) ([] \<noteq> ([] :: string))
          (k + 1 + (if ([] :: string) = [] then 0 else 1)) s =
        Inr (let fs = ([] @ hd (dot_fields s)) # tl (dot_fields s)
             in k + 1 + length fs = 4 \<and> (\<forall>f \<in> set fs. octet f))"
        using Cons.prems False by (intro Cons.IH) auto
      with False dot Cons.prems not_digit_dot show ?thesis
        by (simp add: strchr_digits Let_def octet_def)
    qed
  next
    case other
    then have "\<not> octet (cur @ hd (dot_fields (ch # s)))"
      using not_digit_dot by (auto simp: octet_def)
    with other show ?thesis
      by (auto simp: strchr_digits Let_def)
  qed
qed

lemma check_ip4_eq: "check_ip4 (Some s) = Inr (dotted_quad s)"
  using check_ip4_loop_eq [of "[0, 0, 0, 0]" 0 "[]" s]
  by (simp add: check_ip4_def dotted_quad_def Let_def)

section \<open>Ports and protocols\<close>

definition check_port :: "string \<Rightarrow> bool" where
  "check_port port =
     (let (num, end) = strtol port in
      if port = end then False else if num < 1 \<or> num > 65535 then False else True)"

definition is_protocol_known :: "string \<Rightarrow> bool" where
  "is_protocol_known proto \<longleftrightarrow> proto = ''pipe'' \<or> proto = ''tcp''"

section \<open>Parsing\<close>

text \<open>
  The part of \<open>sc_uri_new\<close> that works on the copied string \<open>str\<close>: either the error code with
  which it goes to \<open>cleanup\<close>, or the values of \<open>proto\<close> and of the two pointer slots of the
  union (the second is not assigned for a pipe). \<open>strcmp\<close> on a NULL token is a fault.
\<close>

definition uri_parse ::
    "('u, 'a) env \<Rightarrow> string \<Rightarrow> fault + (int + string \<times> string \<times> string option)" where
  "uri_parse E str =
     (let (proto, rest) = ctb_strtok_s E str (length str + 1) '':'' in
      case rest of
        None \<Rightarrow> Inr (Inl SC_EURIPARSE)
      | Some path \<Rightarrow>
          (case proto of
             None \<Rightarrow> Inl Null_Deref
           | Some pr \<Rightarrow>
               if \<not> is_protocol_known pr then Inr (Inl SC_EINVPROTO)
               else if length path \<le> 2 then Inr (Inl SC_EURIPARSE)
               else if path ! 0 \<noteq> CHR ''/'' then Inr (Inl SC_EURIPARSE)
               else if path ! 1 \<noteq> CHR ''/'' then Inr (Inl SC_EURIPARSE)
               else if pr = ''pipe'' then Inr (Inr (pr, drop 2 path, None))
               else
                 (let (ip4, port) = ctb_strtok_s E (drop 2 path) (length (drop 2 path) + 1) '':'' in
                  case check_ip4 ip4 of
                    Inl f \<Rightarrow> Inl f
                  | Inr ok \<Rightarrow>
                      if \<not> ok then Inr (Inl SC_EURIPARSE)
                      else
                        (case port of
                           None \<Rightarrow> Inr (Inl SC_EURIPARSE)
                         | Some p \<Rightarrow>
                             if \<not> check_port p then Inr (Inl SC_EURIPARSE)
                             else Inr (Inr (pr, the ip4, Some p))))))"

definition load_str :: "addr \<Rightarrow> (('u, 'a) world, string) prog" where
  "load_str a w = (case heap w a of Some (Str s) \<Rightarrow> Inr (s, w) | _ \<Rightarrow> Inl Bad_Pointer)"

text \<open>\<open>sc_uri_new\<close> returns the pointer and the final value of \<open>*errcode\<close>.\<close>

definition sc_uri_new ::
    "('u, 'a) env \<Rightarrow> string \<Rightarrow> (('u, 'a) world, addr option \<times> int) prog" where
  "sc_uri_new E instr =
     bnd (gets junk_uri) (\<lambda>j.
     bnd (malloc (Uri j)) (\<lambda>p.
     case p of
       None \<Rightarrow> ret (None, SC_ENOMEM)
     | Some u \<Rightarrow>
         bnd (ctb_strdup E instr) (\<lambda>q.
         seq (store u (Uri (j\<lparr>uri_str := q\<rparr>)))
         (case q of
            None \<Rightarrow> seq (c_free (Some u)) (ret (None, SC_ENOMEM))
          | Some sa \<Rightarrow>
              bnd (load_str sa) (\<lambda>str.
              case uri_parse E str of
                Inl f \<Rightarrow> fail f
              | Inr (Inl e) \<Rightarrow> seq (c_free q) (seq (c_free (Some u)) (ret (None, e)))
              | Inr (Inr (pr, x, y)) \<Rightarrow>
                  seq (store u (Uri (j\<lparr>uri_str := q, uri_proto := Some pr, uri_slot0 := Some x,
                         uri_slot1 := (if y = None then uri_slot1 j else y)\<rparr>)))
                  (ret (Some u, SC_EURIPARSE)))))))"

definition sc_uri_del :: "addr \<Rightarrow> (('u, 'a) world, unit) prog" where
  "sc_uri_del u = bnd (load_uri u) (\<lambda>r. seq (c_free (uri_str r)) (c_free (Some u)))"

section \<open>Accessors\<close>

definition sc_uri_protocol :: "addr \<Rightarrow> (('u, 'a) world, proto) prog" where
  "sc_uri_protocol u =
     bnd (load_uri u) (\<lambda>r.
     bnd (deref (uri_proto r)) (\<lambda>pr.
     seq (dbg_assert (is_protocol_known pr))
     (ret (if pr = ''pipe'' then PROTO_PIPE else if pr = ''tcp'' then PROTO_TCP else PROTO_NOSET))))"

definition sc_uri_pipe_filepath :: "addr \<Rightarrow> (('u, 'a) world, string option) prog" where
  "sc_uri_pipe_filepath u = bnd (load_uri u) (\<lambda>r. ret (uri_slot0 r))"

definition sc_uri_tcp_ip4 :: "addr \<Rightarrow> (('u, 'a) world, string option) prog" where
  "sc_uri_tcp_ip4 u = bnd (load_uri u) (\<lambda>r. ret (uri_slot0 r))"

definition sc_uri_tcp_port :: "addr \<Rightarrow> (('u, 'a) world, u32) prog" where
  "sc_uri_tcp_port u =
     bnd (load_uri u) (\<lambda>r. bnd (deref (uri_slot1 r)) (\<lambda>p. ret (to_unsigned (fst (strtol p)))))"

section \<open>What the toolbelt promises\<close>

text \<open>
  The tokenizer, at the first call on a string: leading delimiters are skipped, the token extends
  to the next delimiter or to the end, and the saved pointer is just after that delimiter. With
  no delimiter after the token there is nothing more to find: the pointer is NULL or at the end.
\<close>

locale strtok_s =
  fixes tok :: "string \<Rightarrow> nat \<Rightarrow> string \<Rightarrow> string option \<times> string option"
  assumes tok_none:
      "\<forall>c \<in> set s. c \<in> set d \<Longrightarrow> fst (tok s (length s + 1) d) = None"
    and tok_last:
      "\<forall>c \<in> set p. c \<in> set d \<Longrightarrow> a \<noteq> [] \<Longrightarrow> \<forall>c \<in> set a. c \<notin> set d \<Longrightarrow> s = p @ a \<Longrightarrow>
       fst (tok s (length s + 1) d) = Some a \<and>
       (snd (tok s (length s + 1) d) = None \<or> snd (tok s (length s + 1) d) = Some [])"
    and tok_more:
      "\<forall>c \<in> set p. c \<in> set d \<Longrightarrow> a \<noteq> [] \<Longrightarrow> \<forall>c \<in> set a. c \<notin> set d \<Longrightarrow> x \<in> set d \<Longrightarrow>
       s = p @ a @ x # r \<Longrightarrow> tok s (length s + 1) d = (Some a, Some r)"
begin

text \<open>The three cases are exhaustive: what a token with a non-empty rest says of the string.\<close>

lemma tok_split:
  assumes "tok s (length s + 1) d = (Some a, Some r)" and "r \<noteq> []"
  shows "\<exists>p x. s = p @ a @ x # r \<and> (\<forall>c \<in> set p. c \<in> set d) \<and> a \<noteq> [] \<and>
    (\<forall>c \<in> set a. c \<notin> set d) \<and> x \<in> set d"
proof -
  let ?in = "\<lambda>c. c \<in> set d"
  define p t where "p = takeWhile ?in s" and "t = dropWhile ?in s"
  define a' q where "a' = takeWhile (Not \<circ> ?in) t" and "q = dropWhile (Not \<circ> ?in) t"
  have s: "s = p @ a' @ q"
    by (simp add: p_def t_def a'_def q_def)
  have p: "\<forall>c \<in> set p. c \<in> set d" and a': "\<forall>c \<in> set a'. c \<notin> set d"
    by (auto simp: p_def a'_def dest: set_takeWhileD)
  have "t \<noteq> []"
  proof
    assume "t = []"
    then have "\<forall>c \<in> set s. c \<in> set d" by (simp add: t_def)
    from tok_none [OF this] assms(1) show False by simp
  qed
  moreover have "t = [] \<or> \<not> ?in (hd t)"
    unfolding t_def using hd_dropWhile by blast
  ultimately have "a' \<noteq> []"
    by (cases t) (auto simp: a'_def)
  show ?thesis
  proof (cases q)
    case Nil
    with s tok_last [OF p \<open>a' \<noteq> []\<close> a'] assms show ?thesis by simp
  next
    case (Cons x r')
    moreover have "x \<in> set d"
      using Cons by (simp add: q_def dropWhile_eq_Cons_conv)
    ultimately have "tok s (length s + 1) d = (Some a', Some r')"
      using s by (intro tok_more [OF p \<open>a' \<noteq> []\<close> a']) simp_all
    with assms(1) Cons s p a' \<open>a' \<noteq> []\<close> \<open>x \<in> set d\<close> show ?thesis by auto
  qed
qed

end

text \<open>The tokenizer of the C standard satisfies the contract.\<close>

lemma dropWhile_all_append: "\<forall>c \<in> set p. P c \<Longrightarrow> dropWhile P (p @ s) = dropWhile P s"
  by (simp add: dropWhile_append)

lemma dropWhile_all: "\<forall>c \<in> set p. P c \<Longrightarrow> dropWhile P p = []"
  by simp

interpretation c11: strtok_s strtok_c11
proof unfold_locales
  fix s d :: string
  assume "\<forall>c \<in> set s. c \<in> set d"
  then show "fst (strtok_c11 s (length s + 1) d) = None"
    by (simp add: strtok_c11_def)
next
  fix p a s d :: string
  assume "\<forall>c \<in> set p. c \<in> set d" "a \<noteq> []" "\<forall>c \<in> set a. c \<notin> set d" "s = p @ a"
  then show "fst (strtok_c11 s (length s + 1) d) = Some a \<and>
      (snd (strtok_c11 s (length s + 1) d) = None \<or> snd (strtok_c11 s (length s + 1) d) = Some [])"
    by (cases a) (auto simp: strtok_c11_def dropWhile_all_append dropWhile_all)
next
  fix p a s d r :: string and x
  assume "\<forall>c \<in> set p. c \<in> set d" "a \<noteq> []" "\<forall>c \<in> set a. c \<notin> set d" "x \<in> set d"
    "s = p @ a @ x # r"
  then show "strtok_c11 s (length s + 1) d = (Some a, Some r)"
    by (cases a) (auto simp: strtok_c11_def dropWhile_all_append takeWhile_append)
qed

section \<open>Properties\<close>

text \<open>C7: \<open>check_ip4\<close> accepts exactly the dotted quads (four non-empty fields of decimal digits,
  each at most 255), and for no string does it write outside the array \<open>tmp\<close>.\<close>

theorem check_ip4_dotted_quad:
  "check_ip4 (Some s) = Inr (dotted_quad s)"
  by (rule check_ip4_eq)

end
