(* ===== verification/Uri_Parse.thy ===== *)
theory Uri_Parse
  imports Uri
begin

text \<open>
  The language \<open>sc_uri_new\<close> accepts, the values it stores, and its use of memory. The parsing
  lemmas are stated for any tokenizer with the contract \<open>strtok_s\<close>.
\<close>

section \<open>Ports\<close>

lemma check_port_iff:
  "check_port p \<longleftrightarrow> snd (strtol p) \<noteq> p \<and> 1 \<le> fst (strtol p) \<and> fst (strtol p) \<le> 65535"
  by (auto simp: check_port_def split: prod.splits)

lemma check_port_decimal: "1 \<le> n \<Longrightarrow> n \<le> 65535 \<Longrightarrow> check_port (decimal n)"
  using decimal_digits [of n] by (auto simp: check_port_iff strtol_decimal LONG_MAX_def)

section \<open>The accepted language\<close>

definition colons :: "string \<Rightarrow> bool" where
  "colons s \<longleftrightarrow> (\<forall>c \<in> set s. c = CHR '':'')"

text \<open>Leading colons, then one of the two forms; extra colons may precede the address.\<close>

definition pipe_form :: "string \<Rightarrow> string \<Rightarrow> bool" where
  "pipe_form s path \<longleftrightarrow> (\<exists>cs. colons cs \<and> path \<noteq> [] \<and> s = cs @ ''pipe://'' @ path)"

definition tcp_form :: "string \<Rightarrow> string \<Rightarrow> string \<Rightarrow> bool" where
  "tcp_form s ip port \<longleftrightarrow>
     (\<exists>cs ds. colons cs \<and> colons ds \<and> dotted_quad ip \<and> check_port port \<and>
        s = cs @ ''tcp://'' @ ds @ ip @ '':'' @ port)"

lemma set_hd_dot_fields: "set (hd (dot_fields s)) \<subseteq> set s"
  by (induction s) auto

lemma set_dot_fields:
  "c \<in> set s \<Longrightarrow> c = CHR ''.'' \<or> (\<exists>f \<in> set (dot_fields s). c \<in> set f)"
proof (induction s)
  case Nil
  then show ?case by simp
next
  case (Cons x s)
  obtain f fs where fs: "dot_fields s = f # fs"
    by (cases "dot_fields s") auto
  with Cons show ?case by auto
qed

lemma dotted_quad_chars: "dotted_quad s \<Longrightarrow> s \<noteq> [] \<and> (\<forall>c \<in> set s. c \<noteq> CHR '':'')"
proof -
  assume dq: "dotted_quad s"
  have "s \<noteq> []"
    using dq by (auto simp: dotted_quad_def)
  moreover have "c \<noteq> CHR '':''" if "c \<in> set s" for c
  proof -
    have "\<not> is_digit (CHR '':'')"
      by (simp add: is_digit_def code_def)
    then show ?thesis
      using set_dot_fields [OF that] dq by (auto simp: dotted_quad_def octet_def)
  qed
  ultimately show ?thesis by blast
qed

context strtok_s
begin

text \<open>The tokenizer on the two forms.\<close>

lemma tok_colon:
  assumes "colons cs" and "a \<noteq> []" and "\<forall>c \<in> set a. c \<noteq> CHR '':''" and "s = cs @ a @ CHR '':'' # r"
  shows "tok s (Suc (length s)) '':'' = (Some a, Some r)"
  using tok_more [of cs "'':''" a "CHR '':''" s r] assms by (simp add: colons_def)

lemma tok_colon_split:
  assumes "tok s (Suc (length s)) '':'' = (Some a, Some r)" and "r \<noteq> []"
  shows "\<exists>cs. colons cs \<and> s = cs @ a @ CHR '':'' # r"
  using tok_split [of s "'':''" a r] assms by (auto simp: colons_def)

lemma tok_colons_none: "colons s \<Longrightarrow> fst (tok s (Suc (length s)) '':'') = None"
  using tok_none [of s "'':''"] by (simp add: colons_def)

end

abbreviation ctb_strtok :: "('u, 'a) env \<Rightarrow> bool" where
  "ctb_strtok E \<equiv> strtok_s (ctb_strtok_s E)"

lemma two_slashes:
  "\<not> length path \<le> 2 \<Longrightarrow> path ! 0 = CHR ''/'' \<Longrightarrow> path ! 1 = CHR ''/'' \<Longrightarrow>
   \<exists>q. path = ''//'' @ q \<and> q \<noteq> []"
  by (cases path; cases "tl path"; auto)

lemma uri_parse_pipe:
  assumes "ctb_strtok E" and "pipe_form s path"
  shows "uri_parse E s = Inr (Inr (''pipe'', path, None))"
proof -
  from assms(2) obtain cs where "colons cs" "path \<noteq> []" and s: "s = cs @ ''pipe://'' @ path"
    by (auto simp: pipe_form_def)
  then have "ctb_strtok_s E s (Suc (length s)) '':'' = (Some ''pipe'', Some (''//'' @ path))"
    by (intro strtok_s.tok_colon [OF assms(1)]) auto
  with \<open>path \<noteq> []\<close> show ?thesis
    by (simp add: uri_parse_def is_protocol_known_def)
qed

lemma uri_parse_tcp:
  assumes "ctb_strtok E" and "tcp_form s ip port"
  shows "uri_parse E s = Inr (Inr (''tcp'', ip, Some port))"
proof -
  from assms(2) obtain cs ds where cs: "colons cs" and ds: "colons ds"
    and ip: "dotted_quad ip" and port: "check_port port"
    and s: "s = cs @ ''tcp://'' @ ds @ ip @ '':'' @ port"
    by (auto simp: tcp_form_def)
  let ?path = "ds @ ip @ CHR '':'' # port"
  have 1: "ctb_strtok_s E s (Suc (length s)) '':'' = (Some ''tcp'', Some (''//'' @ ?path))"
    using cs s by (intro strtok_s.tok_colon [OF assms(1)]) auto
  have 2: "ctb_strtok_s E ?path (Suc (length ?path)) '':'' = (Some ip, Some port)"
    using ds dotted_quad_chars [OF ip] by (intro strtok_s.tok_colon [OF assms(1)]) auto
  show ?thesis
    using 1 2 ip port by (simp add: uri_parse_def is_protocol_known_def check_ip4_eq)
qed

text \<open>Conversely, whatever is accepted has one of the two forms.\<close>

lemma uri_parse_accepts:
  assumes "ctb_strtok E" and "uri_parse E s = Inr (Inr (pr, x, y))"
  shows "pr = ''pipe'' \<and> y = None \<and> pipe_form s x \<or>
    pr = ''tcp'' \<and> (\<exists>port. y = Some port \<and> tcp_form s x port)"
proof -
  from assms(2) obtain path where tok: "ctb_strtok_s E s (Suc (length s)) '':'' = (Some pr, Some path)"
    and known: "is_protocol_known pr" and len: "\<not> length path \<le> 2"
    and sl: "path ! 0 = CHR ''/''" "path ! 1 = CHR ''/''"
    by (auto simp: uri_parse_def split: prod.splits option.splits if_splits sum.splits)
  from two_slashes [OF len sl] obtain q where q: "path = ''//'' @ q" "q \<noteq> []" by blast
  from strtok_s.tok_colon_split [OF assms(1) tok] q obtain cs where
    cs: "colons cs" and s: "s = cs @ pr @ CHR '':'' # ''//'' @ q" by auto
  show ?thesis
  proof (cases "pr = ''pipe''")
    case True
    with assms(2) tok q cs s show ?thesis
      by (auto simp: uri_parse_def is_protocol_known_def pipe_form_def)
  next
    case False
    with known have pr: "pr = ''tcp''" by (simp add: is_protocol_known_def)
    from assms(2) tok q False known obtain port where
      tok2: "ctb_strtok_s E q (Suc (length q)) '':'' = (Some x, Some port)"
      and x: "dotted_quad x" and y: "y = Some port" and port: "check_port port"
      by (auto simp: uri_parse_def check_ip4_def check_ip4_eq [unfolded check_ip4_def, simplified]
          split: prod.splits option.splits if_splits sum.splits)
    have "port \<noteq> []"
      using port by (auto simp: check_port_iff strtol_def)
    from strtok_s.tok_colon_split [OF assms(1) tok2 this] obtain ds where
      "colons ds" and "q = ds @ x @ CHR '':'' # port" by blast
    with cs s x port y pr show ?thesis
      by (auto simp: tcp_form_def)
  qed
qed

section \<open>Memory\<close>

text \<open>What POSIX documents of \<open>strdup\<close>: a copy in memory obtained from \<open>malloc\<close>, or NULL.\<close>

definition strdup_mallocs :: "('u, 'a) env \<Rightarrow> bool" where
  "strdup_mallocs E \<longleftrightarrow> (\<forall>s. ctb_strdup E s = malloc (Str s))"

lemma load_str_simp [simp]: "heap w a = Some (Str s) \<Longrightarrow> load_str a w = Inr (s, w)"
  by (simp add: load_str_def)

lemma uri_parse_errors: "uri_parse E s = Inr (Inl e) \<Longrightarrow> e = SC_EURIPARSE \<or> e = SC_EINVPROTO"
  by (auto simp: uri_parse_def split: prod.splits option.splits if_splits sum.splits)

text \<open>The structure a successful parse leaves behind, over what \<open>malloc\<close> returned.\<close>

definition parsed_uri :: "uri \<Rightarrow> addr \<Rightarrow> string \<Rightarrow> string \<Rightarrow> string option \<Rightarrow> uri" where
  "parsed_uri j sa pr x y =
     j\<lparr>uri_str := Some sa, uri_proto := Some pr, uri_slot0 := Some x,
       uri_slot1 := (if y = None then uri_slot1 j else y)\<rparr>"

lemma sc_uri_new_ok [step_simps]:
  assumes "strdup_mallocs E" and "wf_heap w"
    and "malloc_ok w (fresh w)" and "malloc_ok w (Suc (fresh w))"
    and "uri_parse E s = Inr (Inr (pr, x, y))"
  shows "sc_uri_new E s w = Inr ((Some (fresh w), SC_EURIPARSE),
    w\<lparr>heap := (heap w)(fresh w \<mapsto> Uri (parsed_uri (junk_uri w) (Suc (fresh w)) pr x y),
                       Suc (fresh w) \<mapsto> Str s),
      fresh := Suc (Suc (fresh w))\<rparr>)"
  using assms
  by (simp add: sc_uri_new_def malloc_def strdup_mallocs_def parsed_uri_def fun_upd_twist)

text \<open>Every failure gives back what it took.\<close>

lemma sc_uri_new_fail:
  assumes "strdup_mallocs E" and "wf_heap w" and "sc_uri_new E s w = Inr ((None, e), w')"
  shows "w' = w\<lparr>fresh := fresh w'\<rparr> \<and> fresh w \<le> fresh w' \<and> e \<in> {SC_ENOMEM, SC_EURIPARSE, SC_EINVPROTO}"
proof -
  let ?f = "fresh w"
  have new: "heap w ?f = None" "heap w (Suc ?f) = None"
    using assms(2) by (simp_all add: wf_heap_ge)
  show ?thesis
  proof (cases "malloc_ok w ?f \<and> malloc_ok w (Suc ?f)")
    case True
    then show ?thesis
      using assms(1,3) new uri_parse_errors [of E s]
      by (cases "uri_parse E s")
        (auto simp: sc_uri_new_def malloc_def strdup_mallocs_def fun_upd_idem fun_upd_twist
          split: sum.splits)
  next
    case False
    then show ?thesis
      using assms(1,3) new
      by (auto simp: sc_uri_new_def malloc_def strdup_mallocs_def fun_upd_idem bnd_def seq_def
          c_free_def store_def split: if_splits)
  qed
qed

lemma sc_uri_new_success:
  assumes "strdup_mallocs E" and "wf_heap w" and "sc_uri_new E s w = Inr ((Some u, e), w')"
  shows "\<exists>pr x y. uri_parse E s = Inr (Inr (pr, x, y)) \<and> u = fresh w \<and> e = SC_EURIPARSE \<and>
    w' = w\<lparr>heap := (heap w)(u \<mapsto> Uri (parsed_uri (junk_uri w) (Suc u) pr x y), Suc u \<mapsto> Str s),
           fresh := Suc (Suc u)\<rparr>"
proof -
  let ?f = "fresh w"
  have mem: "malloc_ok w ?f \<and> malloc_ok w (Suc ?f)"
    using assms
    by (auto simp: sc_uri_new_def malloc_def strdup_mallocs_def bnd_def seq_def c_free_def
        store_def split: if_splits)
  obtain pr x y where parse: "uri_parse E s = Inr (Inr (pr, x, y))"
    using assms mem
    by (cases "uri_parse E s")
      (auto simp: sc_uri_new_def malloc_def strdup_mallocs_def seq_def split: sum.splits)
  from sc_uri_new_ok [OF assms(1,2) _ _ this] mem assms(3) parse show ?thesis
    by auto
qed

lemma sc_uri_del_ok [step_simps]:
  assumes "heap w u = Some (Uri r)" and "uri_str r = Some sa" and "heap w sa \<noteq> None" and "sa \<noteq> u"
  shows "sc_uri_del u w = Inr ((), w\<lparr>heap := (heap w)(sa := None, u := None)\<rparr>)"
  using assms by (simp add: sc_uri_del_def)

lemma keeps_uri_accessors [keeps_intros]:
  "keeps I (sc_uri_protocol u)" "keeps I (sc_uri_pipe_filepath u)"
  "keeps I (sc_uri_tcp_ip4 u)" "keeps I (sc_uri_tcp_port u)"
  unfolding sc_uri_protocol_def sc_uri_pipe_filepath_def sc_uri_tcp_ip4_def sc_uri_tcp_port_def
  by (intro keeps_intros)+

lemma uri_accessors [step_simps]:
  assumes "heap w u = Some (Uri (parsed_uri j sa pr x y))"
  shows "sc_uri_pipe_filepath u w = Inr (Some x, w)"
    and "sc_uri_tcp_ip4 u w = Inr (Some x, w)"
    and "y = Some p \<Longrightarrow> sc_uri_tcp_port u w = Inr (to_unsigned (fst (strtol p)), w)"
    and "pr = ''pipe'' \<Longrightarrow> sc_uri_protocol u w = Inr (PROTO_PIPE, w)"
    and "pr = ''tcp'' \<Longrightarrow> sc_uri_protocol u w = Inr (PROTO_TCP, w)"
  using assms
  by (simp_all add: sc_uri_pipe_filepath_def sc_uri_tcp_ip4_def sc_uri_tcp_port_def
      sc_uri_protocol_def parsed_uri_def is_protocol_known_def)

lemma port_range:
  "check_port p \<Longrightarrow> 1 \<le> unat (to_unsigned (fst (strtol p))) \<and> unat (to_unsigned (fst (strtol p))) \<le> 65535"
  by (auto simp: check_port_iff unat_to_unsigned)

section \<open>The instance\<close>

lemma sample_strtok [simp]: "strtok_s strtok_c11"
  by (rule c11.strtok_s_axioms)

lemma sample_strdup [simp]: "strdup_mallocs sample_env"
  by (simp add: strdup_mallocs_def)

section \<open>Properties\<close>



text \<open>C8: A TCP address written with a decimal port between 1 and 65535 comes back from the
  accessors: protocol, address and port number.\<close>

theorem uri_tcp_roundtrip:
  assumes "ctb_strtok E" and "strdup_mallocs E" and "wf_heap w"
    and "malloc_ok w (fresh w)" and "malloc_ok w (Suc (fresh w))"
    and "dotted_quad ip" and "1 \<le> n" and "n \<le> 65535"
  shows "\<exists>u e w'. sc_uri_new E (''tcp://'' @ ip @ '':'' @ decimal n) w = Inr ((Some u, e), w') \<and>
    sc_uri_protocol u w' = Inr (PROTO_TCP, w') \<and> sc_uri_tcp_ip4 u w' = Inr (Some ip, w') \<and>
    sc_uri_tcp_port u w' = Inr (of_nat n, w')"
proof -
  let ?s = "''tcp://'' @ ip @ '':'' @ decimal n" and ?u = "fresh w"
  have "tcp_form ?s ip (decimal n)"
    unfolding tcp_form_def colons_def
    by (intro exI [of _ "[]"]) (use assms(6-8) in \<open>simp add: check_port_decimal\<close>)
  from sc_uri_new_ok [OF assms(2-5) uri_parse_tcp [OF assms(1) this]] obtain w' where
    new: "sc_uri_new E ?s w = Inr ((Some ?u, SC_EURIPARSE), w')" and
    u: "heap w' ?u = Some (Uri (parsed_uri (junk_uri w) (Suc ?u) ''tcp'' ip (Some (decimal n))))"
    by simp
  have "fst (strtol (decimal n)) = int n"
    using assms(8) by (simp add: strtol_decimal LONG_MAX_def)
  with new uri_accessors [OF u] show ?thesis by auto
qed

theorem uri_tcp_roundtrip_witness:
  "\<exists>u e w'. sc_uri_new sample_env (''tcp://'' @ ''127.0.0.1'' @ '':'' @ decimal 8777) sample_world =
      Inr ((Some u, e), w') \<and>
    sc_uri_protocol u w' = Inr (PROTO_TCP, w') \<and> sc_uri_tcp_ip4 u w' = Inr (Some ''127.0.0.1'', w') \<and>
    sc_uri_tcp_port u w' = Inr (of_nat 8777, w')"
proof (rule uri_tcp_roundtrip)
  show "dotted_quad ''127.0.0.1''" by code_simp
qed simp_all

text \<open>The path of a pipe comes back unchanged, whatever characters follow the two slashes.\<close>

theorem uri_pipe_roundtrip:
  assumes "ctb_strtok E" and "strdup_mallocs E" and "wf_heap w"
    and "malloc_ok w (fresh w)" and "malloc_ok w (Suc (fresh w))" and "path \<noteq> []"
  shows "\<exists>u e w'. sc_uri_new E (''pipe://'' @ path) w = Inr ((Some u, e), w') \<and>
    sc_uri_protocol u w' = Inr (PROTO_PIPE, w') \<and> sc_uri_pipe_filepath u w' = Inr (Some path, w')"
proof -
  let ?s = "''pipe://'' @ path" and ?u = "fresh w"
  have "pipe_form ?s path"
    unfolding pipe_form_def colons_def by (intro exI [of _ "[]"]) (use assms(6) in simp)
  from sc_uri_new_ok [OF assms(2-5) uri_parse_pipe [OF assms(1) this]] obtain w' where
    new: "sc_uri_new E ?s w = Inr ((Some ?u, SC_EURIPARSE), w')" and
    u: "heap w' ?u = Some (Uri (parsed_uri (junk_uri w) (Suc ?u) ''pipe'' path None))"
    by simp
  with new uri_accessors [OF u] show ?thesis by auto
qed

theorem uri_pipe_roundtrip_witness:
  "\<exists>u e w'. sc_uri_new sample_env (''pipe://'' @ ''a:b'') sample_world = Inr ((Some u, e), w') \<and>
    sc_uri_protocol u w' = Inr (PROTO_PIPE, w') \<and> sc_uri_pipe_filepath u w' = Inr (Some ''a:b'', w')"
  by (rule uri_pipe_roundtrip) simp_all

text \<open>Whatever TCP address was accepted, the port \<open>sc_uri_tcp_port\<close> returns lies between 1 and
  65535 and the address is a dotted quad: nothing else reaches libuv.\<close>

theorem uri_tcp_sound:
  assumes "ctb_strtok E" and "strdup_mallocs E" and "wf_heap w"
    and "sc_uri_new E s w = Inr ((Some u, e), w')" and "sc_uri_protocol u w' = Inr (PROTO_TCP, w')"
  shows "\<exists>ip port. sc_uri_tcp_ip4 u w' = Inr (Some ip, w') \<and> dotted_quad ip \<and>
    sc_uri_tcp_port u w' = Inr (port, w') \<and> 1 \<le> unat port \<and> unat port \<le> 65535"
proof -
  from sc_uri_new_success [OF assms(2-4)] obtain pr x y where
    parse: "uri_parse E s = Inr (Inr (pr, x, y))" and
    u: "heap w' u = Some (Uri (parsed_uri (junk_uri w) (Suc u) pr x y))" by fastforce
  note acc = uri_accessors [OF u]
  have "pr \<noteq> ''pipe''"
    using acc(4) assms(5) by auto
  with uri_parse_accepts [OF assms(1) parse] obtain port where
    y: "y = Some port" and form: "tcp_form s x port" by auto
  then have "dotted_quad x" "check_port port"
    by (auto simp: tcp_form_def)
  with acc(2) acc(3) [OF y] port_range show ?thesis by blast
qed

theorem uri_tcp_sound_witness:
  "\<exists>u w' ip port. sc_uri_tcp_ip4 u w' = Inr (Some ip, w' :: sample_world) \<and> dotted_quad ip \<and>
    sc_uri_tcp_port u w' = Inr (port, w') \<and> 1 \<le> unat port \<and> unat port \<le> 65535"
proof -
  have "tcp_form ''tcp://1.2.3.4:80'' ''1.2.3.4'' ''80''"
    unfolding tcp_form_def colons_def
    by (intro exI [of _ "[]"] conjI) (simp_all, code_simp, code_simp)
  from sc_uri_new_ok [OF _ _ _ _ uri_parse_tcp [OF _ this], of sample_env sample_world]
  obtain w' where new: "sc_uri_new sample_env ''tcp://1.2.3.4:80'' sample_world =
      Inr ((Some (fresh sample_world), SC_EURIPARSE), w')" and
    u: "heap w' (fresh sample_world) = Some (Uri (parsed_uri (junk_uri sample_world)
      (Suc (fresh sample_world)) ''tcp'' ''1.2.3.4'' (Some ''80'')))"
    by (simp del: sample_world_simps(2))
  from uri_tcp_sound [OF _ _ _ new uri_accessors(5) [OF u refl]] show ?thesis
    by auto
qed

text \<open>C9: \<open>sc_uri_new\<close> leaks nothing. When it fails the heap is what it was and the code says
  why; when it succeeds \<open>sc_uri_del\<close> gives back exactly what it took.\<close>

theorem uri_memory:
  assumes "strdup_mallocs E" and "wf_heap w" and "sc_uri_new E s w = Inr ((r, e), w')"
  shows "case r of
      None \<Rightarrow> heap w' = heap w \<and> e \<in> {SC_ENOMEM, SC_EURIPARSE, SC_EINVPROTO}
    | Some u \<Rightarrow> \<exists>w''. sc_uri_del u w' = Inr ((), w'') \<and> heap w'' = heap w"
proof (cases r)
  case None
  with sc_uri_new_fail [OF assms(1,2)] assms(3) have
    "w' = w\<lparr>fresh := fresh w'\<rparr>" "e \<in> {SC_ENOMEM, SC_EURIPARSE, SC_EINVPROTO}" by auto
  then have "heap w' = heap w" by (metis world.select_convs(1) world.surjective world.update_convs(2))
  with None \<open>e \<in> _\<close> show ?thesis by simp
next
  case (Some u)
  with sc_uri_new_success [OF assms(1,2)] assms(3) obtain pr x y where uf: "u = fresh w" and
    w': "heap w' = (heap w)(u \<mapsto> Uri (parsed_uri (junk_uri w) (Suc u) pr x y), Suc u \<mapsto> Str s)"
    by fastforce
  have "heap w u = None" "heap w (Suc u) = None"
    using assms(2) uf by (simp_all add: wf_heap_ge)
  then have "sc_uri_del u w' = Inr ((), w'\<lparr>heap := heap w\<rparr>)"
    using sc_uri_del_ok [of w' u "parsed_uri (junk_uri w) (Suc u) pr x y" "Suc u"] w'
    by (simp add: parsed_uri_def fun_upd_idem fun_upd_twist)
  with Some show ?thesis by simp
qed

theorem uri_memory_witness:
  "\<exists>w'. sc_uri_new sample_env ''udp://x'' sample_world = Inr ((None, SC_EINVPROTO), w') \<and>
     heap w' = heap sample_world"
proof -
  have "uri_parse sample_env ''udp://x'' = Inr (Inl SC_EINVPROTO)"
    by (simp add: uri_parse_def strtok_c11_def is_protocol_known_def)
  then obtain w' where new: "sc_uri_new sample_env ''udp://x'' sample_world = Inr ((None, SC_EINVPROTO), w')"
    by (simp add: sc_uri_new_def malloc_def)
  from uri_memory [OF _ _ new] show ?thesis
    using new by auto
qed

text \<open>An address part made of colons only has no token: the tokenizer returns NULL, and
  \<open>check_ip4\<close> reads through it.\<close>

theorem uri_null_address:
  assumes "ctb_strtok E" and "strdup_mallocs E" and "malloc_ok w (fresh w)"
    and "malloc_ok w (Suc (fresh w))" and "colons ds" and "ds \<noteq> []"
  shows "sc_uri_new E (''tcp://'' @ ds) w = Inl Null_Deref"
proof -
  let ?s = "''tcp://'' @ ds"
  have "ctb_strtok_s E ?s (Suc (length ?s)) '':'' = (Some ''tcp'', Some (''//'' @ ds))"
    by (intro strtok_s.tok_colon [OF assms(1)]) (auto simp: colons_def)
  moreover have "fst (ctb_strtok_s E ds (Suc (length ds)) '':'') = None"
    using strtok_s.tok_colons_none [OF assms(1,5)] .
  ultimately have "uri_parse E ?s = Inl Null_Deref"
    using assms(6) by (auto simp: uri_parse_def is_protocol_known_def check_ip4_def split: prod.splits)
  with assms(2-4) show ?thesis
    by (simp add: sc_uri_new_def malloc_def strdup_mallocs_def)
qed

theorem uri_null_address_witness:
  "sc_uri_new sample_env (''tcp://'' @ '':'') sample_world = Inl Null_Deref"
  by (rule uri_null_address) (simp_all add: colons_def)

end
