(* ===== verification/Watcher.thy ===== *)
theory Watcher
  imports Sample
begin

text \<open>
  \<open>src/watcher.c\<close>: the table of callbacks of a socket. Until the application sets a callback it
  is a function that prints a warning, so calling through a fresh watcher is always defined.
\<close>

section \<open>The callbacks that only warn\<close>

definition NOTSET_WARNING :: "string \<Rightarrow> string" where
  "NOTSET_WARNING cb = cb @ '' callback called but not set''"

definition on_connect_noop :: "addr \<Rightarrow> int \<Rightarrow> (('u, 'a) world, unit) prog" where
  "on_connect_noop socket errcode = sc_warn (NOTSET_WARNING ''on_connect'')"

definition on_connection_noop :: "addr \<Rightarrow> int \<Rightarrow> (('u, 'a) world, unit) prog" where
  "on_connection_noop socket errcode = sc_warn (NOTSET_WARNING ''on_connection'')"

definition on_accept_noop :: "addr \<Rightarrow> int \<Rightarrow> (('u, 'a) world, unit) prog" where
  "on_accept_noop socket errcode = sc_warn (NOTSET_WARNING ''on_accept'')"

definition on_recv_noop :: "addr \<Rightarrow> addr option \<Rightarrow> int \<Rightarrow> (('u, 'a) world, unit) prog" where
  "on_recv_noop socket msg errcode = sc_warn (NOTSET_WARNING ''on_recv'')"

definition on_send_noop :: "addr \<Rightarrow> int \<Rightarrow> (('u, 'a) world, unit) prog" where
  "on_send_noop socket errcode = sc_warn (NOTSET_WARNING ''on_send'')"

definition on_close_noop :: "addr \<Rightarrow> (('u, 'a) world, unit) prog" where
  "on_close_noop socket = sc_warn (NOTSET_WARNING ''on_close'')"

definition sc_watcher_init :: "addr \<Rightarrow> watcher" where
  "sc_watcher_init socket =
     \<lparr>watcher_socket = socket, on_connect = Noop_fn, on_connection = Noop_fn,
      on_accept = Noop_fn, on_recv = Noop_fn, on_send = Noop_fn, on_close = Noop_fn\<rparr>"

section \<open>Calls through the table\<close>

text \<open>
  \<open>(*w->on_connect)(w->socket, errcode)\<close> and its kin, with the function each field selects.
\<close>

definition fire ::
    "callback \<Rightarrow> ('w, unit) prog \<Rightarrow> (fn \<Rightarrow> ('w, unit) prog) \<Rightarrow> ('w, unit) prog" where
  "fire cb noop user =
     (case cb of Null_fn \<Rightarrow> fail Null_Deref | Noop_fn \<Rightarrow> noop | User_fn f \<Rightarrow> user f)"

definition fire_connect :: "('u, 'a) env \<Rightarrow> watcher \<Rightarrow> int \<Rightarrow> (('u, 'a) world, unit) prog" where
  "fire_connect E wt errcode =
     fire (on_connect wt) (on_connect_noop (watcher_socket wt) errcode)
       (\<lambda>f. call_event E f (watcher_socket wt) errcode)"

definition fire_connection :: "('u, 'a) env \<Rightarrow> watcher \<Rightarrow> int \<Rightarrow> (('u, 'a) world, unit) prog" where
  "fire_connection E wt errcode =
     fire (on_connection wt) (on_connection_noop (watcher_socket wt) errcode)
       (\<lambda>f. call_event E f (watcher_socket wt) errcode)"

definition fire_accept :: "('u, 'a) env \<Rightarrow> watcher \<Rightarrow> int \<Rightarrow> (('u, 'a) world, unit) prog" where
  "fire_accept E wt errcode =
     fire (on_accept wt) (on_accept_noop (watcher_socket wt) errcode)
       (\<lambda>f. call_event E f (watcher_socket wt) errcode)"

definition fire_recv ::
    "('u, 'a) env \<Rightarrow> watcher \<Rightarrow> addr option \<Rightarrow> int \<Rightarrow> (('u, 'a) world, unit) prog" where
  "fire_recv E wt msg errcode =
     fire (on_recv wt) (on_recv_noop (watcher_socket wt) msg errcode)
       (\<lambda>f. call_recv E f (watcher_socket wt) msg errcode)"

definition fire_send :: "('u, 'a) env \<Rightarrow> watcher \<Rightarrow> int \<Rightarrow> (('u, 'a) world, unit) prog" where
  "fire_send E wt errcode =
     fire (on_send wt) (on_send_noop (watcher_socket wt) errcode)
       (\<lambda>f. call_event E f (watcher_socket wt) errcode)"

definition fire_close :: "('u, 'a) env \<Rightarrow> watcher \<Rightarrow> (('u, 'a) world, unit) prog" where
  "fire_close E wt =
     fire (on_close wt) (on_close_noop (watcher_socket wt))
       (\<lambda>f. call_close E f (watcher_socket wt))"

lemmas fire_defs =
  fire_connect_def fire_connection_def fire_accept_def fire_recv_def fire_send_def fire_close_def

lemmas noop_defs =
  on_connect_noop_def on_connection_noop_def on_accept_noop_def on_recv_noop_def on_send_noop_def
  on_close_noop_def

text \<open>The watcher behind a \<open>struct watcher *\<close>: the one inside the socket at that address.\<close>

definition load_watcher :: "addr \<Rightarrow> (('u, 'a) world, watcher) prog" where
  "load_watcher a = bnd (load_sock a) (\<lambda>s. ret (sock_watcher s))"

lemma load_watcher_simp [simp]:
  "heap w a = Some (Sock s) \<Longrightarrow> load_watcher a w = Inr (sock_watcher s, w)"
  by (simp add: load_watcher_def)

lemma keeps_load_watcher [keeps_intros]: "keeps I (load_watcher a)"
  unfolding load_watcher_def by (intro keeps_intros)

lemma fire_simps [simp]:
  "fire Null_fn n u = fail Null_Deref" "fire Noop_fn n u = n" "fire (User_fn f) n u = u f"
  by (simp_all add: fire_def)

lemma sc_watcher_init_simps [simp]:
  "watcher_socket (sc_watcher_init s) = s"
  "on_connect (sc_watcher_init s) = Noop_fn"
  "on_connection (sc_watcher_init s) = Noop_fn"
  "on_accept (sc_watcher_init s) = Noop_fn"
  "on_recv (sc_watcher_init s) = Noop_fn"
  "on_send (sc_watcher_init s) = Noop_fn"
  "on_close (sc_watcher_init s) = Noop_fn"
  by (simp_all add: sc_watcher_init_def)

end
