(* ===== verification/Backend_UV.thy ===== *)
theory Backend_UV
  imports Msg_Reader Uri_Parse Watcher
begin

text \<open>
  \<open>src/backend_uv.c\<close>: the libuv backend. Its functions take the address of a \<open>struct socket_uv\<close>,
  which is also the address of the handle and the requests embedded in it. libuv's functions are
  the parameters of the model; the \<open>_wrap\<close> functions are what libuv calls back.
\<close>

section \<open>Creation and release\<close>

text \<open>The loop of the installed \<open>struct sc_backend_uv_data\<close>.\<close>

definition buv_loop :: "(('u, 'a) world, addr) prog" where
  "buv_loop = bnd (gets buv_data) (\<lambda>p. bnd (deref p) load_uv_data)"

definition backend_uv_init :: "addr option \<Rightarrow> (('u, 'a) world, backend_id) prog" where
  "backend_uv_init data = seq (upd (\<lambda>w. w\<lparr>buv_data := data\<rparr>)) (ret Buv_funcs)"

definition buv_alloc :: "(('u, 'a) world, addr option) prog" where
  "buv_alloc = bnd (gets junk_buv) (\<lambda>j. malloc (Buv j))"

definition buv_init :: "('u, 'a) env \<Rightarrow> addr \<Rightarrow> addr \<Rightarrow> (('u, 'a) world, unit) prog" where
  "buv_init E socket watcher =
     bnd (load_buv socket) (\<lambda>b.
     store socket (Buv (b\<lparr>uv_watcher := watcher, stream_data := Some socket,
       connect_data := Some socket, write_data := Some socket,
       write_buffers := [uv_buf_init E None 0, uv_buf_init E None 0],
       uv_msg := None, uv_proto := PROTO_NOSET, tcp_addr := ctb_bzero E 16\<rparr>)))"

definition buv_free :: "addr option \<Rightarrow> (('u, 'a) world, unit) prog" where
  "buv_free socket = c_free socket"

section \<open>Connecting\<close>

text \<open>Through the \<open>data\<close> member of a handle or request to the socket and its watcher.\<close>

definition via_data ::
    "(socket_uv \<Rightarrow> addr option) \<Rightarrow> addr \<Rightarrow> (addr \<Rightarrow> socket_uv \<Rightarrow> (('u, 'a) world, 'x) prog) \<Rightarrow>
     (('u, 'a) world, 'x) prog" where
  "via_data sel h k =
     bnd (load_buv h) (\<lambda>b. bnd (deref (sel b)) (\<lambda>u. bnd (load_buv u) (\<lambda>buv. k u buv)))"

definition on_connect_wrap :: "('u, 'a) env \<Rightarrow> addr \<Rightarrow> int \<Rightarrow> (('u, 'a) world, unit) prog" where
  "on_connect_wrap E request errcode =
     via_data connect_data request (\<lambda>_ buv.
     bnd (load_watcher (uv_watcher buv)) (\<lambda>wt.
     if errcode \<noteq> 0 then fire_connect E wt errcode
     else fire_connect E wt errcode))"

definition connect_pipe :: "('u, 'a) env \<Rightarrow> addr \<Rightarrow> string option \<Rightarrow> (('u, 'a) world, int) prog" where
  "connect_pipe E clt filepath =
     bnd buv_loop (\<lambda>lp.
     bnd (uv_call (uv_pipe_init E lp clt 0)) (\<lambda>errcode.
     if errcode \<noteq> 0 then ret errcode
     else
       bnd (deref filepath) (\<lambda>path.
       seq (uv_call (\<lambda>u. ((), uv_pipe_connect E clt path u))) (ret errcode))))"

text \<open>\<open>uv_ip4_addr\<close> writes the address into \<open>tcp_addr\<close>.\<close>

definition set_tcp_addr ::
    "('u, 'a) env \<Rightarrow> addr \<Rightarrow> string option \<Rightarrow> u32 \<Rightarrow> (('u, 'a) world, int) prog" where
  "set_tcp_addr E s ip4 port =
     bnd (deref ip4) (\<lambda>ip.
     bnd (load_buv s) (\<lambda>b.
     let (errcode, sa) = uv_ip4_addr E ip (sint port) in
     seq (store s (Buv (b\<lparr>tcp_addr := sa\<rparr>))) (ret errcode)))"

definition connect_tcp ::
    "('u, 'a) env \<Rightarrow> addr \<Rightarrow> string option \<Rightarrow> u32 \<Rightarrow> (('u, 'a) world, int) prog" where
  "connect_tcp E clt ip4 port =
     bnd buv_loop (\<lambda>lp.
     bnd (uv_call (uv_tcp_init E lp clt)) (\<lambda>errcode.
     if errcode \<noteq> 0 then ret errcode
     else
       bnd (set_tcp_addr E clt ip4 port) (\<lambda>errcode.
       if errcode \<noteq> 0 then ret errcode
       else
         bnd (load_buv clt) (\<lambda>b.
         bnd (uv_call (uv_tcp_connect E clt (tcp_addr b))) (\<lambda>errcode. ret errcode)))))"

definition buv_connect :: "('u, 'a) env \<Rightarrow> addr \<Rightarrow> addr \<Rightarrow> (('u, 'a) world, int) prog" where
  "buv_connect E client uri =
     bnd (sc_uri_protocol uri) (\<lambda>proto.
     if proto = PROTO_PIPE then
       bnd (sc_uri_pipe_filepath uri) (\<lambda>path. connect_pipe E client path)
     else if proto = PROTO_TCP then
       bnd (sc_uri_tcp_ip4 uri) (\<lambda>ip4.
       bnd (sc_uri_tcp_port uri) (\<lambda>port. connect_tcp E client ip4 port))
     else seq (sc_warn ''invalid protocol'') (ret SC_EINVPROTO))"

section \<open>Receiving\<close>

text \<open>
  \<open>alloc_wrap\<close> returns the buffer it leaves in \<open>*buffer\<close>. First, without a message under
  construction, one is allocated and the reader set on it; then the buffer is the rest of the head
  while that is incomplete, else the rest of the body, and never more than libuv suggested.
\<close>

definition start_msg :: "('u, 'a) env \<Rightarrow> addr \<Rightarrow> u32 \<Rightarrow> (('u, 'a) world, unit) prog" where
  "start_msg E u sz =
     bnd (sc_msg_alloc E sz) (\<lambda>p.
     bnd (load_buv u) (\<lambda>b.
     seq (store u (Buv (b\<lparr>uv_msg := p\<rparr>)))
     (seq (sc_msg_init E p)
     (bnd (deref p) (\<lambda>m.
      bnd (msg_reader_init m) (\<lambda>r.
      store u (Buv (b\<lparr>uv_msg := p, uv_reader := r\<rparr>))))))))"

definition offer_buffer :: "('u, 'a) env \<Rightarrow> msg_reader \<Rightarrow> u32 \<Rightarrow> (('u, 'a) world, uv_buf) prog" where
  "offer_buffer E reader sz =
     bnd (msg_reader_avail_head_size reader) (\<lambda>hsize.
     bnd (if hsize > 0 then ret (msg_reader_head_pos reader, hsize)
          else
            bnd (msg_reader_avail_body_size E reader) (\<lambda>n.
            ret (msg_reader_body_pos reader, n))) (\<lambda>(base, avail).
     ret \<lparr>buf_base = Some base, buf_len = ucast (if avail < sz then avail else sz)\<rparr>))"

definition alloc_wrap :: "('u, 'a) env \<Rightarrow> addr \<Rightarrow> u64 \<Rightarrow> (('u, 'a) world, uv_buf) prog" where
  "alloc_wrap E handle suggested_size =
     via_data stream_data handle (\<lambda>u b0.
     let sz = ucast suggested_size :: u32 in
     seq (if uv_msg b0 = None then start_msg E u sz else ret ())
     (bnd (load_buv u) (\<lambda>b. offer_buffer E (uv_reader b) sz)))"

text \<open>Releasing the message under construction: \<open>sc_msg_free(uv->msg); uv->msg = 0\<close>.\<close>

definition drop_msg :: "('u, 'a) env \<Rightarrow> addr \<Rightarrow> (('u, 'a) world, unit) prog" where
  "drop_msg E u =
     bnd (load_buv u) (\<lambda>b.
     seq (sc_msg_free E (uv_msg b))
     (bnd (load_buv u) (\<lambda>b. store u (Buv (b\<lparr>uv_msg := None\<rparr>)))))"

definition read_wrap :: "('u, 'a) env \<Rightarrow> addr \<Rightarrow> int \<Rightarrow> (('u, 'a) world, unit) prog" where
  "read_wrap E stream nread =
     via_data stream_data stream (\<lambda>u b.
     let errcode = (if nread \<ge> 0 \<or> nread = UV_EOF then 0 else to_int nread) in
     if nread < 0 then
       seq (if nread = UV_EOF then
              seq (dbg_assert (errcode = 0))
              (bnd (load_watcher (uv_watcher b)) (\<lambda>wt. fire_recv E wt None errcode))
            else
              seq (dbg_assert (errcode \<noteq> 0))
              (bnd (load_watcher (uv_watcher b)) (\<lambda>wt. fire_recv E wt None errcode)))
       (drop_msg E u)
     else if nread > 0 then
       bnd (msg_reader_avail_head_size (uv_reader b)) (\<lambda>hsize.
       bnd (if hsize > 0 then msg_reader_parse_head (uv_reader b) (to_unsigned nread)
            else msg_reader_parse_body E (uv_reader b) (to_unsigned nread)) (\<lambda>(r, left).
       seq (store u (Buv (b\<lparr>uv_reader := r\<rparr>)))
       (bnd (msg_reader_finished E r) (\<lambda>fin.
        if fin then
          seq (dbg_assert (errcode = 0))
          (bnd (load_watcher (uv_watcher b)) (\<lambda>wt.
           seq (fire_recv E wt (uv_msg b) errcode)
           (drop_msg E u)))
        else ret ()))))
     else ret ())"

section \<open>Accepting, binding and listening\<close>

text \<open>The three failures and the success of \<open>buv_accept\<close> end in the client's \<open>on_accept\<close>.\<close>

definition buv_accept :: "('u, 'a) env \<Rightarrow> addr \<Rightarrow> addr \<Rightarrow> (('u, 'a) world, unit) prog" where
  "buv_accept E server client =
     bnd (load_buv server) (\<lambda>srv.
     seq (dbg_assert (uv_proto srv = PROTO_PIPE \<or> uv_proto srv = PROTO_TCP))
     (bnd buv_loop (\<lambda>lp.
      bnd (if uv_proto srv = PROTO_PIPE then uv_call (uv_pipe_init E lp client 0)
           else uv_call (uv_tcp_init E lp client)) (\<lambda>errcode.
      bnd (load_buv client) (\<lambda>clt.
      bnd (load_watcher (uv_watcher clt)) (\<lambda>wt.
      if errcode \<noteq> 0 then fire_accept E wt errcode
      else
        seq (store client (Buv (clt\<lparr>uv_proto := uv_proto srv\<rparr>)))
        (bnd (uv_call (uv_accept E server client)) (\<lambda>errcode.
         if errcode \<noteq> 0 then fire_accept E wt errcode
         else
           bnd (uv_call (uv_read_start E client)) (\<lambda>errcode.
           if errcode \<noteq> 0 then fire_accept E wt errcode
           else seq (dbg_assert (errcode = 0)) (fire_accept E wt errcode))))))))))"

definition bind_pipe :: "('u, 'a) env \<Rightarrow> addr \<Rightarrow> string option \<Rightarrow> (('u, 'a) world, int) prog" where
  "bind_pipe E srv filepath =
     bnd buv_loop (\<lambda>lp.
     bnd (uv_call (uv_pipe_init E lp srv 0)) (\<lambda>errcode.
     if errcode \<noteq> 0 then ret errcode
     else bnd (deref filepath) (\<lambda>path. uv_call (uv_pipe_bind E srv path))))"

definition bind_tcp ::
    "('u, 'a) env \<Rightarrow> addr \<Rightarrow> string option \<Rightarrow> u32 \<Rightarrow> (('u, 'a) world, int) prog" where
  "bind_tcp E srv ip4 port =
     bnd buv_loop (\<lambda>lp.
     bnd (uv_call (uv_tcp_init E lp srv)) (\<lambda>errcode.
     if errcode \<noteq> 0 then ret errcode
     else
       bnd (set_tcp_addr E srv ip4 port) (\<lambda>errcode.
       if errcode \<noteq> 0 then ret errcode
       else bnd (load_buv srv) (\<lambda>b. uv_call (uv_tcp_bind E srv (tcp_addr b) 0)))))"

definition buv_bind :: "('u, 'a) env \<Rightarrow> addr \<Rightarrow> addr \<Rightarrow> (('u, 'a) world, int) prog" where
  "buv_bind E server uri =
     bnd (load_buv server) (\<lambda>srv.
     bnd (sc_uri_protocol uri) (\<lambda>proto.
     seq (store server (Buv (srv\<lparr>uv_proto := proto\<rparr>)))
     (seq (dbg_assert (proto = PROTO_PIPE \<or> proto = PROTO_TCP))
     (if proto = PROTO_PIPE then
        bnd (sc_uri_pipe_filepath uri) (\<lambda>path. bind_pipe E server path)
      else
        bnd (sc_uri_tcp_ip4 uri) (\<lambda>ip4.
        bnd (sc_uri_tcp_port uri) (\<lambda>port. bind_tcp E server ip4 port))))))"

definition on_connection_wrap :: "('u, 'a) env \<Rightarrow> addr \<Rightarrow> int \<Rightarrow> (('u, 'a) world, unit) prog" where
  "on_connection_wrap E stream errcode =
     via_data stream_data stream (\<lambda>_ buv.
     bnd (load_watcher (uv_watcher buv)) (\<lambda>wt. fire_connection E wt errcode))"

definition buv_listen :: "('u, 'a) env \<Rightarrow> addr \<Rightarrow> int \<Rightarrow> (('u, 'a) world, int) prog" where
  "buv_listen E server backlog = bnd (load_buv server) (\<lambda>_. uv_call (uv_listen E server backlog))"

section \<open>Sending and closing\<close>

definition write_wrap :: "('u, 'a) env \<Rightarrow> addr \<Rightarrow> int \<Rightarrow> (('u, 'a) world, unit) prog" where
  "write_wrap E request errcode =
     via_data write_data request (\<lambda>_ buv.
     bnd (load_watcher (uv_watcher buv)) (\<lambda>wt. fire_send E wt errcode))"

text \<open>The two buffers of a send: the size field and the data.\<close>

definition send_buffers :: "addr \<Rightarrow> u32 \<Rightarrow> uv_buf list" where
  "send_buffers msg n =
     [\<lparr>buf_base = Some (Size_be msg 0), buf_len = ucast SC_MSG_SIZE_BYTES\<rparr>,
      \<lparr>buf_base = Some (Data msg 0), buf_len = ucast n\<rparr>]"

definition buv_send :: "('u, 'a) env \<Rightarrow> addr \<Rightarrow> addr \<Rightarrow> (('u, 'a) world, int) prog" where
  "buv_send E socket msg =
     bnd (load_buv socket) (\<lambda>b.
     bnd (sc_msg_get_size E msg) (\<lambda>n.
     seq (store socket (Buv (b\<lparr>write_buffers := send_buffers msg n\<rparr>)))
     (uv_call (uv_write E socket (send_buffers msg n)))))"

definition close_wrap :: "('u, 'a) env \<Rightarrow> addr \<Rightarrow> (('u, 'a) world, unit) prog" where
  "close_wrap E handle =
     via_data stream_data handle (\<lambda>_ buv.
     bnd (load_watcher (uv_watcher buv)) (\<lambda>wt. fire_close E wt))"

definition buv_close :: "('u, 'a) env \<Rightarrow> addr \<Rightarrow> (('u, 'a) world, int) prog" where
  "buv_close E socket =
     bnd (load_buv socket) (\<lambda>_.
     seq (uv_call (\<lambda>u. ((), uv_close E socket u))) (ret 0))"

section \<open>The table of functions\<close>

text \<open>\<open>struct backend\<close> of \<open>src/backend.h\<close>, and the one value of it, \<open>buv_funcs\<close>.\<close>

record ('u, 'a) backend_ops =
  be_alloc :: "(('u, 'a) world, addr option) prog"
  be_init :: "addr \<Rightarrow> addr \<Rightarrow> (('u, 'a) world, unit) prog"
  be_free :: "addr option \<Rightarrow> (('u, 'a) world, unit) prog"
  be_connect :: "addr \<Rightarrow> addr \<Rightarrow> (('u, 'a) world, int) prog"
  be_accept :: "addr \<Rightarrow> addr \<Rightarrow> (('u, 'a) world, unit) prog"
  be_bind :: "addr \<Rightarrow> addr \<Rightarrow> (('u, 'a) world, int) prog"
  be_listen :: "addr \<Rightarrow> int \<Rightarrow> (('u, 'a) world, int) prog"
  be_send :: "addr \<Rightarrow> addr \<Rightarrow> (('u, 'a) world, int) prog"
  be_close :: "addr \<Rightarrow> (('u, 'a) world, int) prog"
  be_strerror :: "int \<Rightarrow> string"

definition buv_funcs :: "('u, 'a) env \<Rightarrow> ('u, 'a) backend_ops" where
  "buv_funcs E =
     \<lparr>be_alloc = buv_alloc, be_init = buv_init E, be_free = buv_free,
      be_connect = buv_connect E, be_accept = buv_accept E, be_bind = buv_bind E,
      be_listen = buv_listen E, be_send = buv_send E, be_close = buv_close E,
      be_strerror = buv_strerror (plat E)\<rparr>"

definition backend_table :: "('u, 'a) env \<Rightarrow> backend_id \<Rightarrow> ('u, 'a) backend_ops" where
  "backend_table E b = (case b of Buv_funcs \<Rightarrow> buv_funcs E)"

text \<open>\<open>src/backend.c\<close>, and a call through the global pointer \<open>backend\<close>.\<close>

definition backend_init :: "backend_id \<Rightarrow> (('u, 'a) world, unit) prog" where
  "backend_init be = upd (\<lambda>w. w\<lparr>backend := Some be\<rparr>)"

definition via_backend ::
    "('u, 'a) env \<Rightarrow> (('u, 'a) backend_ops \<Rightarrow> (('u, 'a) world, 'x) prog) \<Rightarrow> (('u, 'a) world, 'x) prog" where
  "via_backend E k = bnd (gets backend) (\<lambda>p. bnd (deref p) (\<lambda>b. k (backend_table E b)))"

section \<open>The calls made to libuv\<close>

text \<open>The status of a sequence of calls that stops at the first failure.\<close>

fun first_error :: "int list \<Rightarrow> int" where
  "first_error [] = 0"
| "first_error (e # es) = (if e \<noteq> 0 then e else first_error es)"

lemma uv_call_apply [simp]:
  "uv_call f w = Inr (fst (f (uv w)), w\<lparr>uv := snd (f (uv w))\<rparr>)"
  by (simp add: uv_call_def case_prod_unfold Let_def)

lemma buv_loop_apply:
  "buv_data w = Some d \<Longrightarrow> heap w d = Some (Uv_data lp) \<Longrightarrow> buv_loop w = Inr (lp, w)"
  by (simp add: buv_loop_def)

lemma set_tcp_addr_apply:
  "heap w b = Some (Buv bu) \<Longrightarrow> set_tcp_addr E b (Some ip) port w =
     Inr (fst (uv_ip4_addr E ip (sint port)),
       w\<lparr>heap := (heap w)(b \<mapsto> Buv (bu\<lparr>tcp_addr := snd (uv_ip4_addr E ip (sint port))\<rparr>))\<rparr>)"
  by (simp add: set_tcp_addr_def case_prod_unfold Let_def)

lemma connect_tcp_apply:
  fixes E :: "('u, 'a) env" and w :: "('u, 'a) world" and port :: u32 and ip :: string
  assumes "buv_data w = Some d" and "heap w d = Some (Uv_data lp)" and "heap w b = Some (Buv bu)"
  defines "r0 \<equiv> uv_tcp_init E lp b (uv w)"
    and "sa \<equiv> uv_ip4_addr E ip (sint port)"
  defines "r2 \<equiv> uv_tcp_connect E b (snd sa) (snd r0)"
  shows "\<exists>w'. connect_tcp E b (Some ip) port w = Inr (first_error [fst r0, fst sa, fst r2], w') \<and>
    uv w' = (if fst r0 = 0 \<and> fst sa = 0 then snd r2 else snd r0)"
  using assms by (simp add: connect_tcp_def buv_loop_apply set_tcp_addr_apply)

lemma bind_tcp_apply:
  fixes E :: "('u, 'a) env" and w :: "('u, 'a) world" and port :: u32 and ip :: string
  assumes "buv_data w = Some d" and "heap w d = Some (Uv_data lp)" and "heap w b = Some (Buv bu)"
  defines "r0 \<equiv> uv_tcp_init E lp b (uv w)"
    and "sa \<equiv> uv_ip4_addr E ip (sint port)"
  defines "r2 \<equiv> uv_tcp_bind E b (snd sa) 0 (snd r0)"
  shows "\<exists>w'. bind_tcp E b (Some ip) port w = Inr (first_error [fst r0, fst sa, fst r2], w') \<and>
    uv w' = (if fst r0 = 0 \<and> fst sa = 0 then snd r2 else snd r0)"
  using assms by (simp add: bind_tcp_def buv_loop_apply set_tcp_addr_apply)

lemma connect_pipe_apply:
  fixes E :: "('u, 'a) env" and w :: "('u, 'a) world" and path :: string and b :: addr
  assumes "buv_data w = Some d" and "heap w d = Some (Uv_data lp)"
  defines "r0 \<equiv> uv_pipe_init E lp b 0 (uv w)"
  shows "connect_pipe E b (Some path) w =
    Inr (fst r0, w\<lparr>uv := if fst r0 = 0 then uv_pipe_connect E b path (snd r0) else snd r0\<rparr>)"
  using assms by (simp add: connect_pipe_def buv_loop_apply)

lemma bind_pipe_apply:
  fixes E :: "('u, 'a) env" and w :: "('u, 'a) world" and path :: string and b :: addr
  assumes "buv_data w = Some d" and "heap w d = Some (Uv_data lp)"
  defines "r0 \<equiv> uv_pipe_init E lp b 0 (uv w)"
  defines "r1 \<equiv> uv_pipe_bind E b path (snd r0)"
  shows "bind_pipe E b (Some path) w =
    Inr (first_error [fst r0, fst r1], w\<lparr>uv := if fst r0 = 0 then snd r1 else snd r0\<rparr>)"
  using assms by (simp add: bind_pipe_def buv_loop_apply)

end
