(* ===== verification/Socket.thy ===== *)
theory Socket
  imports Backend_UV
begin

text \<open>
  \<open>src/socket.c\<close> and \<open>src/sc.c\<close>: the sockets of the public interface, over whichever backend is
  installed. What the socket layer relies on is the locale \<open>backend_contract\<close>, which the libuv
  backend satisfies.
\<close>

section \<open>src/socket.c\<close>

definition modify_sock :: "addr \<Rightarrow> (sc_socket \<Rightarrow> sc_socket) \<Rightarrow> (('u, 'a) world, unit) prog" where
  "modify_sock s f = bnd (load_sock s) (\<lambda>so. store s (Sock (f so)))"

text \<open>The part of \<open>sc_socket_new\<close> after the socket's own block was obtained.\<close>

definition socket_attach :: "('u, 'a) env \<Rightarrow> addr \<Rightarrow> (('u, 'a) world, addr option) prog" where
  "socket_attach E s =
     bnd (via_backend E be_alloc) (\<lambda>q.
     seq (modify_sock s (sock_backend_update (\<lambda>_. q)))
     (case q of
        None \<Rightarrow> seq (via_backend E (\<lambda>ops. be_free ops q)) (ret None)
      | Some b \<Rightarrow>
          seq (modify_sock s (sock_watcher_update (\<lambda>_. sc_watcher_init s)))
          (seq (via_backend E (\<lambda>ops. be_init ops b s))
          (seq (modify_sock s (sock_uri_update (\<lambda>_. None)))
          (ret (Some s))))))"

definition sc_socket_new :: "('u, 'a) env \<Rightarrow> (('u, 'a) world, addr option) prog" where
  "sc_socket_new E =
     bnd (gets junk_sock) (\<lambda>j.
     bnd (malloc (Sock j)) (\<lambda>p.
     case p of
       None \<Rightarrow> ret None
     | Some s \<Rightarrow> seq (modify_sock s (userdata_update (\<lambda>_. None))) (socket_attach E s)))"

definition sc_socket_del :: "('u, 'a) env \<Rightarrow> addr \<Rightarrow> (('u, 'a) world, unit) prog" where
  "sc_socket_del E s =
     bnd (load_sock s) (\<lambda>so.
     seq (case sock_uri so of None \<Rightarrow> ret () | Some u \<Rightarrow> sc_uri_del u)
     (seq (via_backend E (\<lambda>ops. be_free ops (sock_backend so)))
     (c_free (Some s))))"

definition sc_socket_connect :: "('u, 'a) env \<Rightarrow> addr \<Rightarrow> string \<Rightarrow> (('u, 'a) world, int) prog" where
  "sc_socket_connect E s uri =
     bnd (sc_uri_new E uri) (\<lambda>(u, errcode).
     seq (modify_sock s (sock_uri_update (\<lambda>_. u)))
     (case u of
        None \<Rightarrow> ret errcode
      | Some ua \<Rightarrow>
          bnd (load_sock s) (\<lambda>so.
          bnd (deref (sock_backend so)) (\<lambda>b.
          via_backend E (\<lambda>ops. be_connect ops b ua)))))"

definition sc_socket_accept :: "('u, 'a) env \<Rightarrow> addr \<Rightarrow> addr \<Rightarrow> (('u, 'a) world, unit) prog" where
  "sc_socket_accept E server client =
     bnd (load_sock server) (\<lambda>so.
     bnd (load_sock client) (\<lambda>co.
     bnd (deref (sock_backend so)) (\<lambda>sb.
     bnd (deref (sock_backend co)) (\<lambda>cb.
     via_backend E (\<lambda>ops. be_accept ops sb cb)))))"

definition sc_socket_bind :: "('u, 'a) env \<Rightarrow> addr \<Rightarrow> string \<Rightarrow> (('u, 'a) world, int) prog" where
  "sc_socket_bind E s uri =
     bnd (sc_uri_new E uri) (\<lambda>(u, errcode).
     seq (modify_sock s (sock_uri_update (\<lambda>_. u)))
     (case u of
        None \<Rightarrow> ret errcode
      | Some ua \<Rightarrow>
          bnd (load_sock s) (\<lambda>so.
          bnd (deref (sock_backend so)) (\<lambda>b.
          via_backend E (\<lambda>ops. be_bind ops b ua)))))"

definition sc_socket_listen :: "('u, 'a) env \<Rightarrow> addr \<Rightarrow> int \<Rightarrow> (('u, 'a) world, int) prog" where
  "sc_socket_listen E s backlog =
     bnd (load_sock s) (\<lambda>so.
     bnd (deref (sock_backend so)) (\<lambda>b.
     via_backend E (\<lambda>ops. be_listen ops b backlog)))"

definition sc_socket_send :: "('u, 'a) env \<Rightarrow> addr \<Rightarrow> addr \<Rightarrow> (('u, 'a) world, int) prog" where
  "sc_socket_send E s msg =
     bnd (load_sock s) (\<lambda>so.
     bnd (deref (sock_backend so)) (\<lambda>b.
     via_backend E (\<lambda>ops. be_send ops b msg)))"

definition sc_socket_close :: "('u, 'a) env \<Rightarrow> addr \<Rightarrow> (('u, 'a) world, int) prog" where
  "sc_socket_close E s =
     bnd (load_sock s) (\<lambda>so.
     bnd (deref (sock_backend so)) (\<lambda>b.
     bnd (via_backend E (\<lambda>ops. be_close ops b)) (\<lambda>errcode.
     bnd (load_sock s) (\<lambda>so.
     seq (case sock_uri so of
            None \<Rightarrow> ret ()
          | Some u \<Rightarrow> seq (sc_uri_del u) (modify_sock s (sock_uri_update (\<lambda>_. None))))
     (ret errcode)))))"

definition sc_socket_set_userdata :: "addr \<Rightarrow> addr option \<Rightarrow> (('u, 'a) world, unit) prog" where
  "sc_socket_set_userdata s d = modify_sock s (userdata_update (\<lambda>_. d))"

definition sc_socket_get_userdata :: "addr \<Rightarrow> (('u, 'a) world, addr option) prog" where
  "sc_socket_get_userdata s = bnd (load_sock s) (\<lambda>so. ret (userdata so))"

definition sc_socket_on_connect :: "addr \<Rightarrow> callback \<Rightarrow> (('u, 'a) world, unit) prog" where
  "sc_socket_on_connect s cb = modify_sock s (sock_watcher_update (on_connect_update (\<lambda>_. cb)))"

definition sc_socket_on_connection :: "addr \<Rightarrow> callback \<Rightarrow> (('u, 'a) world, unit) prog" where
  "sc_socket_on_connection s cb =
     modify_sock s (sock_watcher_update (on_connection_update (\<lambda>_. cb)))"

definition sc_socket_on_accept :: "addr \<Rightarrow> callback \<Rightarrow> (('u, 'a) world, unit) prog" where
  "sc_socket_on_accept s cb = modify_sock s (sock_watcher_update (on_accept_update (\<lambda>_. cb)))"

definition sc_socket_on_recv :: "addr \<Rightarrow> callback \<Rightarrow> (('u, 'a) world, unit) prog" where
  "sc_socket_on_recv s cb = modify_sock s (sock_watcher_update (on_recv_update (\<lambda>_. cb)))"

definition sc_socket_on_send :: "addr \<Rightarrow> callback \<Rightarrow> (('u, 'a) world, unit) prog" where
  "sc_socket_on_send s cb = modify_sock s (sock_watcher_update (on_send_update (\<lambda>_. cb)))"

definition sc_socket_on_close :: "addr \<Rightarrow> callback \<Rightarrow> (('u, 'a) world, unit) prog" where
  "sc_socket_on_close s cb = modify_sock s (sock_watcher_update (on_close_update (\<lambda>_. cb)))"

section \<open>src/sc.c\<close>

definition sc_init ::
    "sc_backend \<Rightarrow> addr option \<Rightarrow> alloc_fn option \<Rightarrow> free_fn option \<Rightarrow> (('u, 'a) world, unit) prog" where
  "sc_init be backend_data rec_alloc rec_free =
     seq (if be = SC_LIBUV then bnd (backend_uv_init backend_data) backend_init
          else sc_warn ''invalid backend'')
     (sc_msg_init_allocator rec_alloc rec_free)"

definition sc_strerror :: "('u, 'a) env \<Rightarrow> int \<Rightarrow> (('u, 'a) world, string) prog" where
  "sc_strerror E errcode =
     (if errcode = SC_ENOMEM then ret ''not enough memory''
      else if errcode = SC_EURIPARSE then ret ''invalid URI''
      else if errcode = SC_EINVPROTO then ret ''invalid protocol''
      else via_backend E (\<lambda>ops. ret (be_strerror ops errcode)))"

section \<open>What the socket layer relies on\<close>

text \<open>
  Memory of a backend: \<open>alloc\<close> gives a new block or nothing, \<open>init\<close> fills that block only,
  \<open>free\<close> gives it back. \<open>own\<close> recognises the blocks the backend makes.
\<close>

locale backend_contract =
  fixes E :: "('u, 'a) env" and be :: backend_id and own :: "obj \<Rightarrow> bool"
  assumes alloc_some:
      "wf_heap w \<Longrightarrow> be_alloc (backend_table E be) w = Inr (Some b, w') \<Longrightarrow>
       \<exists>ob. own ob \<and> heap w b = None \<and> wf_heap w' \<and>
            w' = w\<lparr>heap := (heap w)(b \<mapsto> ob), fresh := fresh w'\<rparr>"
    and alloc_none:
      "wf_heap w \<Longrightarrow> be_alloc (backend_table E be) w = Inr (None, w') \<Longrightarrow>
       wf_heap w' \<and> w' = w\<lparr>fresh := fresh w'\<rparr>"
    and alloc_returns: "\<exists>r. be_alloc (backend_table E be) w = Inr r"
    and init_own:
      "heap w b = Some ob \<Longrightarrow> own ob \<Longrightarrow>
       \<exists>ob'. own ob' \<and> be_init (backend_table E be) b s w = Inr ((), w\<lparr>heap := (heap w)(b \<mapsto> ob')\<rparr>)"
    and free_own:
      "heap w b = Some ob \<Longrightarrow> own ob \<Longrightarrow>
       be_free (backend_table E be) (Some b) w = Inr ((), w\<lparr>heap := (heap w)(b := None)\<rparr>)"
    and free_null: "be_free (backend_table E be) None w = Inr ((), w)"

lemma buv_alloc_cases:
  "buv_alloc w =
     (if malloc_ok w (fresh w)
      then Inr (Some (fresh w),
        w\<lparr>heap := (heap w)(fresh w \<mapsto> Buv (junk_buv w)), fresh := Suc (fresh w)\<rparr>)
      else Inr (None, w\<lparr>fresh := Suc (fresh w)\<rparr>))"
  by (simp add: buv_alloc_def malloc_def bnd_def)

text \<open>The structure \<open>buv_init\<close> leaves at \<open>b\<close> for a watcher in socket \<open>s\<close>.\<close>

definition inited_buv :: "('u, 'a) env \<Rightarrow> addr \<Rightarrow> addr \<Rightarrow> socket_uv \<Rightarrow> socket_uv" where
  "inited_buv E b s j =
     j\<lparr>uv_watcher := s, stream_data := Some b, connect_data := Some b, write_data := Some b,
       write_buffers := [uv_buf_init E None 0, uv_buf_init E None 0],
       uv_msg := None, uv_proto := PROTO_NOSET, tcp_addr := ctb_bzero E 16\<rparr>"

lemma buv_init_ok [step_simps]:
  "heap w b = Some (Buv j) \<Longrightarrow>
   buv_init E b s w = Inr ((), w\<lparr>heap := (heap w)(b \<mapsto> Buv (inited_buv E b s j))\<rparr>)"
  by (simp add: buv_init_def inited_buv_def)

definition is_buv :: "obj \<Rightarrow> bool" where
  "is_buv ob = (case ob of Buv _ \<Rightarrow> True | _ \<Rightarrow> False)"

lemma is_buvE: "is_buv ob \<Longrightarrow> (\<And>b. ob = Buv b \<Longrightarrow> P) \<Longrightarrow> P"
  by (cases ob) (auto simp: is_buv_def)

interpretation uv_backend: backend_contract E Buv_funcs is_buv
  for E :: "('u, 'a) env"
proof unfold_locales
  fix w w' :: "('u, 'a) world" and b
  assume "wf_heap w" "be_alloc (backend_table E Buv_funcs) w = Inr (Some b, w')"
  then show "\<exists>ob. is_buv ob \<and> heap w b = None \<and> wf_heap w' \<and>
      w' = w\<lparr>heap := (heap w)(b \<mapsto> ob), fresh := fresh w'\<rparr>"
    by (intro exI [of _ "Buv (junk_buv w)"])
      (auto simp: backend_table_def buv_funcs_def buv_alloc_cases is_buv_def wf_heap_fresh
        wf_heap_def less_Suc_eq split: if_splits)
next
  fix w w' :: "('u, 'a) world"
  assume "wf_heap w" "be_alloc (backend_table E Buv_funcs) w = Inr (None, w')"
  then show "wf_heap w' \<and> w' = w\<lparr>fresh := fresh w'\<rparr>"
    by (auto simp: backend_table_def buv_funcs_def buv_alloc_cases wf_heap_def less_Suc_eq
        split: if_splits)
next
  fix w :: "('u, 'a) world" and b s ob
  assume "heap w b = Some ob" "is_buv ob"
  then show "\<exists>ob'. is_buv ob' \<and> be_init (backend_table E Buv_funcs) b s w =
      Inr ((), w\<lparr>heap := (heap w)(b \<mapsto> ob')\<rparr>)"
    by (elim is_buvE) (auto simp: backend_table_def buv_funcs_def buv_init_ok is_buv_def
        intro!: exI [of _ "Buv (inited_buv E b s _)"])
qed (auto simp: backend_table_def buv_funcs_def buv_alloc_cases buv_free_def)

lemma modify_sock_simp [simp]:
  "heap w s = Some (Sock so) \<Longrightarrow>
   modify_sock s f w = Inr ((), w\<lparr>heap := (heap w)(s \<mapsto> Sock (f so))\<rparr>)"
  by (simp add: modify_sock_def)

text \<open>The socket a successful \<open>sc_socket_new\<close> makes.\<close>

definition new_sock :: "addr \<Rightarrow> addr \<Rightarrow> sc_socket" where
  "new_sock s b =
     \<lparr>userdata = None, sock_backend = Some b, sock_uri = None, sock_watcher = sc_watcher_init s\<rparr>"

lemma new_sock_junk:
  "j\<lparr>userdata := None, sock_backend := Some b, sock_watcher := sc_watcher_init s, sock_uri := None\<rparr>
    = new_sock s b"
  by (cases j) (simp add: new_sock_def)

text \<open>
  With memory for the socket, what follows depends on the backend's \<open>alloc\<close>, called in the
  state \<open>new_first w\<close> where the new block holds a socket whose \<open>userdata\<close> is set.
\<close>

definition new_first :: "('u, 'a) world \<Rightarrow> ('u, 'a) world" where
  "new_first w = w\<lparr>heap := (heap w)(fresh w \<mapsto> Sock ((junk_sock w)\<lparr>userdata := None\<rparr>)),
     fresh := Suc (fresh w)\<rparr>"

lemma wf_new_first: "wf_heap w \<Longrightarrow> wf_heap (new_first w)"
  by (auto simp: new_first_def wf_heap_def less_Suc_eq)

lemma sc_socket_new_first:
  "malloc_ok w (fresh w) \<Longrightarrow> sc_socket_new E w = socket_attach E (fresh w) (new_first w)"
proof -
  assume ok: "malloc_ok w (fresh w)"
  have "modify_sock (fresh w) (userdata_update (\<lambda>_. None))
      (w\<lparr>heap := (heap w)(fresh w \<mapsto> Sock (junk_sock w)), fresh := Suc (fresh w)\<rparr>) =
    Inr ((), new_first w)"
    by (simp add: new_first_def)
  with ok show ?thesis
    by (simp add: sc_socket_new_def malloc_def)
qed

context backend_contract
begin

lemma via_backend_simp [simp]:
  "backend w = Some be \<Longrightarrow> via_backend E k w = k (backend_table E be) w"
  by (simp add: via_backend_def)

text \<open>Without memory for the socket nothing is allocated.\<close>

lemma new_no_memory:
  "\<not> malloc_ok w (fresh w) \<Longrightarrow> sc_socket_new E w = Inr (None, w\<lparr>fresh := Suc (fresh w)\<rparr>)"
  by (simp add: sc_socket_new_def malloc_def)

lemma new_success:
  assumes "wf_heap w" and "backend w = Some be" and "malloc_ok w (fresh w)"
    and "be_alloc (backend_table E be) (new_first w) = Inr (Some b, w1)"
  shows "\<exists>w' ob. sc_socket_new E w = Inr (Some (fresh w), w') \<and> own ob \<and> wf_heap w' \<and>
    heap w b = None \<and> b \<noteq> fresh w \<and>
    w' = w\<lparr>heap := (heap w)(fresh w \<mapsto> Sock (new_sock (fresh w) b), b \<mapsto> ob), fresh := fresh w'\<rparr>"
proof -
  let ?s = "fresh w"
  from alloc_some [OF wf_new_first [OF assms(1)] assms(4)] obtain ob where
    own: "own ob" and b: "heap (new_first w) b = None" and wf1: "wf_heap w1"
    and w1: "w1 = (new_first w)\<lparr>heap := (heap (new_first w))(b \<mapsto> ob), fresh := fresh w1\<rparr>"
    by blast
  have bs: "b \<noteq> ?s" and hb: "heap w b = None"
    using b by (auto simp: new_first_def split: if_splits)
  have h1: "heap w1 = (heap w)(?s \<mapsto> Sock ((junk_sock w)\<lparr>userdata := None\<rparr>), b \<mapsto> ob)"
    by (subst w1) (simp add: new_first_def)
  have bef: "backend (new_first w) = Some be"
    using assms(2) by (simp add: new_first_def)
  have be1: "backend w1 = Some be"
    by (subst w1) (simp add: new_first_def assms(2))
  let ?w2 = "w1\<lparr>heap := (heap w)(?s \<mapsto> Sock ((junk_sock w)\<lparr>userdata := None, sock_backend := Some b,
        sock_watcher := sc_watcher_init ?s\<rparr>), b \<mapsto> ob)\<rparr>"
  have hw2: "heap ?w2 b = Some ob" using bs by simp
  from init_own [OF hw2 own, of ?s] obtain ob' where own': "own ob'" and
    init: "be_init (backend_table E be) b ?s ?w2 = Inr ((), ?w2\<lparr>heap := (heap ?w2)(b \<mapsto> ob')\<rparr>)"
    by blast
  let ?w' = "w1\<lparr>heap := (heap w)(?s \<mapsto> Sock (new_sock ?s b), b \<mapsto> ob')\<rparr>"
  have run: "sc_socket_new E w = Inr (Some ?s, ?w')"
    using assms(3,4) bs h1 be1 init bef
    by (simp add: sc_socket_new_first socket_attach_def new_sock_junk fun_upd_twist)
  have "dom (heap ?w') = dom (heap w1)"
    using h1 by auto
  then have "wf_heap ?w'"
    using wf1 by (simp add: wf_heap_def)
  moreover have "?w' = w\<lparr>heap := (heap w)(?s \<mapsto> Sock (new_sock ?s b), b \<mapsto> ob'), fresh := fresh ?w'\<rparr>"
    by (subst w1) (simp add: new_first_def)
  ultimately show ?thesis
    using run own' hb bs by blast
qed

text \<open>A failing backend leaves the block of the socket allocated, with no pointer to it.\<close>

lemma new_backend_fails:
  assumes "wf_heap w" and "backend w = Some be" and "malloc_ok w (fresh w)"
    and "be_alloc (backend_table E be) (new_first w) = Inr (None, w1)"
  shows "\<exists>w' so. sc_socket_new E w = Inr (None, w') \<and>
    heap w' = (heap w)(fresh w \<mapsto> Sock so) \<and> heap w (fresh w) = None"
proof -
  let ?s = "fresh w"
  from alloc_none [OF wf_new_first [OF assms(1)] assms(4)]
  have w1: "w1 = (new_first w)\<lparr>fresh := fresh w1\<rparr>" by simp
  have "heap w1 = heap (new_first w)" "backend w1 = Some be"
    by (subst w1, simp add: new_first_def assms(2))+
  moreover have "backend (new_first w) = Some be"
    using assms(2) by (simp add: new_first_def)
  ultimately show ?thesis
    using assms(1,3,4) free_null
    by (auto simp: sc_socket_new_first socket_attach_def new_first_def wf_heap_fresh)
qed

text \<open>Deleting a new socket gives back exactly what creating it took.\<close>

lemma del_new:
  assumes "backend w = Some be" and "heap w s = None" and "heap w b = None" and "b \<noteq> s"
    and "own ob" and "heap w' = (heap w)(s \<mapsto> Sock (new_sock s b), b \<mapsto> ob)"
    and "backend w' = Some be"
  shows "\<exists>w''. sc_socket_del E s w' = Inr ((), w'') \<and> heap w'' = heap w"
  using assms free_own [of w' b ob]
  by (simp add: sc_socket_del_def new_sock_def fun_upd_idem fun_upd_twist)

end

section \<open>Live sockets\<close>

text \<open>
  A socket and the backend structure behind it, pointing to each other as \<open>sc_socket_new\<close> leaves
  them: the \<open>data\<close> members lead from what libuv hands back to the structure, the watcher from
  there to the socket.
\<close>

definition live :: "addr \<Rightarrow> addr \<Rightarrow> sc_socket \<Rightarrow> socket_uv \<Rightarrow> ('u, 'a) world \<Rightarrow> bool" where
  "live s b so bu w \<longleftrightarrow>
     heap w s = Some (Sock so) \<and> sock_backend so = Some b \<and> watcher_socket (sock_watcher so) = s \<and>
     heap w b = Some (Buv bu) \<and> uv_watcher bu = s \<and>
     stream_data bu = Some b \<and> connect_data bu = Some b \<and> write_data bu = Some b"

lemma liveD:
  assumes "live s b so bu w"
  shows "heap w s = Some (Sock so)" "sock_backend so = Some b" "watcher_socket (sock_watcher so) = s"
    "heap w b = Some (Buv bu)" "uv_watcher bu = s" "stream_data bu = Some b"
    "connect_data bu = Some b" "write_data bu = Some b" "b \<noteq> s"
  using assms by (auto simp: live_def)

lemma backend_table_uv [simp]: "backend_table E Buv_funcs = buv_funcs E"
  by (simp add: backend_table_def)

lemma buv_funcs_simps [simp]:
  "be_alloc (buv_funcs E) = buv_alloc" "be_init (buv_funcs E) = buv_init E"
  "be_free (buv_funcs E) = buv_free" "be_connect (buv_funcs E) = buv_connect E"
  "be_accept (buv_funcs E) = buv_accept E" "be_bind (buv_funcs E) = buv_bind E"
  "be_listen (buv_funcs E) = buv_listen E" "be_send (buv_funcs E) = buv_send E"
  "be_close (buv_funcs E) = buv_close E" "be_strerror (buv_funcs E) = buv_strerror (plat E)"
  by (simp_all add: buv_funcs_def)

text \<open>The new socket, over the libuv backend.\<close>

lemma uv_socket_new:
  assumes "wf_heap w" and "backend w = Some Buv_funcs"
    and "malloc_ok w (fresh w)" and "malloc_ok w (Suc (fresh w))"
  shows "sc_socket_new E w = Inr (Some (fresh w),
    w\<lparr>heap := (heap w)(fresh w \<mapsto> Sock (new_sock (fresh w) (Suc (fresh w))),
        Suc (fresh w) \<mapsto> Buv (inited_buv E (Suc (fresh w)) (fresh w) (junk_buv w))),
      fresh := Suc (Suc (fresh w))\<rparr>)"
  using assms
  by (simp add: sc_socket_new_first socket_attach_def new_first_def buv_alloc_cases buv_init_ok
      new_sock_junk fun_upd_twist)

lemma live_new:
  "live s b (new_sock s b) (inited_buv E b s j)
    (w\<lparr>heap := H(s \<mapsto> Sock (new_sock s b), b \<mapsto> Buv (inited_buv E b s j)), fresh := n\<rparr>) \<longleftrightarrow> b \<noteq> s"
  by (auto simp: live_def new_sock_def inited_buv_def)

section \<open>Properties\<close>

text \<open>C20: \<open>sc_socket_new\<close> returns a new socket with no user data, no address and no callback set,
  linked both ways with a backend structure of its own; it touches no other memory, and
  \<open>sc_socket_del\<close> then restores the heap.\<close>

theorem socket_new_del:
  assumes "wf_heap w" and "backend w = Some Buv_funcs"
    and "malloc_ok w (fresh w)" and "malloc_ok w (Suc (fresh w))"
  shows "\<exists>s b bu w' w''. sc_socket_new E w = Inr (Some s, w') \<and> heap w s = None \<and> heap w b = None \<and>
    live s b (new_sock s b) bu w' \<and> uv_msg bu = None \<and>
    heap w' = (heap w)(s \<mapsto> Sock (new_sock s b), b \<mapsto> Buv bu) \<and>
    sc_socket_del E s w' = Inr ((), w'') \<and> heap w'' = heap w"
proof -
  let ?s = "fresh w" and ?b = "Suc (fresh w)"
  let ?bu = "inited_buv E ?b ?s (junk_buv w)"
  let ?w' = "w\<lparr>heap := (heap w)(?s \<mapsto> Sock (new_sock ?s ?b), ?b \<mapsto> Buv ?bu), fresh := Suc ?b\<rparr>"
  have free: "heap w ?s = None" "heap w ?b = None"
    using assms(1) by (simp_all add: wf_heap_ge)
  have "is_buv (Buv ?bu)" by (simp add: is_buv_def)
  from uv_backend.del_new [OF assms(2) free _ this, of ?w' E] assms(2)
  obtain w'' where "sc_socket_del E ?s ?w' = Inr ((), w'')" "heap w'' = heap w"
    by auto
  moreover have "live ?s ?b (new_sock ?s ?b) ?bu ?w'"
    by (simp add: live_new)
  moreover have "uv_msg ?bu = None" by (simp add: inited_buv_def)
  ultimately show ?thesis
    using uv_socket_new [OF assms, of E] free
    by (intro exI [of _ ?s] exI [of _ ?b] exI [of _ ?bu] exI [of _ ?w'] exI [of _ w'']) simp
qed

theorem socket_new_del_witness:
  "\<exists>s w' w''. sc_socket_new sample_env sample_world = Inr (Some s, w') \<and>
    sc_socket_del sample_env s w' = Inr ((), w'') \<and> heap w'' = heap sample_world"
  using socket_new_del [of sample_world sample_env] by auto

text \<open>When the backend has no memory, \<open>sc_socket_new\<close> returns NULL and leaves the block of the
  socket allocated, with no pointer to it.\<close>

theorem socket_new_leaks:
  assumes "wf_heap w" and "backend w = Some Buv_funcs"
    and "malloc_ok w (fresh w)" and "\<not> malloc_ok w (Suc (fresh w))"
  shows "\<exists>w' so. sc_socket_new E w = Inr (None, w') \<and> heap w (fresh w) = None \<and>
    heap w' = (heap w)(fresh w \<mapsto> Sock so)"
proof -
  have "be_alloc (backend_table E Buv_funcs) (new_first w) =
      Inr (None, (new_first w)\<lparr>fresh := Suc (Suc (fresh w))\<rparr>)"
    using assms(4) by (simp add: buv_alloc_cases new_first_def)
  from uv_backend.new_backend_fails [OF assms(1-3) this] show ?thesis by blast
qed

theorem socket_new_leaks_witness:
  "\<exists>w' so. sc_socket_new sample_env (sample_world\<lparr>malloc_ok := \<lambda>k. k \<noteq> 2\<rparr>) = Inr (None, w') \<and>
    heap w' = [0 \<mapsto> Uv_data 7, 1 \<mapsto> Sock so]"
  using socket_new_leaks [of "sample_world\<lparr>malloc_ok := \<lambda>k. k \<noteq> 2\<rparr>" sample_env]
  by (auto simp: wf_heap_def)

text \<open>C21: Events reach the application: once a callback has been registered on a socket, what
  libuv reports for the handle or request of its backend structure calls that function, with the
  socket and the status libuv gave, and no other.\<close>

theorem event_routing:
  assumes "live s b so bu w"
  shows "seq (sc_socket_on_connect s (User_fn f)) (on_connect_wrap E b e) w =
      call_event E f s e (w\<lparr>heap := (heap w)(s \<mapsto>
        Sock (sock_watcher_update (on_connect_update (\<lambda>_. User_fn f)) so))\<rparr>) \<and>
    seq (sc_socket_on_connection s (User_fn f)) (on_connection_wrap E b e) w =
      call_event E f s e (w\<lparr>heap := (heap w)(s \<mapsto>
        Sock (sock_watcher_update (on_connection_update (\<lambda>_. User_fn f)) so))\<rparr>) \<and>
    seq (sc_socket_on_send s (User_fn f)) (write_wrap E b e) w =
      call_event E f s e (w\<lparr>heap := (heap w)(s \<mapsto>
        Sock (sock_watcher_update (on_send_update (\<lambda>_. User_fn f)) so))\<rparr>) \<and>
    seq (sc_socket_on_close s (User_fn f)) (close_wrap E b) w =
      call_close E f s (w\<lparr>heap := (heap w)(s \<mapsto>
        Sock (sock_watcher_update (on_close_update (\<lambda>_. User_fn f)) so))\<rparr>)"
  using liveD [OF assms]
  by (simp add: sc_socket_on_connect_def sc_socket_on_connection_def sc_socket_on_send_def
      sc_socket_on_close_def on_connect_wrap_def on_connection_wrap_def write_wrap_def close_wrap_def
      via_data_def fire_defs)

definition sample_live :: sample_world where
  "sample_live = sample_world\<lparr>heap := [0 \<mapsto> Uv_data 7, 1 \<mapsto> Sock (new_sock 1 2),
     2 \<mapsto> Buv (inited_buv sample_env 2 1 (junk_buv sample_world))], fresh := 3\<rparr>"

lemma live_sample: "live 1 2 (new_sock 1 2) (inited_buv sample_env 2 1 (junk_buv sample_world)) sample_live"
  by (simp add: sample_live_def live_def new_sock_def inited_buv_def)

lemma sample_live_simps [simp]:
  "wf_heap sample_live" "backend sample_live = Some Buv_funcs" "malloc_ok sample_live k"
  "buv_data sample_live = Some 0" "heap sample_live 0 = Some (Uv_data 7)"
  "uv sample_live = []" "app sample_live = []" "\<not> ndebug sample_live"
  "stderr_lines sample_live = []"
  by (simp_all add: sample_live_def wf_heap_def)

theorem event_routing_witness:
  "\<exists>w. seq (sc_socket_on_connect 1 (User_fn ''f'')) (on_connect_wrap sample_env 2 (- 111)) sample_live
    = Inr ((), w) \<and> app w = [(1, None, - 111)]"
  using event_routing [OF live_sample, of "''f''" sample_env "- 111"]
  by (simp add: note_event_def sample_live_def)

text \<open>An event for which no callback was registered prints the warning of that callback, in a
  debug build, and changes nothing else.\<close>

theorem unset_callback_warns:
  assumes "live s b so bu w" and "sock_watcher so = sc_watcher_init s"
  shows "on_connect_wrap E b e w = sc_warn (''on_connect'' @ '' callback called but not set'') w \<and>
    on_connection_wrap E b e w = sc_warn (''on_connection'' @ '' callback called but not set'') w \<and>
    write_wrap E b e w = sc_warn (''on_send'' @ '' callback called but not set'') w \<and>
    close_wrap E b w = sc_warn (''on_close'' @ '' callback called but not set'') w"
  using liveD [OF assms(1)] assms(2)
  by (simp add: on_connect_wrap_def on_connection_wrap_def write_wrap_def close_wrap_def
      via_data_def fire_defs noop_defs NOTSET_WARNING_def)

theorem unset_callback_warns_witness:
  "\<exists>w. close_wrap sample_env 2 sample_live = Inr ((), w) \<and> heap w = heap sample_live \<and>
    stderr_lines w = [''on_close callback called but not set'']"
  using unset_callback_warns [OF live_sample, of sample_env 0]
  by (simp add: new_sock_def sc_warn_def sample_live_def)

end
