(* ===== verification/Framing.thy ===== *)
theory Framing
  imports Byte_Order
begin

text \<open>
  The framing of messages on a stream, without pointers: a message is its length as four
  big-endian bytes followed by its bytes. The receiver is a small machine that holds the bytes of
  the current message seen so far; it is what \<open>alloc_wrap\<close> and \<open>read_wrap\<close> of
  \<open>src/backend_uv.c\<close> implement (theory \<open>Receive\<close>), with their test for the end of a message.
\<close>

section \<open>Frames\<close>

definition frame :: "bytes \<Rightarrow> bytes" where
  "frame p = be_bytes (of_nat (length p)) @ p"

definition frames :: "bytes list \<Rightarrow> bytes" where
  "frames ps = concat (map frame ps)"

lemma frames_simps [simp]: "frames [] = []" "frames (p # ps) = frame p @ frames ps"
  by (simp_all add: frames_def)

lemma frame_not_Nil [simp]: "frame p \<noteq> []"
  by (simp add: frame_def be_bytes_def)

section \<open>The receiver\<close>

text \<open>The head and the body received so far; the head as it lies in the zeroed size field.\<close>

type_synonym rx = "bytes \<times> bytes"

definition pad4 :: "bytes \<Rightarrow> bytes" where
  "pad4 hdr = hdr @ replicate (4 - length hdr) 0"

lemma length_pad4 [simp]: "length hdr \<le> 4 \<Longrightarrow> length (pad4 hdr) = 4"
  by (simp add: pad4_def)

lemma pad4_full [simp]: "length hdr = 4 \<Longrightarrow> pad4 hdr = hdr"
  by (simp add: pad4_def)

lemma be_value_pad4_eq_0: "be_value (pad4 hdr) = 0 \<longleftrightarrow> (\<forall>x \<in> set hdr. x = 0)"
  by (auto simp: be_value_eq_0_iff pad4_def)

text \<open>How many bytes the receiver asks for.\<close>

definition rx_want :: "rx \<Rightarrow> nat" where
  "rx_want st =
     (if length (fst st) < 4 then 4 - length (fst st) else be_value (fst st) - length (snd st))"

text \<open>Taking in a chunk, and the test for the end: size field equal to the bytes of body.\<close>

definition rx_add :: "bytes \<Rightarrow> rx \<Rightarrow> rx" where
  "rx_add bs st = (if length (fst st) < 4 then (fst st @ bs, snd st) else (fst st, snd st @ bs))"

definition rx_done :: "rx \<Rightarrow> bool" where
  "rx_done st \<longleftrightarrow> be_value (pad4 (fst st)) = length (snd st)"

definition rx_feed :: "bytes \<Rightarrow> rx \<Rightarrow> rx \<times> bytes list" where
  "rx_feed bs st =
     (let st' = rx_add bs st in if rx_done st' then (([], []), [snd st']) else (st', []))"

fun rx_run :: "bytes list \<Rightarrow> rx \<Rightarrow> rx \<times> bytes list" where
  "rx_run [] st = (st, [])"
| "rx_run (bs # bss) st =
     (let (st1, out1) = rx_feed bs st; (st2, out2) = rx_run bss st1 in (st2, out1 @ out2))"

text \<open>
  A state between two reads: no body before the head is complete, and once a message has begun
  it is not finished.
\<close>

definition rx_ok :: "rx \<Rightarrow> bool" where
  "rx_ok st \<longleftrightarrow> length (fst st) \<le> 4 \<and> (length (fst st) < 4 \<longrightarrow> snd st = []) \<and>
     (fst st \<noteq> [] \<longrightarrow> length (snd st) < be_value (pad4 (fst st)))"

text \<open>
  Chunks libuv may deliver to a receiver that suggests buffers of \<open>cap\<close> bytes: not empty, within
  the buffer asked for; and that fit into the \<open>cap\<close> bytes allocated for the body.
\<close>

definition rx_chunk :: "nat \<Rightarrow> bytes \<Rightarrow> rx \<Rightarrow> bool" where
  "rx_chunk cap bs st \<longleftrightarrow> bs \<noteq> [] \<and> length bs \<le> min (rx_want st) cap \<and>
     (length (fst st) = 4 \<longrightarrow> length (snd st) + length bs \<le> cap)"

fun rx_chunks :: "nat \<Rightarrow> bytes list \<Rightarrow> rx \<Rightarrow> bool" where
  "rx_chunks cap [] st = True"
| "rx_chunks cap (bs # bss) st = (rx_chunk cap bs st \<and> rx_chunks cap bss (fst (rx_feed bs st)))"

text \<open>A head is never left at a prefix of zeros only.\<close>

definition head_safe :: "bytes \<Rightarrow> rx \<Rightarrow> bool" where
  "head_safe bs st \<longleftrightarrow>
     (length (fst st) + length bs < 4 \<longrightarrow> (\<exists>x \<in> set (fst st @ bs). x \<noteq> 0))"

fun heads_safe :: "bytes list \<Rightarrow> rx \<Rightarrow> bool" where
  "heads_safe [] st = True"
| "heads_safe (bs # bss) st = (head_safe bs st \<and> heads_safe bss (fst (rx_feed bs st)))"

lemma rx_ok_init [simp]: "rx_ok ([], [])"
  by (simp add: rx_ok_def)

lemma rx_ok_feed:
  assumes "rx_ok st" and "bs \<noteq> []" and "length bs \<le> rx_want st"
  shows "rx_ok (fst (rx_feed bs st))"
proof (cases "rx_done (rx_add bs st)")
  case True
  then show ?thesis by (simp add: rx_feed_def Let_def)
next
  case False
  obtain hdr body where st: "st = (hdr, body)" by (cases st)
  show ?thesis
  proof (cases "length hdr < 4")
    case True
    with False assms st show ?thesis
      by (auto simp: rx_feed_def rx_add_def rx_ok_def rx_done_def rx_want_def Let_def)
  next
    case complete: False
    with False assms st show ?thesis
      by (auto simp: rx_feed_def rx_add_def rx_ok_def rx_done_def rx_want_def Let_def)
  qed
qed

section \<open>Correctness of the receiver\<close>

text \<open>
  The stream is what has been taken in of the current message followed by what is to come. One
  chunk: either the message goes on, or the frame at the front of the stream is complete.
\<close>

lemma frame_head:
  assumes "hdr @ rest = frame p @ more" and "length hdr = 4" and "length p < 2 ^ 32"
  shows "be_value hdr = length p \<and> rest = p @ more"
proof -
  have "hdr = be_bytes (of_nat (length p))" and "rest = p @ more"
    using assms by (simp_all add: frame_def)
  then show ?thesis
    using assms(3) by (simp add: unat_of_nat)
qed

lemma rx_feed_stream:
  assumes ok: "rx_ok st" and chunk: "bs \<noteq> []" "length bs \<le> rx_want st" and safe: "head_safe bs st"
    and stream: "fst st @ snd st @ bs @ rest = frames ps" and small: "\<forall>p \<in> set ps. length p < 2 ^ 32"
  shows "rx_feed bs st = (rx_add bs st, []) \<and>
      fst (rx_add bs st) @ snd (rx_add bs st) @ rest = frames ps
    \<or> (\<exists>p ps'. ps = p # ps' \<and> rx_feed bs st = (([], []), [p]) \<and> rest = frames ps')"
proof -
  obtain hdr body where st: "st = (hdr, body)" by (cases st)
  let ?st' = "rx_add bs st"
  have cat: "fst ?st' @ snd ?st' @ rest = frames ps"
    using stream ok st by (auto simp: rx_add_def rx_ok_def)
  show ?thesis
  proof (cases "rx_done ?st'")
    case False
    with cat show ?thesis by (simp add: rx_feed_def Let_def)
  next
    case True
    obtain p ps' where ps: "ps = p # ps'"
      using stream chunk(1) st by (cases ps) auto
    have len: "length (fst ?st') = 4"
    proof (rule ccontr)
      assume "length (fst ?st') \<noteq> 4"
      with ok chunk(2) st have short: "length (hdr @ bs) < 4" "body = []"
        by (auto simp: rx_add_def rx_ok_def rx_want_def split: if_splits)
      with safe st have "be_value (pad4 (hdr @ bs)) \<noteq> 0"
        by (simp add: head_safe_def be_value_pad4_eq_0 del: set_append)
      with True short st show False by (simp add: rx_done_def rx_add_def)
    qed
    have "fst ?st' @ snd ?st' @ rest = frame p @ frames ps'"
      using cat ps by simp
    from frame_head [OF this len] small ps
    have "be_value (fst ?st') = length p" and rest: "snd ?st' @ rest = p @ frames ps'"
      by auto
    with True len have "length (snd ?st') = length p"
      by (simp add: rx_done_def)
    with rest have "snd ?st' = p" and "rest = frames ps'"
      by (simp_all add: append_eq_append_conv)
    with True ps show ?thesis by (simp add: rx_feed_def Let_def)
  qed
qed

text \<open>
  For any way of cutting a stream of frames into chunks that leaves no head at a prefix of zeros,
  the receiver yields exactly the messages sent, in order, and ends between two messages.
\<close>

lemma rx_run_frames:
  assumes "rx_ok st" and "rx_chunks cap bss st" and "heads_safe bss st"
    and "fst st @ snd st @ concat bss = frames ps" and "\<forall>p \<in> set ps. length p < 2 ^ 32"
  shows "rx_run bss st = (([], []), ps)"
  using assms
proof (induction bss arbitrary: st ps)
  case Nil
  obtain hdr body where st: "st = (hdr, body)" by (cases st)
  show ?case
  proof (cases ps)
    case Nil
    with Nil.prems st show ?thesis by simp
  next
    case (Cons p ps')
    then have stream: "hdr @ body = frame p @ frames ps'"
      using Nil.prems(4) st by simp
    have False
    proof (cases "length hdr < 4")
      case True
      then have "body = []" using Nil.prems(1) st by (simp add: rx_ok_def)
      then have "length (hdr @ body) < 4" using True by simp
      then show False using stream by (simp add: frame_def)
    next
      case False
      then have len: "length hdr = 4" using Nil.prems(1) st by (simp add: rx_ok_def)
      from frame_head [OF stream len] Nil.prems(5) Cons
      have "be_value hdr = length p" "body = p @ frames ps'" by auto
      moreover have "length body < be_value hdr"
        using Nil.prems(1) st len by (auto simp: rx_ok_def)
      ultimately show False by simp
    qed
    then show ?thesis ..
  qed
next
  case (Cons bs bss)
  then have chunk: "bs \<noteq> []" "length bs \<le> rx_want st" and safe: "head_safe bs st"
    by (auto simp: rx_chunk_def)
  have ok': "rx_ok (fst (rx_feed bs st))"
    using rx_ok_feed [OF Cons.prems(1) chunk] .
  have stream: "fst st @ snd st @ bs @ concat bss = frames ps"
    using Cons.prems(4) by simp
  from rx_feed_stream [OF Cons.prems(1) chunk safe stream Cons.prems(5)] show ?case
  proof
    assume a: "rx_feed bs st = (rx_add bs st, []) \<and>
      fst (rx_add bs st) @ snd (rx_add bs st) @ concat bss = frames ps"
    have "rx_run bss (rx_add bs st) = (([], []), ps)"
      using Cons.prems a ok' by (intro Cons.IH) auto
    with a show ?thesis by simp
  next
    assume "\<exists>p ps'. ps = p # ps' \<and> rx_feed bs st = (([], []), [p]) \<and> concat bss = frames ps'"
    then obtain p ps' where b: "ps = p # ps'" "rx_feed bs st = (([], []), [p])" "concat bss = frames ps'"
      by blast
    have "rx_run bss ([], []) = (([], []), ps')"
      using Cons.prems b by (intro Cons.IH) auto
    with b show ?thesis by simp
  qed
qed

text \<open>
  The condition on heads is needed: a head left at a prefix of zeros is taken for the head of an
  empty message.
\<close>

lemma rx_feed_unsafe:
  assumes "rx_ok st" and "length (fst st) + length bs < 4" and "\<forall>x \<in> set (fst st @ bs). x = 0"
  shows "rx_feed bs st = (([], []), [[]])"
proof -
  obtain hdr body where st: "st = (hdr, body)" by (cases st)
  have "body = []" and short: "length hdr < 4"
    using assms st by (auto simp: rx_ok_def)
  moreover have "be_value (pad4 (hdr @ bs)) = 0"
    using assms(3) st by (simp add: be_value_pad4_eq_0 del: set_append)
  ultimately show ?thesis
    using st by (simp add: rx_feed_def rx_add_def rx_done_def Let_def)
qed

end
