(* ===== verification/Receive.thy ===== *)
theory Receive
  imports Socket Framing
begin

text \<open>
  Receiving: \<open>alloc_wrap\<close> and \<open>read_wrap\<close>, run by libuv on what arrives at a socket, implement
  the receiver of theory \<open>Framing\<close> (a forward simulation), and what follows for the messages the
  application gets.
\<close>

section \<open>libuv's side\<close>

text \<open>
  libuv reads from a stream by asking \<open>alloc_wrap\<close> for a buffer, putting what arrived there, and
  calling \<open>read_wrap\<close> with its length; 0 if nothing arrived, a negative number for an error or the
  end of the stream. \<open>deposit\<close> is the write into the buffer, which must be memory of the message.
\<close>

datatype read_event = Got bytes | Again | Failed int

definition deposit :: "uv_buf \<Rightarrow> bytes \<Rightarrow> (('u, 'a) world, unit) prog" where
  "deposit buf bs =
     bnd (deref (buf_base buf)) (\<lambda>p.
     case p of
       Size_be a i \<Rightarrow>
         bnd (load_msg a) (\<lambda>m.
         if length (size_be m) < i + length bs then fail Out_Of_Bounds
         else store a (Msg (m\<lparr>size_be := splice i bs (size_be m)\<rparr>)))
     | Data a i \<Rightarrow>
         bnd (load_msg a) (\<lambda>m.
         if length (msg_data m) < i + length bs then fail Out_Of_Bounds
         else store a (Msg (m\<lparr>msg_data := splice i bs (msg_data m)\<rparr>))))"

definition uv_read :: "('u, 'a) env \<Rightarrow> addr \<Rightarrow> u64 \<Rightarrow> read_event \<Rightarrow> (('u, 'a) world, unit) prog" where
  "uv_read E b suggested ev =
     bnd (alloc_wrap E b suggested) (\<lambda>buf.
     case ev of
       Got bs \<Rightarrow> seq (deposit buf bs) (read_wrap E b (int (length bs)))
     | Again \<Rightarrow> read_wrap E b 0
     | Failed e \<Rightarrow> read_wrap E b e)"

fun uv_reads :: "('u, 'a) env \<Rightarrow> addr \<Rightarrow> u64 \<Rightarrow> bytes list \<Rightarrow> (('u, 'a) world, unit) prog" where
  "uv_reads E b suggested [] = ret ()"
| "uv_reads E b suggested (bs # bss) =
     seq (uv_read E b suggested (Got bs)) (uv_reads E b suggested bss)"

section \<open>The application's side\<close>

text \<open>
  An \<open>on_recv\<close> callback that looks at the message, if there is one, and changes only the state of
  the application: \<open>rec\<close> is that change.
\<close>

definition payload :: "('u, 'a) env \<Rightarrow> ('u, 'a) world \<Rightarrow> addr \<Rightarrow> bytes" where
  "payload E w a =
     (case heap w a of Some (Msg m) \<Rightarrow> take (unat (msg_size E m)) (msg_data m) | _ \<Rightarrow> [])"

definition recv_client ::
    "('u, 'a) env \<Rightarrow> fn \<Rightarrow> (addr \<Rightarrow> bytes option \<Rightarrow> int \<Rightarrow> 'a \<Rightarrow> 'a) \<Rightarrow> bool" where
  "recv_client E f rec \<longleftrightarrow>
     (\<forall>s m e w. call_recv E f s m e w =
        Inr ((), w\<lparr>app := rec s (map_option (payload E w) m) e (app w)\<rparr>))"

text \<open>
  More generally, an \<open>on_recv\<close> callback of the socket \<open>s\<close> that, where the rest of the heap is \<open>H\<close>,
  takes complete messages, in blocks of \<open>cap\<close> bytes, while \<open>I\<close> holds of the application and keeps \<open>I\<close>: nothing is said of what
  it does at the end of the stream, or in other states.
\<close>

definition takes_messages ::
    "('u, 'a) env \<Rightarrow> fn \<Rightarrow> addr \<Rightarrow> (addr \<rightharpoonup> obj) \<Rightarrow> nat \<Rightarrow> ('a \<Rightarrow> bool) \<Rightarrow> (bytes \<Rightarrow> 'a \<Rightarrow> 'a) \<Rightarrow>
     bool" where
  "takes_messages E f s H cap I rec \<longleftrightarrow>
     (\<forall>a m w. map_le H (heap w) \<longrightarrow> heap w a = Some (Msg m) \<longrightarrow> length (size_be m) = 4 \<longrightarrow>
        length (msg_data m) = cap \<longrightarrow> unat (msg_size E m) \<le> cap \<longrightarrow> I (app w) \<longrightarrow>
        call_recv E f s (Some a) 0 w = Inr ((), w\<lparr>app := rec (payload E w a) (app w)\<rparr>) \<and>
        I (rec (payload E w a) (app w)))"

lemma takes_messagesD:
  assumes "takes_messages E f s H cap I rec" and "map_le H (heap w)" and "heap w a = Some (Msg m)"
    and "length (size_be m) = 4" and "length (msg_data m) = cap" and "unat (msg_size E m) \<le> cap"
    and "I (app w)"
  shows "call_recv E f s (Some a) 0 w = Inr ((), w\<lparr>app := rec (payload E w a) (app w)\<rparr>)"
    and "I (rec (payload E w a) (app w))"
  using assms unfolding takes_messages_def by blast+

lemma recv_client_takes:
  "recv_client E f rec \<Longrightarrow> takes_messages E f s H cap (\<lambda>_. True) (\<lambda>p. rec s (Some p) 0)"
  by (simp add: recv_client_def takes_messages_def)

text \<open>What reading leaves alone: libuv's state and the static variables.\<close>

definition rx_same :: "('u, 'a) world \<Rightarrow> ('u, 'a) world \<Rightarrow> bool" where
  "rx_same w w' \<longleftrightarrow> uv w' = uv w \<and> backend w' = backend w \<and> buv_data w' = buv_data w \<and>
     msg_alloc w' = msg_alloc w \<and> msg_free w' = msg_free w \<and> malloc_ok w' = malloc_ok w \<and>
     ndebug w' = ndebug w \<and> stderr_lines w' = stderr_lines w"

lemma rx_same_refl [simp]: "rx_same w w"
  by (simp add: rx_same_def)

lemma rx_same_trans [trans]: "rx_same w w1 \<Longrightarrow> rx_same w1 w2 \<Longrightarrow> rx_same w w2"
  by (simp add: rx_same_def)

section \<open>The simulation relation\<close>

text \<open>
  \<open>H\<close> is the heap without the backend structure \<open>b\<close> and the message under construction: it is
  the same in all related states, so nothing else is changed and nothing is leaked.
\<close>

definition rx_base ::
    "addr \<Rightarrow> addr \<Rightarrow> fn \<Rightarrow> (addr \<rightharpoonup> obj) \<Rightarrow> socket_uv \<Rightarrow> ('u, 'a) world \<Rightarrow> bool" where
  "rx_base s b f H bu w \<longleftrightarrow>
     (\<exists>so. H s = Some (Sock so) \<and> watcher_socket (sock_watcher so) = s \<and>
        on_recv (sock_watcher so) = User_fn f) \<and>
     H b = None \<and> uv_watcher bu = s \<and> stream_data bu = Some b \<and>
     connect_data bu = Some b \<and> write_data bu = Some b \<and>
     wf_heap w \<and> msg_alloc w = Default_heap_alloc \<and> msg_free w = Default_heap_free \<and>
     (\<forall>k. malloc_ok w k)"

definition rx_msg :: "nat \<Rightarrow> rx \<Rightarrow> sc_msg \<Rightarrow> bool" where
  "rx_msg cap st m \<longleftrightarrow> size_be m = pad4 (fst st) \<and> take (length (snd st)) (msg_data m) = snd st \<and>
     length (msg_data m) = cap \<and> length (snd st) \<le> cap"

definition rx_busy ::
    "addr \<Rightarrow> addr \<Rightarrow> fn \<Rightarrow> nat \<Rightarrow> (addr \<rightharpoonup> obj) \<Rightarrow> addr \<Rightarrow> socket_uv \<Rightarrow> sc_msg \<Rightarrow> ('u, 'a) world \<Rightarrow> rx \<Rightarrow>
     bool" where
  "rx_busy s b f cap H a bu m w st \<longleftrightarrow> rx_base s b f H bu w \<and> rx_ok st \<and>
     H a = None \<and> a \<noteq> b \<and> heap w = H(b \<mapsto> Buv bu, a \<mapsto> Msg m) \<and> uv_msg bu = Some a \<and>
     uv_reader bu = reader_at (length (fst st)) (length (snd st)) a \<and> rx_msg cap st m"

definition rx_idle ::
    "addr \<Rightarrow> addr \<Rightarrow> fn \<Rightarrow> (addr \<rightharpoonup> obj) \<Rightarrow> socket_uv \<Rightarrow> ('u, 'a) world \<Rightarrow> bool" where
  "rx_idle s b f H bu w \<longleftrightarrow> rx_base s b f H bu w \<and> heap w = H(b \<mapsto> Buv bu) \<and> uv_msg bu = None"

definition rx_rel ::
    "addr \<Rightarrow> addr \<Rightarrow> fn \<Rightarrow> nat \<Rightarrow> (addr \<rightharpoonup> obj) \<Rightarrow> ('u, 'a) world \<Rightarrow> rx \<Rightarrow> bool" where
  "rx_rel s b f cap H w st \<longleftrightarrow>
     (\<exists>bu. rx_idle s b f H bu w \<and> st = ([], [])) \<or>
     (\<exists>a bu m. rx_busy s b f cap H a bu m w st)"

text \<open>The capacity of messages is the buffer size libuv suggests, as an \<open>unsigned\<close>.\<close>

definition capacity :: "u64 \<Rightarrow> nat" where
  "capacity suggested = unat (ucast suggested :: u32)"

section \<open>alloc_wrap\<close>

lemma replicate4_store0: "store32 e 0 = replicate 4 0"
  by (cases e) (simp_all add: store32_def be_bytes_def byte_of_def numeral_eq_Suc)

text \<open>The buffer offered in each state.\<close>

definition rx_buf :: "addr \<Rightarrow> rx \<Rightarrow> nat \<Rightarrow> uv_buf" where
  "rx_buf a st cap =
     \<lparr>buf_base = Some (if length (fst st) < 4 then Size_be a (length (fst st))
                      else Data a (length (snd st))),
      buf_len = of_nat (min (rx_want st) cap)\<rparr>"

lemma ucast_min_u32:
  fixes x y :: u32
  assumes "unat x = n" and "unat y = cap"
  shows "ucast (if x < y then x else y) = (of_nat (min n cap) :: u64)"
  using assms
  by (auto simp: word_less_nat_alt min_def word_unat_eq_iff unsigned_ucast_eq unat_of_nat
      take_bit_nat_eq_self take_bit_eq_mod)

lemma via_data_simp:
  "heap w b = Some (Buv bu) \<Longrightarrow> sel bu = Some b \<Longrightarrow> via_data sel b k w = k b bu w"
  by (simp add: via_data_def)

lemma rx_busy_facts:
  assumes "rx_busy s b f cap H a bu m w st" and "ctb_network_order E"
  shows "heap w b = Some (Buv bu)" and "heap w a = Some (Msg m)"
    and "stream_data bu = Some b" and "length (size_be m) = 4"
    and "unat (msg_size E m) = be_value (pad4 (fst st))"
    and "length (snd st) \<le> unat (msg_size E m)"
proof -
  have len: "length (fst st) \<le> 4" and m: "size_be m = pad4 (fst st)"
    using assms(1) by (auto simp: rx_busy_def rx_ok_def rx_msg_def)
  then show l4: "length (size_be m) = 4" by simp
  show sz: "unat (msg_size E m) = be_value (pad4 (fst st))"
    using unat_msg_size [OF assms(2) l4] m by simp
  show "length (snd st) \<le> unat (msg_size E m)"
    using assms(1) unfolding sz by (cases "fst st = []") (auto simp: rx_busy_def rx_ok_def)
qed (use assms(1) in \<open>auto simp: rx_busy_def rx_base_def\<close>)

lemma alloc_wrap_busy:
  assumes busy: "rx_busy s b f cap H a bu m w st" and net: "ctb_network_order E"
    and cap: "capacity sg = cap"
  shows "alloc_wrap E b sg w = Inr (rx_buf a st cap, w)"
proof -
  note facts = rx_busy_facts [OF busy net]
  have rd: "uv_reader bu = reader_at (length (fst st)) (length (snd st)) a"
    and msg: "uv_msg bu = Some a" and len: "length (fst st) \<le> 4"
    using busy by (auto simp: rx_busy_def rx_ok_def)
  have hs: "(4 - of_nat (length (fst st)) :: u32) > 0 \<longleftrightarrow> length (fst st) < 4"
    using unat_avail_head [OF len] by (simp add: word_greater_zero_iff unat_eq_0 [symmetric])
      linarith
  show ?thesis
  proof (cases "length (fst st) < 4")
    case True
    have "ucast (if 4 - of_nat (length (fst st)) < (ucast sg :: u32)
        then (4 - of_nat (length (fst st)) :: u32) else ucast sg) = (of_nat (min (rx_want st) cap) :: u64)"
      using True cap unat_avail_head [OF len]
      by (intro ucast_min_u32) (simp_all add: rx_want_def capacity_def)
    with True facts rd msg hs show ?thesis
      by (simp add: alloc_wrap_def offer_buffer_def via_data_simp avail_head msg_reader_head_pos_def
          rx_buf_def Let_def)
  next
    case False
    have "ucast (if msg_size E m - of_nat (length (snd st)) < (ucast sg :: u32)
        then msg_size E m - of_nat (length (snd st)) else ucast sg) =
        (of_nat (min (rx_want st) cap) :: u64)"
      using False cap len unat_avail_body [OF facts(6)] facts(5)
      by (intro ucast_min_u32) (simp_all add: rx_want_def capacity_def)
    with False facts rd msg hs show ?thesis
      by (simp add: alloc_wrap_def offer_buffer_def via_data_simp avail_head avail_body msg_reader_body_pos_def
          rx_buf_def Let_def)
  qed
qed

text \<open>An idle receiver gets an empty message and offers room for its head.\<close>

lemma alloc_wrap_idle:
  assumes idle: "rx_idle s b f H bu w" and net: "ctb_network_order E"
    and cap: "capacity sg = cap" "0 < cap"
  shows "\<exists>a bu1 m1 w1. rx_busy s b f cap H a bu1 m1 w1 ([], []) \<and> app w1 = app w \<and> rx_same w w1 \<and>
    alloc_wrap E b sg w = Inr (rx_buf a ([], []) cap, w1)"
proof -
  let ?a = "fresh w" and ?j = "junk_byte w"
  let ?bu = "bu\<lparr>uv_msg := Some ?a, uv_reader := reader_at 0 0 ?a\<rparr>"
  let ?m = "\<lparr>size_be = store32 (host E) 0, msg_data = (map ?j [4..<4 + cap])[0 := 0]\<rparr>"
  let ?w1 = "w\<lparr>heap := H(b \<mapsto> Buv ?bu, ?a \<mapsto> Msg ?m), fresh := Suc ?a\<rparr>"
  have base: "rx_base s b f H bu w" and hw: "heap w = H(b \<mapsto> Buv bu)" and none: "uv_msg bu = None"
    using idle by (auto simp: rx_idle_def)
  have "heap w ?a = None"
    using base by (simp add: rx_base_def wf_heap_fresh)
  then have Ha: "H ?a = None" and ab: "?a \<noteq> b"
    using hw by (auto split: if_splits)
  have dat: "map ?j [4..<4 + cap] \<noteq> []"
    using cap(2) by simp
  have wf: "wf_heap ?w1"
    using base hw by (auto simp: rx_base_def wf_heap_def less_Suc_eq split: if_splits)
  have busy: "rx_busy s b f cap H ?a ?bu ?m ?w1 ([], [])"
    using base Ha ab wf
    by (simp add: rx_busy_def rx_base_def rx_msg_def pad4_def replicate4_store0)
  have "start_msg E b (ucast sg) w = Inr ((), ?w1)"
    using base hw none Ha ab cap dat
    by (simp add: start_msg_def rx_base_def sc_msg_alloc_def default_heap_alloc_ok sc_msg_init_def
        reader_init capacity_def fun_upd_twist)
  then have "alloc_wrap E b sg w = alloc_wrap E b sg ?w1"
    using base hw none ab by (simp add: alloc_wrap_def via_data_simp rx_base_def Let_def)
  then have "alloc_wrap E b sg w = Inr (rx_buf ?a ([], []) cap, ?w1)"
    using alloc_wrap_busy [OF busy net cap(1)] by simp
  with busy show ?thesis
    by (intro exI [of _ ?a] exI [of _ ?bu] exI [of _ ?m] exI [of _ ?w1]) (simp add: rx_same_def)
qed

section \<open>What libuv puts into the buffer\<close>

lemma splice_pad4:
  "length hdr + length bs \<le> 4 \<Longrightarrow> splice (length hdr) bs (pad4 hdr) = pad4 (hdr @ bs)"
  by (simp add: splice_def pad4_def)

lemma length_rx_add:
  "rx_ok st \<Longrightarrow> length bs \<le> rx_want st \<Longrightarrow> length (fst (rx_add bs st)) \<le> 4"
  by (auto simp: rx_ok_def rx_want_def rx_add_def)

lemma deposit_busy:
  assumes busy: "rx_busy s b f cap H a bu m w st" and chunk: "rx_chunk cap bs st"
  shows "\<exists>m'. deposit (rx_buf a st cap) bs w =
      Inr ((), w\<lparr>heap := H(b \<mapsto> Buv bu, a \<mapsto> Msg m')\<rparr>) \<and> rx_msg cap (rx_add bs st) m'"
proof -
  have hw: "heap w = H(b \<mapsto> Buv bu, a \<mapsto> Msg m)" and msg: "rx_msg cap st m" and ok: "rx_ok st"
    using busy by (auto simp: rx_busy_def)
  then have ha: "heap w a = Some (Msg m)" by simp
  have fits: "length bs \<le> rx_want st" "length (fst st) = 4 \<Longrightarrow> length (snd st) + length bs \<le> cap"
    using chunk by (auto simp: rx_chunk_def)
  show ?thesis
  proof (cases "length (fst st) < 4")
    case True
    with fits have len: "length (fst st) + length bs \<le> 4"
      by (simp add: rx_want_def)
    let ?m = "m\<lparr>size_be := pad4 (fst st @ bs)\<rparr>"
    have "deposit (rx_buf a st cap) bs w = Inr ((), w\<lparr>heap := (heap w)(a \<mapsto> Msg ?m)\<rparr>)"
      using True len ha msg by (simp add: deposit_def rx_buf_def rx_msg_def splice_pad4)
    moreover have "rx_msg cap (rx_add bs st) ?m"
      using True msg by (simp add: rx_msg_def rx_add_def)
    ultimately show ?thesis
      using hw by auto
  next
    case False
    with ok have l4: "length (fst st) = 4" by (simp add: rx_ok_def)
    let ?m = "m\<lparr>msg_data := splice (length (snd st)) bs (msg_data m)\<rparr>"
    have "deposit (rx_buf a st cap) bs w = Inr ((), w\<lparr>heap := (heap w)(a \<mapsto> Msg ?m)\<rparr>)"
      using False fits(2) [OF l4] ha msg by (simp add: deposit_def rx_buf_def rx_msg_def)
    moreover have "rx_msg cap (rx_add bs st) ?m"
      using False fits(2) [OF l4] msg
        take_splice_end [of "length (snd st)" bs "msg_data m"]
      by (simp add: rx_msg_def rx_add_def)
    ultimately show ?thesis
      using hw by auto
  qed
qed

section \<open>read_wrap\<close>

lemma drop_msg_default:
  assumes "heap w = H(b \<mapsto> Buv bu, a \<mapsto> Msg m)" and "H a = None" and "a \<noteq> b"
    and "uv_msg bu = Some a" and "msg_free w = Default_heap_free"
  shows "drop_msg E b w = Inr ((), w\<lparr>heap := H(b \<mapsto> Buv (bu\<lparr>uv_msg := None\<rparr>))\<rparr>)"
  using assms
  by (simp add: drop_msg_def sc_msg_free_def default_heap_free_def fun_upd_idem fun_upd_twist)

text \<open>The state after a chunk was put in place and before \<open>read_wrap\<close> has seen it.\<close>

lemma read_parse:
  assumes base: "rx_base s b f H bu w" and hw: "heap w = H(b \<mapsto> Buv bu, a \<mapsto> Msg m)"
    and ab: "a \<noteq> b" and st: "rx_ok st"
    and rd: "uv_reader bu = reader_at (length (fst st)) (length (snd st)) a"
    and m: "rx_msg cap (rx_add bs st) m" and net: "ctb_network_order E"
    and bs: "bs \<noteq> []" "length bs \<le> rx_want st"
  shows "bnd (msg_reader_avail_head_size (uv_reader bu)) (\<lambda>hsize.
      if hsize > 0 then msg_reader_parse_head (uv_reader bu) (to_unsigned (int (length bs)))
      else msg_reader_parse_body E (uv_reader bu) (to_unsigned (int (length bs)))) w =
    Inr ((reader_at (length (fst (rx_add bs st))) (length (snd (rx_add bs st))) a, 0), w)"
    and "length (snd (rx_add bs st)) \<le> unat (msg_size E m)"
    and "unat (msg_size E m) = be_value (pad4 (fst (rx_add bs st)))"
proof -
  let ?st' = "rx_add bs st"
  have len: "length (fst st) \<le> 4" and len': "length (fst ?st') \<le> 4"
    using st length_rx_add [OF st bs(2)] by (auto simp: rx_ok_def)
  have "length (size_be m) = 4"
    using m len' by (simp add: rx_msg_def)
  with m show sz: "unat (msg_size E m) = be_value (pad4 (fst ?st'))"
    using unat_msg_size [OF net] by (simp add: rx_msg_def)
  show fit: "length (snd ?st') \<le> unat (msg_size E m)"
    unfolding sz using st bs len
    by (auto simp: rx_ok_def rx_add_def rx_want_def split: if_splits)
  have hs: "(4 - of_nat (length (fst st)) :: u32) > 0 \<longleftrightarrow> length (fst st) < 4"
    using unat_avail_head [OF len] by (simp add: word_greater_zero_iff unat_eq_0 [symmetric])
      linarith
  show "bnd (msg_reader_avail_head_size (uv_reader bu)) (\<lambda>hsize.
      if hsize > 0 then msg_reader_parse_head (uv_reader bu) (to_unsigned (int (length bs)))
      else msg_reader_parse_body E (uv_reader bu) (to_unsigned (int (length bs)))) w =
    Inr ((reader_at (length (fst ?st')) (length (snd ?st')) a, 0), w)"
  proof (cases "length (fst st) < 4")
    case True
    then have "unat (of_nat (length bs) :: u32) = length bs" "length bs \<le> 4 - length (fst st)"
      using bs(2) by (simp_all add: rx_want_def unat_of_nat)
    then show ?thesis
      using True hs len by (simp add: rd avail_head parse_head rx_add_def)
  next
    case False
    then have fit': "length (snd st) + length bs \<le> unat (msg_size E m)"
      using fit by (simp add: rx_add_def)
    then have "unat (of_nat (length bs) :: u32) = length bs"
      using unsigned_less [of "msg_size E m", where 'a = nat] by (simp add: unat_of_nat)
    then show ?thesis
      using False hs fit' hw ab by (simp add: rd avail_head parse_body rx_add_def)
  qed
qed

lemma read_wrap_got:
  assumes base: "rx_base s b f H bu w" and hw: "heap w = H(b \<mapsto> Buv bu, a \<mapsto> Msg m)"
    and a: "H a = None" "a \<noteq> b" "uv_msg bu = Some a" and st: "rx_ok st"
    and rd: "uv_reader bu = reader_at (length (fst st)) (length (snd st)) a"
    and m: "rx_msg cap (rx_add bs st) m" and net: "ctb_network_order E"
    and bs: "bs \<noteq> []" "length bs \<le> rx_want st" and client: "takes_messages E f s H cap I rec" "I (app w)"
  defines "st' \<equiv> rx_add bs st"
  defines "bu' \<equiv> bu\<lparr>uv_reader := reader_at (length (fst st')) (length (snd st')) a\<rparr>"
  shows "read_wrap E b (int (length bs)) w =
    (if rx_done st' then
       Inr ((), w\<lparr>heap := H(b \<mapsto> Buv (bu'\<lparr>uv_msg := None\<rparr>)),
                 app := rec (snd st') (app w)\<rparr>)
     else Inr ((), w\<lparr>heap := H(b \<mapsto> Buv bu', a \<mapsto> Msg m)\<rparr>))"
proof -
  note parse = read_parse [OF base hw a(2) st rd m net bs]
  let ?w = "w\<lparr>heap := H(b \<mapsto> Buv bu', a \<mapsto> Msg m)\<rparr>"
  obtain so where so: "H s = Some (Sock so)" "watcher_socket (sock_watcher so) = s"
      "on_recv (sock_watcher so) = User_fn f" and bu: "H b = None" "uv_watcher bu = s"
      "stream_data bu = Some b" "msg_free w = Default_heap_free"
    using base by (auto simp: rx_base_def)
  have sab: "s \<noteq> a" "s \<noteq> b"
    using so bu a by auto
  have fin: "msg_reader_finished E (reader_at (length (fst st')) (length (snd st')) a) ?w =
      Inr (rx_done st', ?w)"
    using finished [of ?w a m "length (snd st')" E] parse(2,3)
    by (auto simp: rx_done_def st'_def)
  have pay: "rx_done st' \<Longrightarrow> payload E ?w a = snd st'"
    using m parse(3) by (simp add: payload_def rx_done_def rx_msg_def st'_def)
  have sz: "length (size_be m) = 4" "length (msg_data m) = cap"
      "rx_done st' \<Longrightarrow> unat (msg_size E m) \<le> cap"
    using m parse(2,3) length_rx_add [OF st bs(2)] by (simp_all add: rx_done_def rx_msg_def st'_def)
  have le: "map_le H (heap ?w)"
    using a(1) bu(1) by (auto simp: map_le_def)
  have took: "rx_done st' \<Longrightarrow> call_recv E f s (Some a) 0 ?w = Inr ((), ?w\<lparr>app := rec (snd st') (app w)\<rparr>)"
    using takes_messagesD(1) [OF client(1), of ?w a m] client(2) sz pay le by simp
  have cut: "drop_msg E b (?w\<lparr>app := x\<rparr>) =
      Inr ((), w\<lparr>heap := H(b \<mapsto> Buv (bu'\<lparr>uv_msg := None\<rparr>)), app := x\<rparr>)" for x
    using drop_msg_default [of "?w\<lparr>app := x\<rparr>" H b bu' a m E] a bu by (simp add: bu'_def)
  have st1: "store b (Buv bu') w = Inr ((), ?w)"
    using hw a(2) by (simp add: fun_upd_twist)
  have n: "0 < int (length bs)" using bs(1) by simp
  have "read_wrap E b (int (length bs)) w =
    bnd (bnd (msg_reader_avail_head_size (uv_reader bu)) (\<lambda>hsize.
      if hsize > 0 then msg_reader_parse_head (uv_reader bu) (to_unsigned (int (length bs)))
      else msg_reader_parse_body E (uv_reader bu) (to_unsigned (int (length bs)))))
      (\<lambda>(r, left).
       seq (store b (Buv (bu\<lparr>uv_reader := r\<rparr>)))
       (bnd (msg_reader_finished E r) (\<lambda>fin.
        if fin then
          seq (dbg_assert ((0 :: int) = 0))
          (bnd (load_watcher (uv_watcher bu)) (\<lambda>wt.
           seq (fire_recv E wt (uv_msg bu) 0)
           (drop_msg E b)))
        else ret ()))) w"
    using hw a(2) bu(3) n by (simp add: read_wrap_def via_data_simp bnd_assoc)
  also have "\<dots> = (if rx_done st' then
       Inr ((), w\<lparr>heap := H(b \<mapsto> Buv (bu'\<lparr>uv_msg := None\<rparr>)),
                 app := rec (snd st') (app w)\<rparr>)
     else Inr ((), ?w))"
    using parse(1) st1 fin took cut sab so bu(2) a(3)
    by (simp add: st'_def [symmetric] bu'_def [symmetric] fire_defs)
  finally show ?thesis .
qed

text \<open>A callback that took the message has kept its invariant.\<close>

lemma read_wrap_keeps:
  fixes E :: "('u, 'a) env" and w :: "('u, 'a) world"
  assumes base: "rx_base s b f H bu w" and hw: "heap w = H(b \<mapsto> Buv bu, a \<mapsto> Msg m)"
    and a: "H a = None" "a \<noteq> b" "uv_msg bu = Some a" and st: "rx_ok st"
    and rd: "uv_reader bu = reader_at (length (fst st)) (length (snd st)) a"
    and m: "rx_msg cap (rx_add bs st) m" and net: "ctb_network_order E"
    and bs: "bs \<noteq> []" "length bs \<le> rx_want st" and client: "takes_messages E f s H cap I rec" "I (app w)"
    and fin: "rx_done (rx_add bs st)"
  shows "I (rec (snd (rx_add bs st)) (app w))"
proof -
  note parse = read_parse [OF base hw a(2) st rd m net bs]
  have "payload E w a = snd (rx_add bs st)" "unat (msg_size E m) \<le> cap" "length (msg_data m) = cap"
      "length (size_be m) = 4"
    using m parse(2,3) fin hw a(2) length_rx_add [OF st bs(2)]
    by (simp_all add: payload_def rx_done_def rx_msg_def)
  moreover have "map_le H (heap w)" "heap w a = Some (Msg m)"
    using base hw a by (auto simp: rx_base_def map_le_def)
  ultimately show ?thesis
    using takes_messagesD(2) [OF client(1), of w a m] client(2) by simp
qed

section \<open>One read\<close>

text \<open>What the messages completed by a step do to the application.\<close>

definition deliver ::
    "(addr \<Rightarrow> bytes option \<Rightarrow> int \<Rightarrow> 'a \<Rightarrow> 'a) \<Rightarrow> addr \<Rightarrow> bytes list \<Rightarrow> 'a \<Rightarrow> 'a" where
  "deliver rec s ps x = fold (\<lambda>p. rec s (Some p) 0) ps x"

lemma deliver_simps [simp]:
  "deliver rec s [] x = x"
  "deliver rec s (p # ps) x = deliver rec s ps (rec s (Some p) 0 x)"
  "deliver rec s (ps @ qs) x = deliver rec s qs (deliver rec s ps x)"
  by (simp_all add: deliver_def)

lemma rx_ready:
  assumes "rx_rel s b f cap H w st" and "ctb_network_order E" and "capacity sg = cap" and "0 < cap"
  obtains a bu m w1 where "rx_busy s b f cap H a bu m w1 st" and "app w1 = app w"
    and "alloc_wrap E b sg w = Inr (rx_buf a st cap, w1)" and "rx_same w w1"
proof (cases "\<exists>bu. rx_idle s b f H bu w \<and> st = ([], [])")
  case True
  with alloc_wrap_idle [OF _ assms(2-4)] that show ?thesis by blast
next
  case False
  with assms(1) alloc_wrap_busy [OF _ assms(2,3)] that [OF _ refl _ rx_same_refl] show ?thesis
    unfolding rx_rel_def by blast
qed

lemma read_step_takes:
  assumes rel: "rx_rel s b f cap H w st" and chunk: "rx_chunk cap bs st"
    and net: "ctb_network_order E" and cap: "capacity sg = cap"
    and client: "takes_messages E f s H cap I rec" and I: "I (app w)"
  shows "\<exists>w'. uv_read E b sg (Got bs) w = Inr ((), w') \<and>
    rx_rel s b f cap H w' (fst (rx_feed bs st)) \<and>
    (snd (rx_feed bs st) \<noteq> [] \<longrightarrow> (\<exists>bu. rx_idle s b f H bu w')) \<and>
    app w' = fold rec (snd (rx_feed bs st)) (app w) \<and> I (app w') \<and> rx_same w w'"
proof -
  have bs: "bs \<noteq> []" "length bs \<le> rx_want st" "length bs \<le> cap"
    using chunk by (simp_all add: rx_chunk_def)
  then have cap0: "0 < cap"
    by (cases bs) simp_all
  obtain a bu m w1 where busy: "rx_busy s b f cap H a bu m w1 st" and app1: "app w1 = app w"
    and al: "alloc_wrap E b sg w = Inr (rx_buf a st cap, w1)" and same: "rx_same w w1"
    using rx_ready [OF rel net cap cap0] .
  obtain m' where dep: "deposit (rx_buf a st cap) bs w1 =
      Inr ((), w1\<lparr>heap := H(b \<mapsto> Buv bu, a \<mapsto> Msg m')\<rparr>)" and m': "rx_msg cap (rx_add bs st) m'"
    using deposit_busy [OF busy chunk] by blast
  let ?w2 = "w1\<lparr>heap := H(b \<mapsto> Buv bu, a \<mapsto> Msg m')\<rparr>"
  let ?st' = "rx_add bs st"
  let ?bu = "bu\<lparr>uv_reader := reader_at (length (fst ?st')) (length (snd ?st')) a\<rparr>"
  have b1: "rx_base s b f H bu w1" and hw: "heap w1 = H(b \<mapsto> Buv bu, a \<mapsto> Msg m)"
    and a: "H a = None" "a \<noteq> b" "uv_msg bu = Some a" and ok: "rx_ok st"
    and rd: "uv_reader bu = reader_at (length (fst st)) (length (snd st)) a"
    using busy by (auto simp: rx_busy_def)
  have b2: "rx_base s b f H bu ?w2"
    using b1 hw by (auto simp: rx_base_def wf_heap_def)
  have run: "uv_read E b sg (Got bs) w = read_wrap E b (int (length bs)) ?w2"
    using al dep by (simp add: uv_read_def)
  have I2: "I (app ?w2)" using I app1 by simp
  note rw = read_wrap_got [OF b2 _ a ok rd m' net bs(1,2) client I2, simplified]
  have ok': "rx_ok (fst (rx_feed bs st))"
    using rx_ok_feed [OF ok bs(1,2)] .
  show ?thesis
  proof (cases "rx_done ?st'")
    case True
    let ?w' = "w1\<lparr>heap := H(b \<mapsto> Buv (?bu\<lparr>uv_msg := None\<rparr>)), app := rec (snd ?st') (app w1)\<rparr>"
    have idle: "rx_idle s b f H (?bu\<lparr>uv_msg := None\<rparr>) ?w'"
      using b1 hw by (auto simp: rx_idle_def rx_base_def wf_heap_def)
    then have "rx_rel s b f cap H ?w' ([], [])"
      unfolding rx_rel_def by blast
    moreover have "I (rec (snd ?st') (app w1))"
      using read_wrap_keeps [OF b2 _ a ok rd m' net bs(1,2) client I2 True] by simp
    ultimately show ?thesis
      using True run rw app1 idle same by (auto simp: rx_feed_def rx_same_def Let_def)
  next
    case False
    let ?w' = "w1\<lparr>heap := H(b \<mapsto> Buv ?bu, a \<mapsto> Msg m')\<rparr>"
    have "rx_busy s b f cap H a ?bu m' ?w' ?st'"
      using b1 hw a m' False ok'
      by (auto simp: rx_busy_def rx_base_def wf_heap_def rx_feed_def Let_def)
    then have "rx_rel s b f cap H ?w' ?st'"
      unfolding rx_rel_def by blast
    with False run rw app1 same I show ?thesis
      by (simp add: rx_feed_def rx_same_def Let_def)
  qed
qed

section \<open>Many reads\<close>

lemma read_steps_take:
  assumes "rx_rel s b f cap H w st" and "rx_chunks cap bss st"
    and net: "ctb_network_order E" and cap: "capacity sg = cap"
    and client: "takes_messages E f s H cap I rec" and "I (app w)"
  shows "\<exists>w'. uv_reads E b sg bss w = Inr ((), w') \<and>
    rx_rel s b f cap H w' (fst (rx_run bss st)) \<and>
    app w' = fold rec (snd (rx_run bss st)) (app w) \<and> I (app w') \<and> rx_same w w'"
  using assms(1,2,6)
proof (induction bss arbitrary: w st)
  case Nil
  then show ?case by simp
next
  case (Cons bs bss)
  then have chunk: "rx_chunk cap bs st" and more: "rx_chunks cap bss (fst (rx_feed bs st))"
    by simp_all
  from read_step_takes [OF Cons.prems(1) chunk net cap client Cons.prems(3)] obtain w1 where
    one: "uv_read E b sg (Got bs) w = Inr ((), w1)"
      "rx_rel s b f cap H w1 (fst (rx_feed bs st))"
      "app w1 = fold rec (snd (rx_feed bs st)) (app w)" "I (app w1)" "rx_same w w1"
    by blast
  from Cons.IH [OF one(2) more one(4)] one show ?case
    by (auto simp: split_beta intro: rx_same_trans)
qed

text \<open>The same for a callback that only notes what it is given.\<close>

lemma read_step:
  assumes "rx_rel s b f cap H w st" and "rx_chunk cap bs st"
    and "ctb_network_order E" and "capacity sg = cap" and "recv_client E f rec"
  shows "\<exists>w'. uv_read E b sg (Got bs) w = Inr ((), w') \<and>
    rx_rel s b f cap H w' (fst (rx_feed bs st)) \<and>
    (snd (rx_feed bs st) \<noteq> [] \<longrightarrow> (\<exists>bu. rx_idle s b f H bu w')) \<and>
    app w' = deliver rec s (snd (rx_feed bs st)) (app w)"
  using read_step_takes [OF assms(1-4) recv_client_takes [OF assms(5)]] by (auto simp: deliver_def)

lemma read_steps:
  assumes "rx_rel s b f cap H w st" and "rx_chunks cap bss st"
    and "ctb_network_order E" and "capacity sg = cap" and "recv_client E f rec"
  shows "\<exists>w'. uv_reads E b sg bss w = Inr ((), w') \<and>
    rx_rel s b f cap H w' (fst (rx_run bss st)) \<and>
    app w' = deliver rec s (snd (rx_run bss st)) (app w)"
  using read_steps_take [OF assms(1-4) recv_client_takes [OF assms(5)]] by (auto simp: deliver_def)

section \<open>Nothing to read, errors and the end of the stream\<close>

lemma read_again:
  assumes rel: "rx_rel s b f cap H w st" and net: "ctb_network_order E"
    and cap: "capacity sg = cap" "0 < cap"
  shows "\<exists>w'. uv_read E b sg Again w = Inr ((), w') \<and> rx_rel s b f cap H w' st \<and> app w' = app w"
proof -
  obtain a bu m w1 where busy: "rx_busy s b f cap H a bu m w1 st" and app1: "app w1 = app w"
    and al: "alloc_wrap E b sg w = Inr (rx_buf a st cap, w1)"
    using rx_ready [OF rel net cap] .
  have "read_wrap E b 0 w1 = Inr ((), w1)"
    using rx_busy_facts(1,3) [OF busy net] by (simp add: read_wrap_def via_data_simp)
  moreover have "rx_rel s b f cap H w1 st"
    using busy unfolding rx_rel_def by blast
  ultimately show ?thesis
    using al app1 by (simp add: uv_read_def)
qed

text \<open>The code \<open>on_recv\<close> gets when a read failed.\<close>

definition recv_code :: "int \<Rightarrow> int" where
  "recv_code e = (if e = UV_EOF then 0 else e)"

text \<open>
  A failed read, for a callback whose effect is known at the moment it is called: \<open>U\<close> on libuv, \<open>X\<close> on
  the application, and \<open>K\<close> on the blocks \<open>D\<close> of the heap, which are not those of the read.
\<close>

lemma read_failed_with:
  assumes rel: "rx_rel s b f cap H w st" and net: "ctb_network_order E"
    and cap: "capacity sg = cap" "0 < cap" and e: "e < 0" "- (2 ^ 31) \<le> e"
    and D: "D \<subseteq> dom H" "s \<notin> D" and H': "H' = override_on H K D"
    and call: "\<And>v. map_le H (heap v) \<Longrightarrow> \<exists>bu. heap v b = Some (Buv bu) \<Longrightarrow> app v = app w \<Longrightarrow> rx_same w v \<Longrightarrow>
      call_recv E f s None (recv_code e) v = Inr ((), v\<lparr>uv := U, app := X, heap := override_on (heap v) K D\<rparr>)"
  shows "\<exists>w' bu. uv_read E b sg (Failed e) w = Inr ((), w') \<and> rx_idle s b f H' bu w' \<and>
    app w' = X \<and> uv w' = U \<and> rx_same (w\<lparr>uv := U\<rparr>) w'"
proof -
  obtain a bu m w1 where busy: "rx_busy s b f cap H a bu m w1 st" and app1: "app w1 = app w"
    and al: "alloc_wrap E b sg w = Inr (rx_buf a st cap, w1)" and same: "rx_same w w1"
    using rx_ready [OF rel net cap] .
  have b1: "rx_base s b f H bu w1" and hw: "heap w1 = H(b \<mapsto> Buv bu, a \<mapsto> Msg m)"
    and a: "H a = None" "a \<noteq> b" "uv_msg bu = Some a"
    using busy by (auto simp: rx_busy_def)
  obtain so where so: "H s = Some (Sock so)" "watcher_socket (sock_watcher so) = s"
      "on_recv (sock_watcher so) = User_fn f" and bu: "H b = None" "uv_watcher bu = s"
      "stream_data bu = Some b" "msg_free w1 = Default_heap_free"
    using b1 by (auto simp: rx_base_def)
  have sab: "s \<noteq> a" "s \<noteq> b" "a \<notin> D" "b \<notin> D"
    using so bu a D by auto
  have H'ab: "H' a = None" "H' b = None" "H' s = H s" "override_on (heap w1) K D = H'(b \<mapsto> Buv bu, a \<mapsto> Msg m)"
    using sab a bu D hw by (auto simp: H' override_on_def fun_eq_iff)
  have less: "x \<in> dom (heap w1)" if "H' x \<noteq> None" for x
    using that D by (auto simp: H' hw override_on_def dom_def split: if_splits)
  have code: "to_int e = e"
    using e by (intro to_int_id) auto
  let ?w1 = "w1\<lparr>uv := U, app := X, heap := H'(b \<mapsto> Buv bu, a \<mapsto> Msg m)\<rparr>"
  let ?w' = "w1\<lparr>uv := U, app := X, heap := H'(b \<mapsto> Buv (bu\<lparr>uv_msg := None\<rparr>))\<rparr>"
  have "map_le H (heap w1)" "\<exists>bu. heap w1 b = Some (Buv bu)"
    using hw a bu by (auto simp: map_le_def)
  from call [OF this app1 same] H'ab(4)
  have took: "call_recv E f s None (recv_code e) w1 = Inr ((), ?w1)" by simp
  have cut: "drop_msg E b ?w1 = Inr ((), ?w')"
    using drop_msg_default [of ?w1 H' b bu a m E] a H'ab bu by simp
  have "read_wrap E b e w1 = Inr ((), ?w')"
    using hw sab a(2) bu(2,3) so took e code cut
    by (cases "e = UV_EOF") (simp_all add: read_wrap_def via_data_simp fire_defs recv_code_def)
  moreover have "rx_idle s b f H' (bu\<lparr>uv_msg := None\<rparr>) ?w'"
    using b1 hw H'ab less by (auto simp: rx_idle_def rx_base_def wf_heap_def)
  moreover have "rx_same (w\<lparr>uv := U\<rparr>) ?w'"
    using same by (simp add: rx_same_def)
  ultimately show ?thesis
    using al by (intro exI [of _ ?w'] exI [of _ "bu\<lparr>uv_msg := None\<rparr>"]) (simp add: uv_read_def)
qed

lemma read_failed_by:
  assumes "rx_rel s b f cap H w st" and "ctb_network_order E"
    and "capacity sg = cap" "0 < cap" and "e < 0" "- (2 ^ 31) \<le> e"
    and "\<And>v. map_le H (heap v) \<Longrightarrow> \<exists>bu. heap v b = Some (Buv bu) \<Longrightarrow> app v = app w \<Longrightarrow>
      rx_same w v \<Longrightarrow> call_recv E f s None (recv_code e) v = Inr ((), v\<lparr>uv := U, app := X\<rparr>)"
  shows "\<exists>w' bu. uv_read E b sg (Failed e) w = Inr ((), w') \<and> rx_idle s b f H bu w' \<and>
    app w' = X \<and> uv w' = U \<and> rx_same (w\<lparr>uv := U\<rparr>) w'"
  using assms by (intro read_failed_with [where D = "{}"]) simp_all

lemma read_failed:
  assumes rel: "rx_rel s b f cap H w st" and net: "ctb_network_order E"
    and cap: "capacity sg = cap" "0 < cap" and client: "recv_client E f rec"
    and e: "e < 0" "- (2 ^ 31) \<le> e"
  shows "\<exists>w'. uv_read E b sg (Failed e) w = Inr ((), w') \<and> rx_rel s b f cap H w' ([], []) \<and>
    app w' = rec s None (recv_code e) (app w)"
proof -
  have "call_recv E f s None (recv_code e) v =
      Inr ((), v\<lparr>uv := uv w, app := rec s None (recv_code e) (app w)\<rparr>)"
    if "app v = app w" "rx_same w v" for v
  proof -
    have "v\<lparr>uv := uv w\<rparr> = v" using that(2) by (simp add: rx_same_def)
    with client that(1) show ?thesis by (simp add: recv_client_def)
  qed
  then obtain w' bu where "uv_read E b sg (Failed e) w = Inr ((), w')" "rx_idle s b f H bu w'"
    "app w' = rec s None (recv_code e) (app w)"
    using read_failed_by [OF rel net cap e, where U = "uv w" and X = "rec s None (recv_code e) (app w)"]
    by blast
  then show ?thesis
    unfolding rx_rel_def by blast
qed

section \<open>Bodies that do not fit\<close>

text \<open>
  The memory of a message is as large as the first buffer libuv suggested, whatever its head
  says: bytes past it are written outside the block.
\<close>

lemma read_overflow:
  assumes rel: "rx_rel s b f cap H w st" and net: "ctb_network_order E"
    and cap: "capacity sg = cap" "0 < cap"
    and full: "length (fst st) = 4" and over: "cap < length (snd st) + length bs"
  shows "uv_read E b sg (Got bs) w = Inl Out_Of_Bounds"
proof -
  obtain a bu m w1 where busy: "rx_busy s b f cap H a bu m w1 st"
    and al: "alloc_wrap E b sg w = Inr (rx_buf a st cap, w1)"
    using rx_ready [OF rel net cap] .
  have "length (msg_data m) = cap"
    using busy by (simp add: rx_busy_def rx_msg_def)
  then have "deposit (rx_buf a st cap) bs w1 = Inl Out_Of_Bounds"
    using rx_busy_facts(2) [OF busy net] full over by (simp add: deposit_def rx_buf_def)
  with al show ?thesis by (simp add: uv_read_def)
qed

lemma uv_reads_append: "uv_reads E b sg (xs @ ys) w = seq (uv_reads E b sg xs) (uv_reads E b sg ys) w"
  by (induction xs arbitrary: w) (simp_all add: seq_def bnd_def split: sum.splits)

lemma rx_rel_idle: "rx_idle s b f H bu w \<Longrightarrow> rx_rel s b f cap H w ([], [])"
  unfolding rx_rel_def by blast

section \<open>The instance\<close>

definition note_recv :: "addr \<Rightarrow> bytes option \<Rightarrow> int \<Rightarrow> events \<Rightarrow> events" where
  "note_recv s p e x = x @ [(s, p, e)]"

lemma sample_client [simp]: "recv_client sample_env f note_recv"
proof -
  have "payload sample_env = peek_msg"
    by (intro ext) (simp add: payload_def peek_msg_def msg_size_def split: option.split obj.split)
  then show ?thesis
    by (simp add: recv_client_def sample_recv_def note_event_def note_recv_def)
qed

text \<open>A socket on which \<open>on_recv\<close> was registered, before anything has arrived.\<close>

definition sample_rx_heap :: "addr \<rightharpoonup> obj" where
  "sample_rx_heap = [0 \<mapsto> Uv_data 7,
     1 \<mapsto> Sock (sock_watcher_update (on_recv_update (\<lambda>_. User_fn ''f'')) (new_sock 1 2))]"

definition sample_rx :: sample_world where
  "sample_rx = sample_live\<lparr>heap := sample_rx_heap
     (2 \<mapsto> Buv (inited_buv sample_env 2 1 (junk_buv sample_world)))\<rparr>"

lemma sample_rx_idle:
  "rx_idle 1 2 ''f'' sample_rx_heap (inited_buv sample_env 2 1 (junk_buv sample_world)) sample_rx"
  by (simp add: rx_idle_def rx_base_def sample_rx_def sample_rx_heap_def sample_live_def new_sock_def
      inited_buv_def wf_heap_def)

lemma sample_capacity [simp]: "capacity 65536 = 65536" "capacity 8 = 8"
  by (simp_all add: capacity_def)

lemma sample_rx_app [simp]: "app sample_rx = []"
  by (simp add: sample_rx_def)

section \<open>Properties\<close>

text \<open>A new socket on which an \<open>on_recv\<close> callback was registered is ready to receive: it stands
  between two messages, and everything else in the heap is out of the receiver's reach.\<close>

theorem new_socket_receives:
  assumes "wf_heap w" and "backend w = Some Buv_funcs" and "\<forall>k. malloc_ok w k"
    and "msg_alloc w = Default_heap_alloc" and "msg_free w = Default_heap_free"
  shows "\<exists>s b w1 w2 bu so. sc_socket_new E w = Inr (Some s, w1) \<and>
    sc_socket_on_recv s (User_fn f) w1 = Inr ((), w2) \<and>
    rx_idle s b f ((heap w)(s \<mapsto> Sock so)) bu w2 \<and> app w2 = app w"
proof -
  let ?s = "fresh w" and ?b = "Suc (fresh w)"
  let ?so = "sock_watcher_update (on_recv_update (\<lambda>_. User_fn f)) (new_sock ?s ?b)"
  let ?bu = "inited_buv E ?b ?s (junk_buv w)"
  let ?w1 = "w\<lparr>heap := (heap w)(?s \<mapsto> Sock (new_sock ?s ?b), ?b \<mapsto> Buv ?bu), fresh := Suc ?b\<rparr>"
  let ?w2 = "?w1\<lparr>heap := (heap w)(?s \<mapsto> Sock ?so, ?b \<mapsto> Buv ?bu)\<rparr>"
  have none: "heap w ?s = None" "heap w ?b = None"
    using assms(1) by (simp_all add: wf_heap_ge)
  have new: "sc_socket_new E w = Inr (Some ?s, ?w1)"
    using uv_socket_new [OF assms(1,2)] assms(3) by simp
  have on: "sc_socket_on_recv ?s (User_fn f) ?w1 = Inr ((), ?w2)"
    by (simp add: sc_socket_on_recv_def fun_upd_twist)
  have "wf_heap ?w2"
    using assms(1) by (auto simp: wf_heap_def less_Suc_eq)
  then have "rx_idle ?s ?b f ((heap w)(?s \<mapsto> Sock ?so)) ?bu ?w2"
    using none assms(3-5) by (simp add: rx_idle_def rx_base_def inited_buv_def new_sock_def)
  with new on show ?thesis
    by (intro exI [of _ ?s] exI [of _ ?b] exI [of _ ?w1] exI [of _ ?w2] exI [of _ ?bu]
        exI [of _ ?so]) simp
qed

theorem new_socket_receives_witness:
  "\<exists>s b w1 w2 bu H. sc_socket_new sample_env sample_world = Inr (Some s, w1) \<and>
    sc_socket_on_recv s (User_fn ''f'') w1 = Inr ((), w2) \<and> rx_idle s b ''f'' H bu w2"
  using new_socket_receives [of sample_world sample_env "''f''"] by simp blast





text \<open>C5: A failed read or the end of the stream, in whatever state, is told to \<open>on_recv\<close> once,
  without a message, with the code of libuv or 0 for the end of the stream; the partial message is
  released, and the receiver is back between two messages.\<close>

theorem receive_failure:
  assumes "rx_rel s b f cap H w st" and "ctb_network_order E" and "capacity sg = cap" and "0 < cap"
    and "recv_client E f rec" and "e < 0" and "- (2 ^ 31) \<le> e"
  shows "\<exists>w'. uv_read E b sg (Failed e) w = Inr ((), w') \<and> rx_rel s b f cap H w' ([], []) \<and>
    app w' = rec s None (if e = UV_EOF then 0 else e) (app w)"
  using read_failed [OF assms] by (simp add: recv_code_def)

theorem receive_failure_witness:
  "\<exists>w'. uv_read sample_env 2 65536 (Failed (- 104)) sample_rx = Inr ((), w') \<and>
    app w' = [(1, None, - 104)]"
  using receive_failure [OF rx_rel_idle [OF sample_rx_idle], of sample_env 65536 65536 note_recv "- 104"]
  by (auto simp: note_recv_def UV_EOF_def)

text \<open>C37: Defect. A head that arrives in pieces, its first byte alone, is taken for an empty message
  when that byte is zero, as it is for every message shorter than 16 MiB: \<open>on_recv\<close> is called with
  an empty message that was never sent, and the second byte of the head is then read as the first
  byte of the next one.\<close>

theorem receive_split_head:
  assumes "rx_rel s b f cap H w ([], [])" and "ctb_network_order E" and "capacity sg = cap"
    and "0 < cap" and "recv_client E f rec" and "length p < 2 ^ 24"
  shows "\<exists>w'. uv_read E b sg (Got (take 1 (frame p))) w = Inr ((), w') \<and>
    app w' = rec s (Some []) 0 (app w) \<and> rx_rel s b f cap H w' ([], [])"
proof -
  have "byte_of 3 (of_nat (length p)) = 0"
    using assms(6) unat_byte_of [of 3 "of_nat (length p)"]
    by (simp add: unat_of_nat word_unat_eq_iff)
  then have first: "take 1 (frame p) = [0]"
    by (simp add: frame_def be_bytes_def)
  have "rx_chunk cap [0] ([], [])"
    using assms(4) by (simp add: rx_chunk_def rx_want_def)
  from read_step [OF assms(1) this assms(2,3,5)] show ?thesis
    using rx_feed_unsafe [of "([], [])" "[0]"] unfolding first by auto
qed

theorem receive_split_head_witness:
  "\<exists>w'. uv_read sample_env 2 65536 (Got (take 1 (frame [7, 8, 9]))) sample_rx = Inr ((), w') \<and>
    app w' = [(1, Some [], 0)]"
  using receive_split_head [OF rx_rel_idle [OF sample_rx_idle], of sample_env 65536 65536 note_recv "[7, 8, 9]"]
  by (auto simp: note_recv_def)

text \<open>C38: Defect. A message is given the memory libuv first suggested, whatever its head says: the
  bytes of a longer body that follow are written past the end of the block.\<close>

theorem receive_overflow:
  assumes "rx_rel s b f cap H w ([], [])" and "ctb_network_order E" and "capacity sg = cap"
    and "4 \<le> cap" and "recv_client E f rec" and "cap < length p" and "length p < 2 ^ 32"
  shows "uv_reads E b sg [be_bytes (of_nat (length p)), take cap p, [p ! cap]] w = Inl Out_Of_Bounds"
proof -
  let ?h = "be_bytes (of_nat (length p))"
  have val: "be_value ?h = length p"
    using assms(7) by (simp add: unat_of_nat)
  then have one: "rx_feed ?h ([], []) = ((?h, []), [])"
    using assms(6) by (cases p) (simp_all add: rx_feed_def rx_add_def rx_done_def Let_def)
  have two: "rx_feed (take cap p) (?h, []) = ((?h, take cap p), [])"
    using val assms(6) by (simp add: rx_feed_def rx_add_def rx_done_def Let_def)
  have "take cap p \<noteq> []"
    using assms(4,6) by auto
  then have chunks: "rx_chunks cap [?h, take cap p] ([], [])"
    using assms(4,6) val one by (auto simp: rx_chunk_def rx_want_def be_bytes_def)
  obtain w' where w': "uv_reads E b sg [?h, take cap p] w = Inr ((), w')"
    "rx_rel s b f cap H w' (?h, take cap p)"
    using read_steps [OF assms(1) chunks assms(2,3,5)] one two by (auto simp: Let_def)
  have "uv_read E b sg (Got [p ! cap]) w' = Inl Out_Of_Bounds"
    using assms(4,6) by (intro read_overflow [OF w'(2) assms(2,3)]) auto
  then show ?thesis
    using uv_reads_append [of E b sg "[?h, take cap p]" "[[p ! cap]]" w] w'(1) by simp
qed

theorem receive_overflow_witness:
  "uv_reads sample_env 2 8 [be_bytes (of_nat (length (replicate 9 (1 :: u8)))),
     take 8 (replicate 9 1), [replicate 9 1 ! 8]] sample_rx = Inl Out_Of_Bounds"
  by (rule receive_overflow [OF rx_rel_idle [OF sample_rx_idle], of _ _ 8 note_recv]) simp_all

end
