(* ===== verification/Send.thy ===== *)
theory Send
  imports Receive
begin

text \<open>
  Sending: the bytes libuv gathers from the buffers \<open>buv_send\<close> hands it are the frame of the
  message's payload, so what \<open>Receive\<close> shows of frames applies to what was sent.
\<close>

section \<open>What the buffers of a write hold\<close>

definition gather :: "('u, 'a) world \<Rightarrow> uv_buf \<Rightarrow> fault + bytes" where
  "gather w buf =
     (case buf_base buf of
        None \<Rightarrow> if buf_len buf = 0 then Inr [] else Inl Null_Deref
      | Some (Size_be a i) \<Rightarrow>
          (case heap w a of
             Some (Msg m) \<Rightarrow>
               if length (size_be m) < i + unat (buf_len buf) then Inl Out_Of_Bounds
               else Inr (take (unat (buf_len buf)) (drop i (size_be m)))
           | _ \<Rightarrow> Inl Bad_Pointer)
      | Some (Data a i) \<Rightarrow>
          (case heap w a of
             Some (Msg m) \<Rightarrow>
               if length (msg_data m) < i + unat (buf_len buf) then Inl Out_Of_Bounds
               else Inr (take (unat (buf_len buf)) (drop i (msg_data m)))
           | _ \<Rightarrow> Inl Bad_Pointer))"

fun gather_all :: "('u, 'a) world \<Rightarrow> uv_buf list \<Rightarrow> fault + bytes" where
  "gather_all w [] = Inr []"
| "gather_all w (buf # bufs) =
     (case gather w buf of
        Inl f \<Rightarrow> Inl f
      | Inr xs \<Rightarrow> (case gather_all w bufs of Inl f \<Rightarrow> Inl f | Inr ys \<Rightarrow> Inr (xs @ ys)))"

section \<open>A message that can be sent\<close>

text \<open>The size field does not exceed the memory behind \<open>data\<close>.\<close>

definition sendable :: "('u, 'a) env \<Rightarrow> sc_msg \<Rightarrow> bool" where
  "sendable E m \<longleftrightarrow> length (size_be m) = 4 \<and> unat (msg_size E m) \<le> length (msg_data m)"

lemma unat_ucast_u32: "unat (ucast (x :: u32) :: u64) = unat x"
  by (simp add: unsigned_ucast_eq take_bit_nat_eq_self_iff)
    (use unsigned_less [of x, where 'a = nat] in simp)

lemma gather_send_buffers:
  assumes net: "ctb_network_order E" and m: "heap w a = Some (Msg m)" and ok: "sendable E m"
  shows "gather_all w (send_buffers a (msg_size E m)) = Inr (frame (payload E w a))"
proof -
  have len: "length (size_be m) = 4" and fit: "unat (msg_size E m) \<le> length (msg_data m)"
    using ok by (simp_all add: sendable_def)
  then have size: "size_be m = be_bytes (msg_size E m)"
    using be_bytes_of_value [OF len] by (simp add: unat_msg_size [OF net len, symmetric])
  have pay: "payload E w a = take (unat (msg_size E m)) (msg_data m)"
    using m by (simp add: payload_def)
  then have "be_bytes (of_nat (length (payload E w a))) = size_be m"
    using fit size by (simp add: min_absorb2)
  then show ?thesis
    using m len fit pay
    by (simp add: send_buffers_def gather_def unat_ucast_u32 frame_def SC_MSG_SIZE_BYTES_def)
qed

lemma buv_send_ok [step_simps]:
  fixes E :: "('u, 'a) env" and w :: "('u, 'a) world"
  assumes "heap w b = Some (Buv bu)" and "heap w a = Some (Msg m)"
  defines "bufs \<equiv> send_buffers a (msg_size E m)"
  shows "buv_send E b a w =
    Inr (fst (uv_write E b bufs (uv w)),
      w\<lparr>heap := (heap w)(b \<mapsto> Buv (bu\<lparr>write_buffers := bufs\<rparr>)), uv := snd (uv_write E b bufs (uv w))\<rparr>)"
  using assms by (simp add: buv_send_def sc_msg_get_size_def)

section \<open>Properties\<close>

text \<open>C4: \<open>sc_socket_send\<close> hands libuv two buffers whose bytes are the frame of the message: its
  length as four big-endian bytes, then its bytes, none read outside the message; it returns what
  \<open>uv_write\<close> returns, and the message itself is unchanged.\<close>

theorem socket_send_frame:
  assumes "live s b so bu w" and "backend w = Some Buv_funcs" and "ctb_network_order E"
    and "heap w a = Some (Msg m)" and "sendable E m"
  shows "\<exists>bufs w'. sc_socket_send E s a w = Inr (fst (uv_write E b bufs (uv w)), w') \<and>
    uv w' = snd (uv_write E b bufs (uv w)) \<and> length bufs = 2 \<and>
    gather_all w' bufs = Inr (frame (payload E w a)) \<and> heap w' a = heap w a"
proof -
  note l = liveD [OF assms(1)]
  let ?bufs = "send_buffers a (msg_size E m)"
  let ?w' = "w\<lparr>heap := (heap w)(b \<mapsto> Buv (bu\<lparr>write_buffers := ?bufs\<rparr>)),
      uv := snd (uv_write E b ?bufs (uv w))\<rparr>"
  have ab: "a \<noteq> b" using l(4) assms(4) by auto
  have "sc_socket_send E s a w = Inr (fst (uv_write E b ?bufs (uv w)), ?w')"
    using l assms(2,4) buv_send_ok [OF l(4) assms(4)] by (simp add: sc_socket_send_def)
  moreover have "gather_all ?w' ?bufs = Inr (frame (payload E ?w' a))"
    using ab assms(4) by (intro gather_send_buffers [OF assms(3) _ assms(5)]) simp
  moreover have "payload E ?w' a = payload E w a"
    using ab by (simp add: payload_def)
  ultimately show ?thesis
    using ab by (intro exI [of _ ?bufs] exI [of _ ?w']) (simp add: send_buffers_def)
qed

text \<open>The world of a live socket and a message \<open>Hi\<close> in a buffer of four bytes.\<close>

definition sample_sender :: sample_world where
  "sample_sender = sample_live\<lparr>heap := (heap sample_live)
     (5 \<mapsto> Msg \<lparr>size_be = [0, 0, 0, 2], msg_data = [72, 105, 0, 0]\<rparr>)\<rparr>"

lemma sample_sender_simps:
  "live 1 2 (new_sock 1 2) (inited_buv sample_env 2 1 (junk_buv sample_world)) sample_sender"
  "backend sample_sender = Some Buv_funcs"
  "heap sample_sender 5 = Some (Msg \<lparr>size_be = [0, 0, 0, 2], msg_data = [72, 105, 0, 0]\<rparr>)"
  using live_sample by (simp_all add: sample_sender_def live_def)

lemma sample_sendable:
  "sendable sample_env \<lparr>size_be = [0, 0, 0, 2], msg_data = [72, 105, 0, 0]\<rparr>"
  "payload sample_env sample_sender 5 = [72, 105]"
  using unat_msg_size [of sample_env "\<lparr>size_be = [0, 0, 0, 2], msg_data = [72, 105, 0, 0]\<rparr>"]
  by (simp_all add: sendable_def payload_def sample_sender_def)

theorem socket_send_frame_witness:
  "\<exists>bufs w'. sc_socket_send sample_env 1 5 sample_sender = Inr (0, w') \<and>
    gather_all w' bufs = Inr [0, 0, 0, 2, 72, 105]"
  using socket_send_frame [OF sample_sender_simps(1,2) _ sample_sender_simps(3) sample_sendable(1)]
  by (auto simp: sample_sendable(2) frame_def be_bytes_def byte_of_def uv_log_def)

end
