(* ===== verification/Socket_Calls.thy ===== *)
theory Socket_Calls
  imports Socket
begin

text \<open>
  The calls of the public interface over the libuv backend: the sequence of requests each one
  makes to libuv, the code it returns on every path, and what it does to memory.
\<close>

section \<open>Addresses\<close>

text \<open>
  \<open>sc_socket_connect\<close> and \<open>sc_socket_bind\<close> on an address that parses: the backend is called with
  the new \<open>uri\<close>, in a state where only the socket has changed.
\<close>

lemma address_dispatch:
  assumes "live s b so bu w" and "wf_heap w" and "backend w = Some Buv_funcs"
    and "strdup_mallocs E" and "malloc_ok w (fresh w)" and "malloc_ok w (Suc (fresh w))"
    and "uri_parse E str = Inr (Inr (pr, x, y))"
  obtains u w1 where "sc_socket_connect E s str w = buv_connect E b u w1"
    and "sc_socket_bind E s str w = buv_bind E b u w1"
    and "heap w1 u = Some (Uri (parsed_uri (junk_uri w) (Suc u) pr x y))"
    and "heap w1 s = Some (Sock (so\<lparr>sock_uri := Some u\<rparr>))"
    and "\<And>a ob. heap w a = Some ob \<Longrightarrow> a \<noteq> s \<Longrightarrow> heap w1 a = Some ob"
    and "uv w1 = uv w" and "buv_data w1 = buv_data w" and "ndebug w1 = ndebug w"
proof -
  let ?u = "fresh w"
  have old: "heap w ?u = None" "heap w (Suc ?u) = None"
    using assms(2) by (simp_all add: wf_heap_ge)
  note l = liveD [OF assms(1)]
  have ne: "?u \<noteq> s" "Suc ?u \<noteq> s"
    using old l(1) by auto
  obtain w0 where new: "sc_uri_new E str w = Inr ((Some ?u, SC_EURIPARSE), w0)" and
    w0: "heap w0 = (heap w)(?u \<mapsto> Uri (parsed_uri (junk_uri w) (Suc ?u) pr x y), Suc ?u \<mapsto> Str str)"
      "uv w0 = uv w" "buv_data w0 = buv_data w" "ndebug w0 = ndebug w" "backend w0 = backend w"
    using sc_uri_new_ok [OF assms(4,2,5-7)] by simp
  let ?w1 = "w0\<lparr>heap := (heap w0)(s \<mapsto> Sock (so\<lparr>sock_uri := Some ?u\<rparr>))\<rparr>"
  show thesis
  proof (rule that [of ?u ?w1])
    show "sc_socket_connect E s str w = buv_connect E b ?u ?w1"
      using new w0 l ne assms(3) by (simp add: sc_socket_connect_def)
    show "sc_socket_bind E s str w = buv_bind E b ?u ?w1"
      using new w0 l ne assms(3) by (simp add: sc_socket_bind_def)
  qed (use w0 ne old in auto)
qed

lemma tcp_form_decimal:
  "dotted_quad ip \<Longrightarrow> 1 \<le> n \<Longrightarrow> n \<le> 65535 \<Longrightarrow> tcp_form (''tcp://'' @ ip @ '':'' @ decimal n) ip (decimal n)"
  unfolding tcp_form_def colons_def by (intro exI [of _ "[]"]) (simp add: check_port_decimal)

lemma decimal_port:
  assumes "n \<le> 65535"
  shows "to_unsigned (fst (strtol (decimal n))) = of_nat n" and "sint (of_nat n :: u32) = int n"
  using assms
  by (simp_all add: strtol_decimal LONG_MAX_def signed_of_nat signed_take_bit_int_eq_self)

section \<open>Properties of the calls\<close>

text \<open>C23: Connecting to \<open>tcp://ip:port\<close> initialises the handle, converts exactly that address and
  port, and starts the connection with the converted address, stopping at the first failure and
  returning its code.\<close>

theorem socket_connect_tcp:
  assumes "live s b so bu w" and "wf_heap w" and "backend w = Some Buv_funcs"
    and "strdup_mallocs E" and "malloc_ok w (fresh w)" and "malloc_ok w (Suc (fresh w))"
    and "ctb_strtok E" and "buv_data w = Some d" and "heap w d = Some (Uv_data lp)"
    and "dotted_quad ip" and "1 \<le> n" and "n \<le> 65535"
  shows "let r0 = uv_tcp_init E lp b (uv w); sa = uv_ip4_addr E ip (int n);
      r2 = uv_tcp_connect E b (snd sa) (snd r0) in
    \<exists>w'. sc_socket_connect E s (''tcp://'' @ ip @ '':'' @ decimal n) w =
        Inr (first_error [fst r0, fst sa, fst r2], w') \<and>
      uv w' = (if fst r0 = 0 \<and> fst sa = 0 then snd r2 else snd r0)"
proof -
  note l = liveD [OF assms(1)]
  note parse = uri_parse_tcp [OF assms(7) tcp_form_decimal [OF assms(10-12)]]
  obtain u w1 where
    run: "sc_socket_connect E s (''tcp://'' @ ip @ '':'' @ decimal n) w = buv_connect E b u w1"
    and u: "heap w1 u = Some (Uri (parsed_uri (junk_uri w) (Suc u) ''tcp'' ip (Some (decimal n))))"
    and frame: "\<And>a ob. heap w a = Some ob \<Longrightarrow> a \<noteq> s \<Longrightarrow> heap w1 a = Some ob"
    and st: "uv w1 = uv w" "buv_data w1 = buv_data w"
    by (rule address_dispatch [OF assms(1-6) parse]) (rule that; assumption)
  have sd: "d \<noteq> s" using l(1) assms(9) by auto
  have "buv_connect E b u w1 = connect_tcp E b (Some ip) (of_nat n) w1"
    using uri_accessors [OF u] decimal_port [OF assms(12)] by (simp add: buv_connect_def)
  then show ?thesis
    using assms(8) run st frame [OF l(4) l(9)] frame [OF assms(9) sd] decimal_port(2) [OF assms(12)]
    by (simp add: connect_tcp_def buv_loop_apply set_tcp_addr_apply Let_def)
qed

theorem socket_connect_tcp_witness:
  "\<exists>w'. sc_socket_connect sample_env 1 (''tcp://'' @ ''127.0.0.1'' @ '':'' @ decimal 8765) sample_live =
      Inr (0, w') \<and> uv w' = [''tcp_init'', ''tcp_connect'']"
proof -
  have "dotted_quad ''127.0.0.1''" by code_simp
  note run = socket_connect_tcp [OF live_sample sample_live_simps(1,2) sample_strdup
      sample_live_simps(3,3) _ sample_live_simps(4,5) this, of 8765]
  show ?thesis
    using run by (simp add: uv_log_def Let_def del: decimal.simps)
qed

text \<open>Binding to \<open>tcp://ip:port\<close> likewise initialises, converts and binds, stopping at the
  first failure, and records the protocol that \<open>buv_accept\<close> later relies on.\<close>

theorem socket_bind_tcp:
  assumes "live s b so bu w" and "wf_heap w" and "backend w = Some Buv_funcs"
    and "strdup_mallocs E" and "malloc_ok w (fresh w)" and "malloc_ok w (Suc (fresh w))"
    and "ctb_strtok E" and "buv_data w = Some d" and "heap w d = Some (Uv_data lp)"
    and "dotted_quad ip" and "1 \<le> n" and "n \<le> 65535"
  shows "let r0 = uv_tcp_init E lp b (uv w); sa = uv_ip4_addr E ip (int n);
      r2 = uv_tcp_bind E b (snd sa) 0 (snd r0) in
    \<exists>w' bu'. sc_socket_bind E s (''tcp://'' @ ip @ '':'' @ decimal n) w =
        Inr (first_error [fst r0, fst sa, fst r2], w') \<and>
      uv w' = (if fst r0 = 0 \<and> fst sa = 0 then snd r2 else snd r0) \<and>
      heap w' b = Some (Buv bu') \<and> uv_proto bu' = PROTO_TCP"
proof -
  note l = liveD [OF assms(1)]
  note parse = uri_parse_tcp [OF assms(7) tcp_form_decimal [OF assms(10-12)]]
  obtain u w1 where
    run: "sc_socket_bind E s (''tcp://'' @ ip @ '':'' @ decimal n) w = buv_bind E b u w1"
    and u: "heap w1 u = Some (Uri (parsed_uri (junk_uri w) (Suc u) ''tcp'' ip (Some (decimal n))))"
    and frame: "\<And>a ob. heap w a = Some ob \<Longrightarrow> a \<noteq> s \<Longrightarrow> heap w1 a = Some ob"
    and st: "uv w1 = uv w" "buv_data w1 = buv_data w"
    by (rule address_dispatch [OF assms(1-6) parse]) (rule that; assumption)
  let ?bu = "bu\<lparr>uv_proto := PROTO_TCP\<rparr>"
  let ?w2 = "w1\<lparr>heap := (heap w1)(b \<mapsto> Buv ?bu)\<rparr>"
  have b1: "heap w1 b = Some (Buv bu)" using frame [OF l(4) l(9)] .
  have sd: "d \<noteq> s" "d \<noteq> b" "u \<noteq> b" using l(1,4) assms(9) u b1 by auto
  have d2: "heap ?w2 d = Some (Uv_data lp)" using frame [OF assms(9)] sd by simp
  have "heap ?w2 u = Some (Uri (parsed_uri (junk_uri w) (Suc u) ''tcp'' ip (Some (decimal n))))"
    using u sd by simp
  then have "buv_bind E b u w1 = bind_tcp E b (Some ip) (of_nat n) ?w2"
    using uri_accessors [of ?w2 u] uri_accessors(5) [OF u refl] b1 decimal_port [OF assms(12)]
    by (simp add: buv_bind_def)
  then show ?thesis
    using d2 run st decimal_port(2) [OF assms(12)] assms(8)
    by (simp add: bind_tcp_def buv_loop_apply set_tcp_addr_apply Let_def)
qed

theorem socket_bind_tcp_witness:
  "\<exists>w' bu'. sc_socket_bind sample_env 1 (''tcp://'' @ ''127.0.0.1'' @ '':'' @ decimal 8777) sample_live =
      Inr (0, w') \<and> uv w' = [''tcp_init'', ''tcp_bind''] \<and>
      heap w' 2 = Some (Buv bu') \<and> uv_proto bu' = PROTO_TCP"
proof -
  have "dotted_quad ''127.0.0.1''" by code_simp
  note run = socket_bind_tcp [OF live_sample sample_live_simps(1,2) sample_strdup
      sample_live_simps(3,3) _ sample_live_simps(4,5) this, of 8777]
  show ?thesis
    using run by (simp add: uv_log_def Let_def del: decimal.simps)
qed

text \<open>Connecting to \<open>pipe://path\<close> initialises the handle and, if that succeeded, starts the
  connection to exactly that path; the code returned is that of the initialisation.\<close>

theorem socket_connect_pipe:
  assumes "live s b so bu w" and "wf_heap w" and "backend w = Some Buv_funcs"
    and "strdup_mallocs E" and "malloc_ok w (fresh w)" and "malloc_ok w (Suc (fresh w))"
    and "ctb_strtok E" and "buv_data w = Some d" and "heap w d = Some (Uv_data lp)"
    and "path \<noteq> []"
  shows "let r0 = uv_pipe_init E lp b 0 (uv w) in
    \<exists>w'. sc_socket_connect E s (''pipe://'' @ path) w = Inr (fst r0, w') \<and>
      uv w' = (if fst r0 = 0 then uv_pipe_connect E b path (snd r0) else snd r0)"
proof -
  note l = liveD [OF assms(1)]
  have "pipe_form (''pipe://'' @ path) path"
    unfolding pipe_form_def colons_def by (intro exI [of _ "[]"]) (use assms(10) in simp)
  note parse = uri_parse_pipe [OF assms(7) this]
  obtain u w1 where run: "sc_socket_connect E s (''pipe://'' @ path) w = buv_connect E b u w1"
    and u: "heap w1 u = Some (Uri (parsed_uri (junk_uri w) (Suc u) ''pipe'' path None))"
    and frame: "\<And>a ob. heap w a = Some ob \<Longrightarrow> a \<noteq> s \<Longrightarrow> heap w1 a = Some ob"
    and st: "uv w1 = uv w" "buv_data w1 = buv_data w"
    by (rule address_dispatch [OF assms(1-6) parse]) (rule that; assumption)
  have sd: "d \<noteq> s" using l(1) assms(9) by auto
  have "buv_connect E b u w1 = connect_pipe E b (Some path) w1"
    using uri_accessors [OF u] by (simp add: buv_connect_def)
  then show ?thesis
    using assms(8) run st frame [OF assms(9) sd] connect_pipe_apply [of w1 d lp E b path]
    by (simp add: Let_def)
qed

theorem socket_connect_pipe_witness:
  "\<exists>w'. sc_socket_connect sample_env 1 (''pipe://'' @ ''/tmp/s'') sample_live = Inr (0, w') \<and>
      uv w' = [''pipe_init'', ''pipe_connect /tmp/s'']"
proof -
  note run = socket_connect_pipe [OF live_sample sample_live_simps(1,2) sample_strdup
      sample_live_simps(3,3) _ sample_live_simps(4,5), of "''/tmp/s''"]
  show ?thesis
    using run by (simp add: uv_log_def Let_def)
qed

text \<open>An address that does not parse is refused with the code of the parser before libuv is
  called, and the socket is left without an address.\<close>

theorem socket_connect_refused:
  assumes "live s b so bu w" and "wf_heap w" and "strdup_mallocs E"
    and "uri_parse E str = Inr (Inl e)" and "malloc_ok w (fresh w)" and "malloc_ok w (Suc (fresh w))"
  shows "\<exists>w'. sc_socket_connect E s str w = Inr (e, w') \<and> sc_socket_bind E s str w = Inr (e, w') \<and>
    uv w' = uv w \<and> heap w' = (heap w)(s \<mapsto> Sock (so\<lparr>sock_uri := None\<rparr>)) \<and>
    e \<in> {SC_EURIPARSE, SC_EINVPROTO}"
proof -
  have old: "heap w (fresh w) = None" "heap w (Suc (fresh w)) = None"
    using assms(2) by (simp_all add: wf_heap_ge)
  have new: "sc_uri_new E str w = Inr ((None, e), w\<lparr>fresh := Suc (Suc (fresh w))\<rparr>)"
    using assms(3-6) old
    by (simp add: sc_uri_new_def malloc_def strdup_mallocs_def fun_upd_idem fun_upd_twist)
  show ?thesis
    using new liveD(1) [OF assms(1)] uri_parse_errors [OF assms(4)]
    by (simp add: sc_socket_connect_def sc_socket_bind_def)
qed

theorem socket_connect_refused_witness:
  "\<exists>w'. sc_socket_connect sample_env 1 ''udp://1.2.3.4:5'' sample_live = Inr (SC_EINVPROTO, w') \<and>
    uv w' = []"
proof -
  have "uri_parse sample_env ''udp://1.2.3.4:5'' = Inr (Inl SC_EINVPROTO)"
    by (simp add: uri_parse_def strtok_c11_def is_protocol_known_def)
  from socket_connect_refused [OF live_sample sample_live_simps(1) sample_strdup this
      sample_live_simps(3,3)] show ?thesis
    by auto
qed

text \<open>A second address on a socket is leaked over: the pointer to the first one is overwritten
  while its block stays allocated, so nothing can release it any more.\<close>

theorem socket_reconnect_leaks:
  assumes "live s b so bu w" and "wf_heap w" and "strdup_mallocs E"
    and "sock_uri so = Some u0" and "heap w u0 = Some (Uri r0)"
    and "uri_parse E str = Inr (Inl e)" and "malloc_ok w (fresh w)" and "malloc_ok w (Suc (fresh w))"
  shows "\<exists>w' so'. sc_socket_connect E s str w = Inr (e, w') \<and> heap w' s = Some (Sock so') \<and>
    sock_uri so' = None \<and> heap w' u0 = Some (Uri r0)"
proof -
  have old: "heap w (fresh w) = None" "heap w (Suc (fresh w)) = None"
    using assms(2) by (simp_all add: wf_heap_ge)
  have new: "sc_uri_new E str w = Inr ((None, e), w\<lparr>fresh := Suc (Suc (fresh w))\<rparr>)"
    using assms(3,6-8) old
    by (simp add: sc_uri_new_def malloc_def strdup_mallocs_def fun_upd_idem fun_upd_twist)
  have "u0 \<noteq> s" using liveD(1) [OF assms(1)] assms(5) by auto
  then show ?thesis
    using new liveD(1) [OF assms(1)] assms(5) by (simp add: sc_socket_connect_def)
qed

definition sample_bound :: sample_world where
  "sample_bound = sample_live\<lparr>heap := (heap sample_live)
     (1 \<mapsto> Sock ((new_sock 1 2)\<lparr>sock_uri := Some 3\<rparr>),
      3 \<mapsto> Uri (parsed_uri (junk_uri sample_world) 4 ''pipe'' ''/p'' None),
      4 \<mapsto> Str ''pipe:///p''), fresh := 5\<rparr>"

lemma sample_bound_simps [simp]:
  "wf_heap sample_bound" "backend sample_bound = Some Buv_funcs" "malloc_ok sample_bound k"
  "uv sample_bound = []"
  by (simp_all add: sample_bound_def sample_live_def wf_heap_def)

lemma live_bound:
  "live 1 2 ((new_sock 1 2)\<lparr>sock_uri := Some 3\<rparr>) (inited_buv sample_env 2 1 (junk_buv sample_world))
     sample_bound"
  by (simp add: sample_bound_def sample_live_def live_def new_sock_def inited_buv_def)

theorem socket_reconnect_leaks_witness:
  "\<exists>w' so' r0. sc_socket_connect sample_env 1 ''nonsense'' sample_bound = Inr (SC_EURIPARSE, w') \<and>
    heap w' 1 = Some (Sock so') \<and> sock_uri so' = None \<and> heap w' 3 = Some (Uri r0)"
proof -
  have parse: "uri_parse sample_env ''nonsense'' = Inr (Inl SC_EURIPARSE)"
    by (simp add: uri_parse_def strtok_c11_def)
  have "heap sample_bound 3 = Some (Uri (parsed_uri (junk_uri sample_world) 4 ''pipe'' ''/p'' None))"
    by (simp add: sample_bound_def)
  from socket_reconnect_leaks [OF live_bound sample_bound_simps(1) sample_strdup _ this parse]
  show ?thesis by auto
qed

text \<open>\<open>sc_socket_close\<close> asks libuv to close the handle, releases the address of the socket, and
  returns 0; the socket stays usable, so closing it again releases nothing twice.\<close>

theorem socket_close:
  assumes "live s b so bu w" and "backend w = Some Buv_funcs"
    and "sock_uri so = Some u" and "heap w u = Some (Uri r)" and "uri_str r = Some sa"
    and "heap w sa = Some (Str str)"
  shows "\<exists>w'. sc_socket_close E s w = Inr (0, w') \<and> uv w' = uv_close E b (uv w) \<and>
    heap w' = (heap w)(sa := None, u := None, s \<mapsto> Sock (so\<lparr>sock_uri := None\<rparr>)) \<and>
    (\<exists>w''. sc_socket_close E s w' = Inr (0, w'') \<and> heap w'' = heap w')"
proof -
  note l = liveD [OF assms(1)]
  have ne: "u \<noteq> s" "u \<noteq> b" "sa \<noteq> s" "sa \<noteq> b" "sa \<noteq> u"
    using l(1,4) assms(4,6) by auto
  let ?w1 = "w\<lparr>uv := uv_close E b (uv w)\<rparr>"
  have del: "sc_uri_del u ?w1 = Inr ((), ?w1\<lparr>heap := (heap w)(sa := None, u := None)\<rparr>)"
    using sc_uri_del_ok [of ?w1 u r sa] assms ne by simp
  show ?thesis
    using l assms(2,3) ne del by (simp add: sc_socket_close_def buv_close_def)
qed

theorem socket_close_witness:
  "\<exists>w'. sc_socket_close sample_env 1 sample_bound = Inr (0, w') \<and> uv w' = [''close''] \<and>
    heap w' 3 = None \<and> heap w' 4 = None"
proof -
  have "heap sample_bound 3 = Some (Uri (parsed_uri (junk_uri sample_world) 4 ''pipe'' ''/p'' None))"
    "heap sample_bound 4 = Some (Str ''pipe:///p'')"
    by (simp_all add: sample_bound_def)
  from socket_close [OF live_bound sample_bound_simps(2) _ this(1) _ this(2), of sample_env]
  show ?thesis by (auto simp: parsed_uri_def)
qed

text \<open>
  The calls \<open>buv_accept\<close> makes, up to the call of \<open>on_accept\<close>.
\<close>

lemma accept_run:
  assumes "live sv sb so sbu w" and "live cl cb co cbu w" and "backend w = Some Buv_funcs"
    and "buv_data w = Some d" and "heap w d = Some (Uv_data lp)"
    and "uv_proto sbu \<in> {PROTO_PIPE, PROTO_TCP}"
  shows "let r0 = (if uv_proto sbu = PROTO_PIPE then uv_pipe_init E lp cb 0 (uv w)
             else uv_tcp_init E lp cb (uv w));
      r1 = uv_accept E sb cb (snd r0); r2 = uv_read_start E cb (snd r1) in
    \<exists>w'. sc_socket_accept E sv cl w =
        fire_accept E (sock_watcher co) (first_error [fst r0, fst r1, fst r2]) w' \<and>
      w' = w\<lparr>heap := heap w', uv := uv w'\<rparr> \<and>
      uv w' = (if fst r0 \<noteq> 0 then snd r0 else if fst r1 \<noteq> 0 then snd r1 else snd r2) \<and>
      heap w' = (if fst r0 \<noteq> 0 then heap w
        else (heap w)(cb \<mapsto> Buv (cbu\<lparr>uv_proto := uv_proto sbu\<rparr>)))"
proof -
  note s = liveD [OF assms(1)] and c = liveD [OF assms(2)]
  show ?thesis
    using s c assms(3-6)
    by (auto simp: sc_socket_accept_def buv_accept_def buv_loop_apply Let_def)
qed

text \<open>C22: Accepting a connection makes the calls to libuv in order on the client's handle, of the
  server's protocol, and tells the client's \<open>on_accept\<close> exactly once: the code of the first call
  that failed, or 0.\<close>

theorem socket_accept:
  assumes "live sv sb so sbu w" and "live cl cb co cbu w" and "backend w = Some Buv_funcs"
    and "buv_data w = Some d" and "heap w d = Some (Uv_data lp)"
    and "uv_proto sbu \<in> {PROTO_PIPE, PROTO_TCP}" and "on_accept (sock_watcher co) = User_fn f"
  shows "let r0 = (if uv_proto sbu = PROTO_PIPE then uv_pipe_init E lp cb 0 (uv w)
             else uv_tcp_init E lp cb (uv w));
      r1 = uv_accept E sb cb (snd r0); r2 = uv_read_start E cb (snd r1) in
    \<exists>w'. sc_socket_accept E sv cl w =
        call_event E f cl (first_error [fst r0, fst r1, fst r2]) w' \<and> app w' = app w \<and>
      uv w' = (if fst r0 \<noteq> 0 then snd r0 else if fst r1 \<noteq> 0 then snd r1 else snd r2) \<and>
      heap w' = (if fst r0 \<noteq> 0 then heap w
        else (heap w)(cb \<mapsto> Buv (cbu\<lparr>uv_proto := uv_proto sbu\<rparr>)))"
proof -
  have call: "fire_accept E (sock_watcher co) e = call_event E f cl e" for e
    using assms(7) liveD(3) [OF assms(2)] by (intro ext) (simp add: fire_defs)
  have app: "w' = w\<lparr>heap := heap w', uv := uv w'\<rparr> \<Longrightarrow> app w' = app w" for w'
    by (metis world.select_convs(15) world.surjective world.update_convs(1) world.update_convs(14))
  show ?thesis
    using accept_run [OF assms(1-6), of E] app unfolding call Let_def by blast
qed

definition sample_pair :: sample_world where
  "sample_pair = sample_live\<lparr>heap := (heap sample_live)
     (2 \<mapsto> Buv ((inited_buv sample_env 2 1 (junk_buv sample_world))\<lparr>uv_proto := PROTO_TCP\<rparr>),
      3 \<mapsto> Sock (sock_watcher_update (on_accept_update (\<lambda>_. User_fn ''f'')) (new_sock 3 4)),
      4 \<mapsto> Buv (inited_buv sample_env 4 3 (junk_buv sample_world))), fresh := 5\<rparr>"

theorem socket_accept_witness:
  "\<exists>w'. sc_socket_accept sample_env 1 3 sample_pair = Inr ((), w') \<and>
    uv w' = [''tcp_init'', ''accept'', ''read_start''] \<and> app w' = [(3, None, 0)]"
proof -
  have sv: "live 1 2 (new_sock 1 2)
      ((inited_buv sample_env 2 1 (junk_buv sample_world))\<lparr>uv_proto := PROTO_TCP\<rparr>) sample_pair"
    by (simp add: sample_pair_def sample_live_def live_def new_sock_def inited_buv_def)
  have cl: "live 3 4 (sock_watcher_update (on_accept_update (\<lambda>_. User_fn ''f'')) (new_sock 3 4))
      (inited_buv sample_env 4 3 (junk_buv sample_world)) sample_pair"
    by (simp add: sample_pair_def sample_live_def live_def new_sock_def inited_buv_def)
  have w: "backend sample_pair = Some Buv_funcs" "buv_data sample_pair = Some 0"
    "heap sample_pair 0 = Some (Uv_data 7)" "uv sample_pair = []" "app sample_pair = []"
    by (simp_all add: sample_pair_def)
  show ?thesis
    using socket_accept [OF sv cl w(1-3), of "''f''" sample_env] w
    by (auto simp: uv_log_def note_event_def Let_def)
qed

text \<open>\<open>sc_init\<close> for libuv installs the libuv backend with the given loop, and the allocator of
  messages where one is given, keeping the current one where not; for any other backend it only
  warns.\<close>

theorem sc_init_effect:
  "\<exists>w' w''. sc_init SC_LIBUV data al fr w = Inr ((), w') \<and>
    backend w' = Some Buv_funcs \<and> buv_data w' = data \<and> heap w' = heap w \<and>
    msg_alloc w' = (case al of None \<Rightarrow> msg_alloc w | Some a \<Rightarrow> a) \<and>
    msg_free w' = (case fr of None \<Rightarrow> msg_free w | Some a \<Rightarrow> a) \<and>
    sc_init SC_NOTSET data al fr w = Inr ((), w'') \<and>
    backend w'' = backend w \<and> buv_data w'' = buv_data w \<and> heap w'' = heap w \<and>
    stderr_lines w'' = stderr_lines w @ (if ndebug w then [] else [''invalid backend''])"
  by (cases al; cases fr)
    (simp_all add: sc_init_def backend_uv_init_def backend_init_def sc_msg_init_allocator_def sc_warn_def)

text \<open>\<open>sc_strerror\<close> explains the library's own codes, whether a backend is installed or not,
  and every other code as the backend does: for libuv, each error of its table by its own text.\<close>

theorem sc_strerror_texts:
  assumes "backend w = Some Buv_funcs" and "errno_values_ok (plat E)"
    and "(n, x) \<in> set BUV_ERRNO_MAP" and "uv_errno_t (plat E) n = Some c"
  shows "sc_strerror E SC_ENOMEM w = Inr (''not enough memory'', w) \<and>
    sc_strerror E SC_EURIPARSE w = Inr (''invalid URI'', w) \<and>
    sc_strerror E SC_EINVPROTO w = Inr (''invalid protocol'', w) \<and>
    sc_strerror E c w = Inr (x, w) \<and>
    sc_strerror E 0 w = Inr (''unknown error code'', w)"
proof -
  have "c < 0"
    using uv_errno_t_code [OF assms(2,3)] assms(4) by auto
  moreover have "buv_strerror (plat E) 0 = ''unknown error code''"
    using uv_errno_t_code [OF assms(2)] by (intro buv_strerror_unknown) fastforce
  ultimately show ?thesis
    using assms(1) buv_strerror_of_name [OF assms(2-4)]
    by (simp add: sc_strerror_def SC_ENOMEM_def SC_EURIPARSE_def SC_EINVPROTO_def)
qed

theorem sc_strerror_texts_witness:
  "sc_strerror sample_env (- 111) sample_world = Inr (''connection refused'', sample_world)"
proof -
  have "errno_values_ok linux" "(''ECONNREFUSED'', ''connection refused'') \<in> set BUV_ERRNO_MAP"
    "uv_errno_t linux ''ECONNREFUSED'' = Some (- 111)"
    by code_simp+
  then show ?thesis
    using sc_strerror_texts [of sample_world sample_env "''ECONNREFUSED''" "''connection refused''" "- 111"]
    by simp
qed

end
