(* ===== verification/Footprint.thy ===== *)
theory Footprint
  imports Socket_Calls
begin

text \<open>
  The memory of one socket, its footprint: the socket, its backend structure and its address. Every
  call on a socket, and every event for it, stays inside its footprint and new memory, keeps the
  socket well formed, and returns.
\<close>

section \<open>The memory of a socket\<close>

definition uri_foot :: "('u, 'a) world \<Rightarrow> addr option \<Rightarrow> addr set" where
  "uri_foot w p =
     (case p of
        None \<Rightarrow> {}
      | Some u \<Rightarrow> insert u (case heap w u of Some (Uri r) \<Rightarrow> set_option (uri_str r) | _ \<Rightarrow> {}))"

definition foot :: "addr \<Rightarrow> ('u, 'a) world \<Rightarrow> addr set" where
  "foot s w =
     (case heap w s of
        Some (Sock so) \<Rightarrow> insert s (set_option (sock_backend so) \<union> uri_foot w (sock_uri so))
      | _ \<Rightarrow> {})"

definition callbacks_set :: "watcher \<Rightarrow> bool" where
  "callbacks_set wt \<longleftrightarrow> Null_fn \<notin> {on_connect wt, on_connection wt, on_accept wt, on_recv wt,
     on_send wt, on_close wt}"

definition uri_ok :: "('u, 'a) world \<Rightarrow> addr option \<Rightarrow> bool" where
  "uri_ok w p =
     (case p of
        None \<Rightarrow> True
      | Some u \<Rightarrow> \<exists>r sa t. heap w u = Some (Uri r) \<and> uri_str r = Some sa \<and> heap w sa = Some (Str t))"

definition sock_ok :: "addr \<Rightarrow> ('u, 'a) world \<Rightarrow> bool" where
  "sock_ok s w \<longleftrightarrow>
     (\<exists>b so bu. live s b so bu w \<and> callbacks_set (sock_watcher so) \<and> uri_ok w (sock_uri so))"

lemma sock_okI:
  "live s b so bu w \<Longrightarrow> callbacks_set (sock_watcher so) \<Longrightarrow> uri_ok w (sock_uri so) \<Longrightarrow> sock_ok s w"
  unfolding sock_ok_def by blast

lemma sock_okE:
  assumes "sock_ok s w"
  obtains b so bu where "live s b so bu w" and "callbacks_set (sock_watcher so)"
    and "uri_ok w (sock_uri so)"
  using assms unfolding sock_ok_def by blast

text \<open>The socket depends on its footprint only.\<close>

lemma foot_live: "live s b so bu w \<Longrightarrow> foot s w = insert s (insert b (uri_foot w (sock_uri so)))"
  by (auto simp: foot_def live_def)

lemma uri_foot_dom: "uri_ok w p \<Longrightarrow> uri_foot w p \<subseteq> dom (heap w)"
  by (auto simp: uri_ok_def uri_foot_def split: option.splits)

lemma uri_frame:
  assumes "uri_ok w p" and "\<forall>a \<in> uri_foot w p. heap w' a = heap w a"
  shows "uri_ok w' p \<and> uri_foot w' p = uri_foot w p"
  using assms by (auto simp: uri_ok_def uri_foot_def split: option.splits)

lemma foot_dom: "sock_ok s w \<Longrightarrow> foot s w \<subseteq> dom (heap w)"
  using uri_foot_dom by (fastforce simp: sock_ok_def foot_live live_def)

lemma sock_frame:
  assumes "sock_ok s w" and "\<forall>a \<in> foot s w. heap w' a = heap w a"
  shows "sock_ok s w' \<and> foot s w' = foot s w"
proof -
  obtain b so bu where l: "live s b so bu w" and cb: "callbacks_set (sock_watcher so)"
    and u: "uri_ok w (sock_uri so)"
    using assms(1) by (auto simp: sock_ok_def)
  have l': "live s b so bu w'"
    using l assms(2) by (auto simp: live_def foot_live [OF l])
  have "uri_ok w' (sock_uri so) \<and> uri_foot w' (sock_uri so) = uri_foot w (sock_uri so)"
    using assms(2) by (intro uri_frame [OF u]) (simp add: foot_live [OF l])
  with l l' cb show ?thesis
    by (auto simp: sock_ok_def foot_live)
qed

text \<open>The blocks of a footprint are of known kinds, so other kinds of block lie outside.\<close>

lemma foot_kinds:
  assumes "sock_ok s w" and "a \<in> foot s w"
  shows "(\<exists>x. heap w a = Some (Sock x)) \<or> (\<exists>x. heap w a = Some (Buv x)) \<or>
    (\<exists>x. heap w a = Some (Uri x)) \<or> (\<exists>x. heap w a = Some (Str x))"
proof -
  obtain b so bu where l: "live s b so bu w" and u: "uri_ok w (sock_uri so)"
    using assms(1) by (auto simp: sock_ok_def)
  with assms(2) show ?thesis
    by (auto simp: foot_live live_def uri_ok_def uri_foot_def split: option.splits)
qed

section \<open>Steps on one socket\<close>

text \<open>
  \<open>touch s w w'\<close>: a step that may change the footprint of \<open>s\<close>, and use new memory, and nothing
  else. \<open>exact\<close> steps lose no block.
\<close>

definition touch :: "addr \<Rightarrow> ('u, 'a) world \<Rightarrow> ('u, 'a) world \<Rightarrow> bool" where
  "touch s w w' \<longleftrightarrow> wf_heap w' \<and> backend w' = backend w \<and> buv_data w' = buv_data w \<and>
     malloc_ok w' = malloc_ok w \<and> ndebug w' = ndebug w \<and>
     (\<forall>a. a \<notin> foot s w \<longrightarrow> heap w a \<noteq> None \<longrightarrow> heap w' a = heap w a) \<and>
     foot s w' \<subseteq> foot s w \<union> - dom (heap w)"

definition exact :: "addr \<Rightarrow> ('u, 'a) world \<Rightarrow> ('u, 'a) world \<Rightarrow> bool" where
  "exact s w w' \<longleftrightarrow> dom (heap w') = dom (heap w) - foot s w \<union> foot s w'"

lemma touch_trans:
  assumes "touch s w w1" and "touch s w1 w2"
  shows "touch s w w2"
proof -
  have new: "a \<in> foot s w \<union> - dom (heap w)" if "a \<notin> dom (heap w1)" for a
    using assms(1) that by (auto simp: touch_def)
  have out: "heap w2 a = heap w a" if "a \<notin> foot s w" "heap w a \<noteq> None" for a
  proof -
    have "heap w1 a = heap w a" "a \<notin> foot s w1"
      using assms(1) that by (auto simp: touch_def)
    with assms(2) that show ?thesis by (auto simp: touch_def)
  qed
  moreover have "foot s w2 \<subseteq> foot s w \<union> - dom (heap w)"
  proof
    fix a assume "a \<in> foot s w2"
    then have "a \<in> foot s w1 \<or> a \<notin> dom (heap w1)"
      using assms(2) by (auto simp: touch_def)
    then show "a \<in> foot s w \<union> - dom (heap w)"
      using assms(1) new by (auto simp: touch_def)
  qed
  ultimately show ?thesis
    using assms by (simp add: touch_def)
qed

text \<open>Changes to the socket and to the backend structure that keep the links.\<close>

lemma step_links:
  assumes l: "live s b so bu w" and ok: "uri_ok w (sock_uri so)" and wf: "wf_heap w"
    and w': "heap w' = (heap w)(s \<mapsto> Sock so', b \<mapsto> Buv bu')" "fresh w' = fresh w"
      "backend w' = backend w" "buv_data w' = buv_data w" "malloc_ok w' = malloc_ok w"
      "ndebug w' = ndebug w"
    and so': "sock_backend so' = Some b" "sock_uri so' = sock_uri so"
      "watcher_socket (sock_watcher so') = s" "callbacks_set (sock_watcher so')"
    and bu': "uv_watcher bu' = s" "stream_data bu' = Some b" "connect_data bu' = Some b"
      "write_data bu' = Some b"
  shows "touch s w w' \<and> sock_ok s w' \<and> exact s w w'"
proof -
  note d = liveD [OF l]
  have l': "live s b so' bu' w'"
    using d w' so' bu' by (simp add: live_def)
  have same: "heap w' a = heap w a" if "a \<in> uri_foot w (sock_uri so)" for a
    using that ok d(1,4) w'(1) by (auto simp: uri_ok_def uri_foot_def split: option.splits)
  then have u: "uri_ok w' (sock_uri so) \<and> uri_foot w' (sock_uri so) = uri_foot w (sock_uri so)"
    by (intro uri_frame [OF ok]) simp
  then have f: "foot s w' = foot s w"
    using foot_live [OF l] foot_live [OF l'] so'(2) by simp
  have dm: "dom (heap w') = dom (heap w)"
    using d w'(1) by auto
  have "sock_ok s w'"
    using so'(2,4) u by (intro sock_okI [OF l']) simp_all
  moreover have "touch s w w'"
    using f dm wf w' foot_live [OF l] by (auto simp: touch_def wf_heap_def)
  moreover have "exact s w w'"
    using f dm \<open>sock_ok s w'\<close> foot_dom [of s w'] by (auto simp: exact_def)
  ultimately show ?thesis by simp
qed

lemma exact_trans:
  assumes "touch s w w1" and "exact s w w1" and "exact s w1 w2"
  shows "exact s w w2"
proof -
  have "foot s w1 \<subseteq> foot s w \<union> - dom (heap w)"
    using assms(1) by (simp add: touch_def)
  then have "(dom (heap w) - foot s w \<union> foot s w1) - foot s w1 = dom (heap w) - foot s w"
    by blast
  with assms(2,3) show ?thesis
    by (simp add: exact_def)
qed

text \<open>Such a step leads from one well-formed socket to another.\<close>

definition advances :: "bool \<Rightarrow> addr \<Rightarrow> ('u, 'a) world \<Rightarrow> (('u, 'a) world, 'x) prog \<Rightarrow> bool" where
  "advances c s w m \<longleftrightarrow>
     (\<exists>r w'. m w = Inr (r, w') \<and> touch s w w' \<and> sock_ok s w' \<and> (c \<longrightarrow> exact s w w'))"

lemma advancesI:
  "m w = Inr (r, w') \<Longrightarrow> touch s w w' \<and> sock_ok s w' \<and> (c \<longrightarrow> exact s w w') \<Longrightarrow> advances c s w m"
  unfolding advances_def by blast

definition same_statics :: "('u, 'a) world \<Rightarrow> ('u, 'a) world \<Rightarrow> bool" where
  "same_statics w w' \<longleftrightarrow> backend w' = backend w \<and> buv_data w' = buv_data w \<and>
     malloc_ok w' = malloc_ok w \<and> ndebug w' = ndebug w"

text \<open>Changes of the two blocks, one by one.\<close>

lemma step_sock:
  assumes "sock_ok s w" and "wf_heap w" and "heap w s = Some (Sock so)"
    and "heap w' = (heap w)(s \<mapsto> Sock so')" and "fresh w' = fresh w" and "same_statics w w'"
    and "sock_backend so' = sock_backend so" and "sock_uri so' = sock_uri so"
    and "watcher_socket (sock_watcher so') = watcher_socket (sock_watcher so)"
    and "callbacks_set (sock_watcher so')"
  shows "touch s w w' \<and> sock_ok s w' \<and> exact s w w'"
proof -
  obtain b bu where l: "live s b so bu w" and u: "uri_ok w (sock_uri so)"
    using assms(1,3) by (auto elim!: sock_okE simp: live_def)
  note d = liveD [OF l]
  have "heap w' = (heap w)(s \<mapsto> Sock so', b \<mapsto> Buv bu)"
    using assms(4) d by (auto simp: fun_eq_iff)
  from step_links [OF l u assms(2) this] assms d show ?thesis
    by (simp add: same_statics_def)
qed

lemma step_buv:
  assumes "sock_ok s w" and "wf_heap w" and "live s b so bu w"
    and "heap w' = (heap w)(b \<mapsto> Buv bu')" and "fresh w' = fresh w" and "same_statics w w'"
    and "uv_watcher bu' = uv_watcher bu" and "stream_data bu' = stream_data bu"
    and "connect_data bu' = connect_data bu" and "write_data bu' = write_data bu"
  shows "touch s w w' \<and> sock_ok s w' \<and> exact s w w'"
proof -
  note d = liveD [OF assms(3)]
  have u: "uri_ok w (sock_uri so)" and cb: "callbacks_set (sock_watcher so)"
    using assms(1) d(1) by (auto elim!: sock_okE simp: live_def)
  have "heap w' = (heap w)(s \<mapsto> Sock so, b \<mapsto> Buv bu')"
    using assms(4) d by (auto simp: fun_eq_iff)
  from step_links [OF assms(3) u assms(2) this] assms d cb show ?thesis
    by (simp add: same_statics_def)
qed

lemma step_same:
  assumes "sock_ok s w" and "wf_heap w" and "heap w' = heap w" and "fresh w' = fresh w"
    and "same_statics w w'"
  shows "touch s w w' \<and> sock_ok s w' \<and> exact s w w'"
proof -
  obtain b so bu where l: "live s b so bu w"
    using assms(1) by (rule sock_okE)
  have "heap w' = (heap w)(b \<mapsto> Buv bu)"
    using assms(3) liveD(4) [OF l] by (auto simp: fun_eq_iff)
  from step_buv [OF assms(1,2) l this assms(4,5)] show ?thesis by simp
qed

section \<open>Setters, listening, sending, closing\<close>

lemma modify_advances:
  assumes "sock_ok s w" and "wf_heap w"
    and "\<And>so. sock_backend (f so) = sock_backend so \<and> sock_uri (f so) = sock_uri so \<and>
      watcher_socket (sock_watcher (f so)) = watcher_socket (sock_watcher so)"
    and "\<And>so. callbacks_set (sock_watcher so) \<Longrightarrow> callbacks_set (sock_watcher (f so))"
  shows "advances c s w (modify_sock s f)"
proof -
  obtain b so bu where l: "live s b so bu w" and cb: "callbacks_set (sock_watcher so)"
    using assms(1) by (rule sock_okE)
  note d = liveD [OF l]
  show ?thesis
  proof (rule advancesI)
    show "modify_sock s f w = Inr ((), w\<lparr>heap := (heap w)(s \<mapsto> Sock (f so))\<rparr>)"
      using d by simp
    show "touch s w (w\<lparr>heap := (heap w)(s \<mapsto> Sock (f so))\<rparr>) \<and>
        sock_ok s (w\<lparr>heap := (heap w)(s \<mapsto> Sock (f so))\<rparr>) \<and>
        (c \<longrightarrow> exact s w (w\<lparr>heap := (heap w)(s \<mapsto> Sock (f so))\<rparr>))"
      using step_sock [OF assms(1,2) d(1), of "w\<lparr>heap := (heap w)(s \<mapsto> Sock (f so))\<rparr>" "f so"]
        assms(3,4) cb by (simp add: same_statics_def)
  qed
qed

lemma setters_advance:
  assumes "sock_ok s w" and "wf_heap w" and "cb \<noteq> Null_fn"
  shows "advances c s w (sc_socket_on_connect s cb)" "advances c s w (sc_socket_on_connection s cb)"
    "advances c s w (sc_socket_on_accept s cb)" "advances c s w (sc_socket_on_recv s cb)"
    "advances c s w (sc_socket_on_send s cb)" "advances c s w (sc_socket_on_close s cb)"
    "advances c s w (sc_socket_set_userdata s p)"
  unfolding sc_socket_on_connect_def sc_socket_on_connection_def sc_socket_on_accept_def
    sc_socket_on_recv_def sc_socket_on_send_def sc_socket_on_close_def sc_socket_set_userdata_def
  using assms by (auto intro!: modify_advances simp: callbacks_set_def)

lemma listen_advances:
  assumes "sock_ok s w" and "wf_heap w" and "backend w = Some Buv_funcs"
  shows "advances c s w (sc_socket_listen E s n)"
proof -
  obtain b so bu where l: "live s b so bu w"
    using assms(1) by (rule sock_okE)
  let ?w' = "w\<lparr>uv := snd (uv_listen E b n (uv w))\<rparr>"
  have "sc_socket_listen E s n w = Inr (fst (uv_listen E b n (uv w)), ?w')"
    using liveD [OF l] assms(3) by (simp add: sc_socket_listen_def buv_listen_def)
  then show ?thesis
    using step_same [OF assms(1,2), of ?w'] by (intro advancesI) (auto simp: same_statics_def)
qed

lemma send_advances:
  assumes "sock_ok s w" and "wf_heap w" and "backend w = Some Buv_funcs" and "heap w a = Some (Msg m)"
  shows "advances c s w (sc_socket_send E s a)"
proof -
  obtain b so bu where l: "live s b so bu w"
    using assms(1) by (rule sock_okE)
  let ?bufs = "send_buffers a (msg_size E m)"
  let ?w' = "w\<lparr>heap := (heap w)(b \<mapsto> Buv (bu\<lparr>write_buffers := ?bufs\<rparr>)),
      uv := snd (uv_write E b ?bufs (uv w))\<rparr>"
  have "sc_socket_send E s a w = Inr (fst (uv_write E b ?bufs (uv w)), ?w')"
    using liveD [OF l] assms(3,4) by (simp add: sc_socket_send_def buv_send_def sc_msg_get_size_def)
  then show ?thesis
    using step_buv [OF assms(1,2) l, of ?w' "bu\<lparr>write_buffers := ?bufs\<rparr>"]
    by (intro advancesI) (auto simp: same_statics_def)
qed

lemma close_advances:
  assumes "sock_ok s w" and "wf_heap w" and "backend w = Some Buv_funcs"
  shows "advances c s w (sc_socket_close E s)"
proof -
  obtain b so bu where l: "live s b so bu w" and cb: "callbacks_set (sock_watcher so)"
    and u: "uri_ok w (sock_uri so)"
    using assms(1) by (rule sock_okE)
  note d = liveD [OF l]
  let ?w1 = "w\<lparr>uv := uv_close E b (uv w)\<rparr>"
  show ?thesis
  proof (cases "sock_uri so")
    case None
    then have "sc_socket_close E s w = Inr (0, ?w1)"
      using d assms(3) by (simp add: sc_socket_close_def buv_close_def)
    then show ?thesis
      using step_same [OF assms(1,2), of ?w1] by (intro advancesI) (auto simp: same_statics_def)
  next
    case (Some x)
    then obtain r sa t where x: "heap w x = Some (Uri r)" "uri_str r = Some sa" "heap w sa = Some (Str t)"
      using u by (auto simp: uri_ok_def)
    have ne: "x \<noteq> s" "x \<noteq> b" "sa \<noteq> s" "sa \<noteq> b" "sa \<noteq> x"
      using d(1,4) x by auto
    let ?so = "so\<lparr>sock_uri := None\<rparr>"
    let ?w' = "?w1\<lparr>heap := (heap w)(sa := None, x := None, s \<mapsto> Sock ?so)\<rparr>"
    have run: "sc_socket_close E s w = Inr (0, ?w')"
      using sc_uri_del_ok [of ?w1 x r sa] x Some d ne assms(3)
      by (simp add: sc_socket_close_def buv_close_def)
    have l': "live s b ?so bu ?w'"
      using d ne by (simp add: live_def)
    have "foot s w = {s, b, x, sa}" "foot s ?w' = {s, b}"
      using foot_live [OF l] foot_live [OF l'] Some x by (auto simp: uri_foot_def)
    moreover have "sock_ok s ?w'"
      using cb by (intro sock_okI [OF l']) (simp_all add: uri_ok_def)
    ultimately have "touch s w ?w' \<and> sock_ok s ?w' \<and> (c \<longrightarrow> exact s w ?w')"
      using d x ne assms(2) by (auto simp: touch_def exact_def wf_heap_def)
    with run show ?thesis by (rule advancesI)
  qed
qed

section \<open>Connecting and binding\<close>

text \<open>The library is initialised.\<close>

definition ready :: "('u, 'a) world \<Rightarrow> bool" where
  "ready w \<longleftrightarrow> wf_heap w \<and> backend w = Some Buv_funcs \<and>
     (\<exists>d lp. buv_data w = Some d \<and> heap w d = Some (Uv_data lp))"

lemma readyE:
  assumes "ready w"
  obtains d lp where "wf_heap w" and "backend w = Some Buv_funcs" and "buv_data w = Some d"
    and "heap w d = Some (Uv_data lp)"
  using assms unfolding ready_def by blast

lemma touch_ready:
  assumes "ready w" and "sock_ok s w" and "touch s w w'"
  shows "ready w'"
proof -
  from assms(1) obtain d lp where r: "wf_heap w" "backend w = Some Buv_funcs" "buv_data w = Some d"
    "heap w d = Some (Uv_data lp)" by (rule readyE)
  then have "d \<notin> foot s w"
    using foot_kinds [OF assms(2)] by fastforce
  with r assms(3) show ?thesis
    by (auto simp: ready_def touch_def)
qed

lemma uri_parse_shape:
  "uri_parse E str = Inr (Inr (pr, x, y)) \<Longrightarrow> pr = ''pipe'' \<or> pr = ''tcp'' \<and> y \<noteq> None"
  by (auto simp: uri_parse_def is_protocol_known_def
      split: prod.splits option.splits if_splits sum.splits)

lemma sc_uri_new_returns:
  assumes "strdup_mallocs E" and "wf_heap w" and "uri_parse E str = Inr q"
  shows "\<exists>r e w'. sc_uri_new E str w = Inr ((r, e), w')"
proof -
  let ?f = "fresh w"
  have new: "heap w ?f = None" "heap w (Suc ?f) = None"
    using assms(2) by (simp_all add: wf_heap_ge)
  show ?thesis
  proof (cases "malloc_ok w ?f \<and> malloc_ok w (Suc ?f)")
    case True
    then show ?thesis
      using assms new by (cases q) (auto simp: sc_uri_new_def malloc_def strdup_mallocs_def)
  next
    case False
    then show ?thesis
      using assms new by (cases "malloc_ok w ?f") (auto simp: sc_uri_new_def malloc_def strdup_mallocs_def)
  qed
qed

lemma wf_heap_mono:
  assumes "wf_heap w" and "dom (heap w') \<subseteq> dom (heap w)" and "fresh w \<le> fresh w'"
  shows "wf_heap w'"
  unfolding wf_heap_def
proof
  fix a assume "a \<in> dom (heap w')"
  then have "a < fresh w"
    using assms(1,2) unfolding wf_heap_def by blast
  then show "a < fresh w'"
    using assms(3) by simp
qed

text \<open>The first half: parsing, and storing the address in the socket.\<close>

lemma address_none:
  assumes "sock_ok s w" and "wf_heap w" and "heap w s = Some (Sock so)"
    and "c \<longrightarrow> sock_uri so = None"
  shows "let w' = w\<lparr>fresh := n, heap := (heap w)(s \<mapsto> Sock (so\<lparr>sock_uri := None\<rparr>))\<rparr> in
    fresh w \<le> n \<longrightarrow> touch s w w' \<and> sock_ok s w' \<and> (c \<longrightarrow> exact s w w')"
proof -
  let ?w' = "w\<lparr>fresh := n, heap := (heap w)(s \<mapsto> Sock (so\<lparr>sock_uri := None\<rparr>))\<rparr>"
  obtain b bu where l: "live s b so bu w" and cb: "callbacks_set (sock_watcher so)"
    using assms(1,3) by (auto elim!: sock_okE simp: live_def)
  note d = liveD [OF l]
  have l': "live s b (so\<lparr>sock_uri := None\<rparr>) bu ?w'"
    using d by (simp add: live_def)
  have f: "foot s ?w' = {s, b}"
    using foot_live [OF l'] by (simp add: uri_foot_def)
  have "sock_ok s ?w'"
    using cb by (intro sock_okI [OF l']) (simp_all add: uri_ok_def)
  moreover have "touch s w ?w'" if "fresh w \<le> n"
  proof -
    have "wf_heap ?w'"
      using d that by (intro wf_heap_mono [OF assms(2)]) auto
    then show ?thesis
      using f foot_live [OF l] by (simp add: touch_def)
  qed
  moreover have "c \<longrightarrow> exact s w ?w'"
    using assms(4) f foot_live [OF l] d by (auto simp: exact_def uri_foot_def)
  ultimately show ?thesis by (simp add: Let_def)
qed

lemma address_some:
  fixes w :: "('u, 'a) world" and str :: string
  assumes "sock_ok s w" and "wf_heap w" and "heap w s = Some (Sock so)"
    and "c \<longrightarrow> sock_uri so = None" and "uri_str r = Some (Suc (fresh w))"
  defines "u \<equiv> fresh w"
  defines "w' \<equiv> w\<lparr>fresh := Suc (Suc u), heap := (heap w)(u \<mapsto> Uri r, Suc u \<mapsto> Str str,
     s \<mapsto> Sock (so\<lparr>sock_uri := Some u\<rparr>))\<rparr>"
  shows "touch s w w' \<and> sock_ok s w' \<and> (c \<longrightarrow> exact s w w')"
proof -
  obtain b bu where l: "live s b so bu w" and cb: "callbacks_set (sock_watcher so)"
    using assms(1,3) by (auto elim!: sock_okE simp: live_def)
  note d = liveD [OF l]
  have none: "heap w u = None" "heap w (Suc u) = None"
    using assms(2) by (simp_all add: u_def wf_heap_ge)
  then have ne: "u \<noteq> s" "Suc u \<noteq> s" "u \<noteq> b" "Suc u \<noteq> b"
    using d(1,4) by auto
  have l': "live s b (so\<lparr>sock_uri := Some u\<rparr>) bu w'"
    using d ne by (simp add: live_def w'_def)
  have hu: "heap w' u = Some (Uri r)" "heap w' (Suc u) = Some (Str str)"
    using ne by (simp_all add: w'_def)
  have f: "foot s w' = {s, b, u, Suc u}"
    using foot_live [OF l'] hu assms(5) by (auto simp: uri_foot_def u_def)
  have "sock_ok s w'"
    using cb hu assms(5) by (intro sock_okI [OF l']) (simp_all add: uri_ok_def u_def)
  moreover have "wf_heap w'"
    using assms(2,3) by (auto simp: wf_heap_def w'_def u_def less_Suc_eq)
  then have "touch s w w'"
    using f foot_live [OF l] none ne by (auto simp: touch_def w'_def)
  moreover have "c \<longrightarrow> exact s w w'"
    using assms(3,4) f foot_live [OF l] ne d by (auto simp: exact_def uri_foot_def w'_def)
  ultimately show ?thesis by simp
qed

lemma address_step:
  assumes "sock_ok s w" and "wf_heap w" and "heap w s = Some (Sock so)"
    and "c \<longrightarrow> sock_uri so = None" and "strdup_mallocs E" and "uri_parse E str = Inr q"
  obtains r e w0 w1 where "sc_uri_new E str w = Inr ((r, e), w0)"
    and "modify_sock s (sock_uri_update (\<lambda>_. r)) w0 = Inr ((), w1)"
    and "touch s w w1 \<and> sock_ok s w1 \<and> (c \<longrightarrow> exact s w w1)"
    and "\<forall>u. r = Some u \<longrightarrow> (\<exists>pr x y j. q = Inr (pr, x, y) \<and>
      heap w1 u = Some (Uri (parsed_uri j (Suc u) pr x y)))"
proof -
  obtain r e w0 where new: "sc_uri_new E str w = Inr ((r, e), w0)"
    using sc_uri_new_returns [OF assms(5,2,6)] by blast
  show thesis
  proof (cases r)
    case None
    with sc_uri_new_fail [OF assms(5,2)] new have
      w0: "w0 = w\<lparr>fresh := fresh w0\<rparr>" and le: "fresh w \<le> fresh w0" by auto
    define n where "n = fresh w0"
    have w0n: "w0 = w\<lparr>fresh := n\<rparr>"
      using w0 unfolding n_def .
    let ?w1 = "w\<lparr>fresh := n, heap := (heap w)(s \<mapsto> Sock (so\<lparr>sock_uri := None\<rparr>))\<rparr>"
    have "modify_sock s (sock_uri_update (\<lambda>_. r)) w0 = Inr ((), ?w1)"
      using None assms(3) by (simp add: w0n)
    moreover have "touch s w ?w1 \<and> sock_ok s ?w1 \<and> (c \<longrightarrow> exact s w ?w1)"
      using address_none [OF assms(1-4), of n] le by (simp add: n_def Let_def)
    ultimately show thesis
      using that [OF new] None by blast
  next
    case (Some u)
    with sc_uri_new_success [OF assms(5,2)] new obtain pr x y where
      parse: "uri_parse E str = Inr (Inr (pr, x, y))" and u: "u = fresh w" and
      w0: "w0 = w\<lparr>heap := (heap w)(u \<mapsto> Uri (parsed_uri (junk_uri w) (Suc u) pr x y), Suc u \<mapsto> Str str),
           fresh := Suc (Suc u)\<rparr>" by blast
    let ?r = "parsed_uri (junk_uri w) (Suc u) pr x y"
    let ?w1 = "w\<lparr>fresh := Suc (Suc u), heap := (heap w)(u \<mapsto> Uri ?r, Suc u \<mapsto> Str str,
        s \<mapsto> Sock (so\<lparr>sock_uri := Some u\<rparr>))\<rparr>"
    have "heap w u = None" "heap w (Suc u) = None"
      using assms(2) u by (simp_all add: wf_heap_ge)
    then have ne: "u \<noteq> s" "Suc u \<noteq> s"
      using assms(3) by auto
    have "modify_sock s (sock_uri_update (\<lambda>_. r)) w0 = Inr ((), ?w1)"
      using Some assms(3) ne by (simp add: w0)
    moreover have "touch s w ?w1 \<and> sock_ok s ?w1 \<and> (c \<longrightarrow> exact s w ?w1)"
      using address_some [OF assms(1-4), of ?r str] by (simp add: u parsed_uri_def)
    moreover have "heap ?w1 u = Some (Uri ?r)"
      using ne by simp
    ultimately show thesis
      using that [OF new] Some parse assms(6) by auto
  qed
qed

text \<open>The second half: the backend changes its own structure only.\<close>

definition buv_only :: "addr \<Rightarrow> socket_uv \<Rightarrow> ('u, 'a) world \<Rightarrow> ('u, 'a) world \<Rightarrow> bool" where
  "buv_only b bu w w' \<longleftrightarrow> (\<exists>bu'. heap w' = (heap w)(b \<mapsto> Buv bu') \<and> uv_watcher bu' = uv_watcher bu \<and>
     stream_data bu' = stream_data bu \<and> connect_data bu' = connect_data bu \<and>
     write_data bu' = write_data bu) \<and> fresh w' = fresh w \<and> same_statics w w'"

lemma buv_onlyI:
  "heap w' = (heap w)(b \<mapsto> Buv (f bu)) \<Longrightarrow> uv_watcher (f bu) = uv_watcher bu \<Longrightarrow>
   stream_data (f bu) = stream_data bu \<Longrightarrow> connect_data (f bu) = connect_data bu \<Longrightarrow>
   write_data (f bu) = write_data bu \<Longrightarrow> fresh w' = fresh w \<Longrightarrow> same_statics w w' \<Longrightarrow>
   buv_only b bu w w'"
  unfolding buv_only_def by blast

lemma buv_only_same:
  "heap w b = Some (Buv bu) \<Longrightarrow> heap w' = heap w \<Longrightarrow> fresh w' = fresh w \<Longrightarrow> same_statics w w' \<Longrightarrow>
   buv_only b bu w w'"
  by (rule buv_onlyI [where f = id]) (auto simp: fun_eq_iff)

lemma step_buv_only:
  assumes "sock_ok s w" and "wf_heap w" and "live s b so bu w" and "buv_only b bu w w'"
  shows "touch s w w' \<and> sock_ok s w' \<and> exact s w w'"
proof -
  obtain bu' where "heap w' = (heap w)(b \<mapsto> Buv bu')" "uv_watcher bu' = uv_watcher bu"
    "stream_data bu' = stream_data bu" "connect_data bu' = connect_data bu"
    "write_data bu' = write_data bu" "fresh w' = fresh w" "same_statics w w'"
    using assms(4) unfolding buv_only_def by blast
  then show ?thesis
    by (intro step_buv [OF assms(1-3)])
qed

lemma connect_pipe_only:
  assumes "ready w" and "heap w b = Some (Buv bu)"
  shows "\<exists>e w'. connect_pipe E b (Some p) w = Inr (e, w') \<and> buv_only b bu w w'"
proof -
  from assms(1) obtain d lp where "buv_data w = Some d" "heap w d = Some (Uv_data lp)"
    by (rule readyE)
  from connect_pipe_apply [OF this, of E b p] show ?thesis
    using assms(2) by (auto intro!: buv_only_same simp: same_statics_def)
qed

lemma bind_pipe_only:
  assumes "ready w" and "heap w b = Some (Buv bu)"
  shows "\<exists>e w'. bind_pipe E b (Some p) w = Inr (e, w') \<and> buv_only b bu w w'"
proof -
  from assms(1) obtain d lp where "buv_data w = Some d" "heap w d = Some (Uv_data lp)"
    by (rule readyE)
  from bind_pipe_apply [OF this, of E b p] show ?thesis
    using assms(2) by (auto intro!: buv_only_same simp: same_statics_def)
qed

lemma tcp_only:
  assumes "ready w" and "heap w b = Some (Buv bu)"
  shows "\<exists>e w'. connect_tcp E b (Some ip) port w = Inr (e, w') \<and> buv_only b bu w w'"
    and "\<exists>e w'. bind_tcp E b (Some ip) port w = Inr (e, w') \<and> buv_only b bu w w'"
proof -
  from assms(1) obtain d lp where r: "buv_data w = Some d" "heap w d = Some (Uv_data lp)"
    by (rule readyE)
  let ?set = "tcp_addr_update (\<lambda>_. snd (uv_ip4_addr E ip (sint port)))"
  show "\<exists>e w'. connect_tcp E b (Some ip) port w = Inr (e, w') \<and> buv_only b bu w w'"
  proof (cases "fst (uv_tcp_init E lp b (uv w)) = 0")
    case True
    then show ?thesis
      using r assms(2)
      by (auto simp: connect_tcp_def buv_loop_apply set_tcp_addr_apply same_statics_def
          intro!: buv_onlyI [where f = ?set])
  next
    case False
    then show ?thesis
      using r assms(2)
      by (auto simp: connect_tcp_def buv_loop_apply same_statics_def intro!: buv_only_same)
  qed
  show "\<exists>e w'. bind_tcp E b (Some ip) port w = Inr (e, w') \<and> buv_only b bu w w'"
  proof (cases "fst (uv_tcp_init E lp b (uv w)) = 0")
    case True
    then show ?thesis
      using r assms(2)
      by (auto simp: bind_tcp_def buv_loop_apply set_tcp_addr_apply same_statics_def
          intro!: buv_onlyI [where f = ?set])
  next
    case False
    then show ?thesis
      using r assms(2)
      by (auto simp: bind_tcp_def buv_loop_apply same_statics_def intro!: buv_only_same)
  qed
qed

lemma buv_connect_only:
  assumes "ready w" and "heap w b = Some (Buv bu)"
    and "heap w u = Some (Uri (parsed_uri j (Suc u) pr x y))"
    and "pr = ''pipe'' \<or> pr = ''tcp'' \<and> y \<noteq> None"
  shows "\<exists>e w'. buv_connect E b u w = Inr (e, w') \<and> buv_only b bu w w'"
  using assms(4)
proof
  assume "pr = ''pipe''"
  then show ?thesis
    using uri_accessors [OF assms(3)] connect_pipe_only [OF assms(1,2)] by (simp add: buv_connect_def)
next
  assume "pr = ''tcp'' \<and> y \<noteq> None"
  then show ?thesis
    using uri_accessors [OF assms(3)] tcp_only(1) [OF assms(1,2)] by (auto simp: buv_connect_def)
qed

lemma buv_bind_only:
  assumes "ready w" and "heap w b = Some (Buv bu)"
    and "heap w u = Some (Uri (parsed_uri j (Suc u) pr x y))"
    and "pr = ''pipe'' \<or> pr = ''tcp'' \<and> y \<noteq> None"
  shows "\<exists>e w'. buv_bind E b u w = Inr (e, w') \<and> buv_only b bu w w'"
proof -
  have ub: "u \<noteq> b" using assms(2,3) by auto
  define pt where "pt = (if pr = ''pipe'' then PROTO_PIPE else PROTO_TCP)"
  let ?bu = "bu\<lparr>uv_proto := pt\<rparr>"
  let ?w1 = "w\<lparr>heap := (heap w)(b \<mapsto> Buv ?bu)\<rparr>"
  have u1: "heap ?w1 u = Some (Uri (parsed_uri j (Suc u) pr x y))"
    using assms(3) ub by simp
  note acc = uri_accessors [OF u1] uri_accessors(4,5) [OF assms(3)]
  from assms(1) obtain d lp where r: "wf_heap w" "backend w = Some Buv_funcs" "buv_data w = Some d"
    "heap w d = Some (Uv_data lp)" by (rule readyE)
  have "wf_heap ?w1"
    using assms(2) r(1) by (intro wf_heap_mono [OF r(1)]) auto
  moreover have "d \<noteq> b" using r(4) assms(2) by auto
  ultimately have ready: "ready ?w1"
    using r by (simp add: ready_def)
  have b1: "heap ?w1 b = Some (Buv ?bu)" by simp
  have lift: "buv_only b bu w w'" if "buv_only b ?bu ?w1 w'" for w'
    using that by (auto simp: buv_only_def same_statics_def)
  show ?thesis
    using assms(4)
  proof
    assume pr: "pr = ''pipe''"
    then have "buv_bind E b u w = bind_pipe E b (Some x) ?w1"
      using acc assms(2) by (simp add: buv_bind_def pt_def)
    then show ?thesis
      using bind_pipe_only [OF ready b1, of E x] lift by auto
  next
    assume "pr = ''tcp'' \<and> y \<noteq> None"
    then obtain p where pr: "pr = ''tcp''" and p: "y = Some p" by auto
    then have "buv_bind E b u w = bind_tcp E b (Some x) (to_unsigned (fst (strtol p))) ?w1"
      using acc assms(2) by (simp add: buv_bind_def pt_def)
    then show ?thesis
      using tcp_only(2) [OF ready b1, of E x "to_unsigned (fst (strtol p))"] lift by auto
  qed
qed

lemma address_calls_advance:
  assumes "sock_ok s w" and "ready w" and "strdup_mallocs E" and "uri_parse E str = Inr q"
    and "\<forall>so. heap w s = Some (Sock so) \<longrightarrow> c \<longrightarrow> sock_uri so = None"
  shows "advances c s w (sc_socket_connect E s str)" and "advances c s w (sc_socket_bind E s str)"
proof -
  obtain b so bu where l: "live s b so bu w"
    using assms(1) by (rule sock_okE)
  note d = liveD [OF l]
  have wf: "wf_heap w" and un: "c \<longrightarrow> sock_uri so = None"
    using assms(2,5) d(1) by (auto simp: ready_def)
  obtain r e w0 w1 where new: "sc_uri_new E str w = Inr ((r, e), w0)"
    and st: "modify_sock s (sock_uri_update (\<lambda>_. r)) w0 = Inr ((), w1)"
    and t1: "touch s w w1 \<and> sock_ok s w1 \<and> (c \<longrightarrow> exact s w w1)"
    and got: "\<forall>u. r = Some u \<longrightarrow> (\<exists>pr x y j. q = Inr (pr, x, y) \<and>
      heap w1 u = Some (Uri (parsed_uri j (Suc u) pr x y)))"
    by (rule address_step [OF assms(1) wf d(1) un assms(3,4)])
  from t1 have t: "touch s w w1" "sock_ok s w1" "c \<longrightarrow> exact s w w1"
    by simp_all
  have ready: "ready w1" by (rule touch_ready [OF assms(2,1) t(1)])
  have "advances c s w (sc_socket_connect E s str) \<and> advances c s w (sc_socket_bind E s str)"
  proof (cases r)
    case None
    then have "sc_socket_connect E s str w = Inr (e, w1)" "sc_socket_bind E s str w = Inr (e, w1)"
      using new st by (simp_all add: sc_socket_connect_def sc_socket_bind_def)
    then show ?thesis
      using t by (auto intro: advancesI)
  next
    case (Some u)
    then obtain pr x y j where q: "q = Inr (pr, x, y)"
      and u: "heap w1 u = Some (Uri (parsed_uri j (Suc u) pr x y))" using got by auto
    have sh: "pr = ''pipe'' \<or> pr = ''tcp'' \<and> y \<noteq> None"
      using uri_parse_shape [of E str pr x y] assms(4) q by simp
    obtain b1 so1 bu1 where l1: "live s b1 so1 bu1 w1" by (rule sock_okE [OF t(2)])
    note d1 = liveD [OF l1]
    have run: "sc_socket_connect E s str w = buv_connect E b1 u w1"
      "sc_socket_bind E s str w = buv_bind E b1 u w1"
      using new st Some d1 ready
      by (simp_all add: sc_socket_connect_def sc_socket_bind_def ready_def)
    have fin: "touch s w w2 \<and> sock_ok s w2 \<and> (c \<longrightarrow> exact s w w2)" if "buv_only b1 bu1 w1 w2" for w2
    proof -
      have wf1: "wf_heap w1" using ready by (simp add: ready_def)
      have "touch s w1 w2 \<and> sock_ok s w2 \<and> exact s w1 w2"
        by (rule step_buv_only [OF t(2) wf1 l1 that])
      with t show ?thesis
        using touch_trans exact_trans by blast
    qed
    show ?thesis
      using buv_connect_only [OF ready d1(4) u sh, of E] buv_bind_only [OF ready d1(4) u sh, of E] run fin
      by (metis advancesI)
  qed
  then show "advances c s w (sc_socket_connect E s str)" "advances c s w (sc_socket_bind E s str)"
    by simp_all
qed

section \<open>Events and accepting\<close>

text \<open>
  Callbacks that change the state of the application only; what they do through the library is
  the next call of the sequence.
\<close>

definition quiet :: "('u, 'a) env \<Rightarrow> bool" where
  "quiet E \<longleftrightarrow> (\<forall>f s e w. \<exists>x. call_event E f s e w = Inr ((), w\<lparr>app := x\<rparr>)) \<and>
     (\<forall>f s w. \<exists>x. call_close E f s w = Inr ((), w\<lparr>app := x\<rparr>))"

definition silent :: "('u, 'a) world \<Rightarrow> ('u, 'a) world \<Rightarrow> bool" where
  "silent w w' \<longleftrightarrow> heap w' = heap w \<and> fresh w' = fresh w \<and> same_statics w w'"

lemma warn_silent: "\<exists>w'. sc_warn m w = Inr ((), w') \<and> silent w w'"
  by (simp add: sc_warn_def silent_def same_statics_def)

lemma call_silent:
  assumes "quiet E"
  shows "\<exists>w'. call_event E f s e w = Inr ((), w') \<and> silent w w'"
    and "\<exists>w'. call_close E f s w = Inr ((), w') \<and> silent w w'"
proof -
  obtain x y where "call_event E f s e w = Inr ((), w\<lparr>app := x\<rparr>)"
    "call_close E f s w = Inr ((), w\<lparr>app := y\<rparr>)"
    using assms unfolding quiet_def by metis
  then show "\<exists>w'. call_event E f s e w = Inr ((), w') \<and> silent w w'"
    "\<exists>w'. call_close E f s w = Inr ((), w') \<and> silent w w'"
    by (auto simp: silent_def same_statics_def)
qed

lemma fire_silent:
  assumes "callbacks_set wt" and "quiet E"
  shows "\<exists>w'. fire_connect E wt e w = Inr ((), w') \<and> silent w w'"
    "\<exists>w'. fire_connection E wt e w = Inr ((), w') \<and> silent w w'"
    "\<exists>w'. fire_accept E wt e w = Inr ((), w') \<and> silent w w'"
    "\<exists>w'. fire_send E wt e w = Inr ((), w') \<and> silent w w'"
    "\<exists>w'. fire_close E wt w = Inr ((), w') \<and> silent w w'"
  using assms warn_silent call_silent [OF assms(2)]
  by (auto simp: fire_defs fire_def noop_defs callbacks_set_def split: callback.split)

lemma step_silent:
  "sock_ok s w \<Longrightarrow> wf_heap w \<Longrightarrow> silent w w' \<Longrightarrow> touch s w w' \<and> sock_ok s w' \<and> exact s w w'"
  by (rule step_same) (simp_all add: silent_def)

lemma events_advance:
  fixes w :: "('u, 'a) world"
  assumes "sock_ok s w" and "wf_heap w" and "quiet E" and "live s b so bu w"
  shows "advances c s w (on_connect_wrap E b e)" "advances c s w (on_connection_wrap E b e)"
    "advances c s w (write_wrap E b e)" "advances c s w (close_wrap E b)"
proof -
  note d = liveD [OF assms(4)]
  have cb: "callbacks_set (sock_watcher so)"
    using assms(1) d(1) by (auto elim!: sock_okE simp: live_def)
  note f = fire_silent [OF cb assms(3)]
  have adv: "advances c s w m" if "\<exists>w'. m w = Inr ((), w') \<and> silent w w'"
    for m :: "(('u, 'a) world, unit) prog"
    using that step_silent [OF assms(1,2)] by (auto intro: advancesI)
  have run: "on_connect_wrap E b e w = fire_connect E (sock_watcher so) e w"
    "on_connection_wrap E b e w = fire_connection E (sock_watcher so) e w"
    "write_wrap E b e w = fire_send E (sock_watcher so) e w"
    "close_wrap E b w = fire_close E (sock_watcher so) w"
    using d by (simp_all add: on_connect_wrap_def on_connection_wrap_def write_wrap_def
        close_wrap_def via_data_def)
  show "advances c s w (on_connect_wrap E b e)" "advances c s w (on_connection_wrap E b e)"
    "advances c s w (write_wrap E b e)" "advances c s w (close_wrap E b)"
    using f by (simp_all add: adv run)
qed

text \<open>A server that was bound has a protocol.\<close>

definition bound :: "addr \<Rightarrow> ('u, 'a) world \<Rightarrow> bool" where
  "bound s w \<longleftrightarrow>
     (case heap w s of
        Some (Sock so) \<Rightarrow>
          (case sock_backend so of
             Some b \<Rightarrow>
               (case heap w b of
                  Some (Buv bu) \<Rightarrow> uv_proto bu = PROTO_PIPE \<or> uv_proto bu = PROTO_TCP
                | _ \<Rightarrow> False)
           | None \<Rightarrow> False)
      | _ \<Rightarrow> False)"

lemma accept_advances:
  assumes "sock_ok sv w" and "sock_ok cl w" and "ready w" and "quiet E" and "bound sv w"
  shows "advances c cl w (sc_socket_accept E sv cl)"
proof -
  obtain sb so sbu where ls: "live sv sb so sbu w" by (rule sock_okE [OF assms(1)])
  obtain cb co cbu where lc: "live cl cb co cbu w" and set: "callbacks_set (sock_watcher co)"
    by (rule sock_okE [OF assms(2)])
  obtain d lp where r: "wf_heap w" "backend w = Some Buv_funcs" "buv_data w = Some d"
    "heap w d = Some (Uv_data lp)" by (rule readyE [OF assms(3)])
  note s = liveD [OF ls] and k = liveD [OF lc]
  have pt: "uv_proto sbu = PROTO_PIPE \<or> uv_proto sbu = PROTO_TCP"
    using assms(5) s by (simp add: bound_def)
  let ?r0 = "if uv_proto sbu = PROTO_PIPE then uv_pipe_init E lp cb 0 (uv w)
    else uv_tcp_init E lp cb (uv w)"
  have "uv_proto sbu \<in> {PROTO_PIPE, PROTO_TCP}"
    using pt by simp
  from accept_run [OF ls lc r(2-4) this, of E] obtain x w1 where
    run: "sc_socket_accept E sv cl w = fire_accept E (sock_watcher co) x w1"
    and w1: "w1 = w\<lparr>heap := heap w1, uv := uv w1\<rparr>"
    and h1: "heap w1 = (if fst ?r0 \<noteq> 0 then heap w
      else (heap w)(cb \<mapsto> Buv (cbu\<lparr>uv_proto := uv_proto sbu\<rparr>)))"
    by (auto simp: Let_def)
  have st: "fresh w1 = fresh w" "same_statics w w1"
    by (subst w1, simp add: same_statics_def)+
  have only: "buv_only cb cbu w w1"
  proof (cases "fst ?r0 = 0")
    case True
    then show ?thesis
      using h1 st by (intro buv_onlyI [where f = "uv_proto_update (\<lambda>_. uv_proto sbu)"]) simp_all
  next
    case False
    then show ?thesis
      using h1 st k(4) by (intro buv_only_same) simp_all
  qed
  from step_buv_only [OF assms(2) r(1) lc only]
  have t: "touch cl w w1" "sock_ok cl w1" "exact cl w w1" by simp_all
  then have wf: "wf_heap w1" by (simp add: touch_def)
  obtain w2 where w2: "fire_accept E (sock_watcher co) x w1 = Inr ((), w2)" "silent w1 w2"
    using fire_silent(3) [OF set assms(4)] by blast
  from step_silent [OF t(2) wf w2(2)] t have
    "touch cl w w2 \<and> sock_ok cl w2 \<and> (c \<longrightarrow> exact cl w w2)"
    using touch_trans exact_trans by blast
  with run w2(1) show ?thesis
    by (intro advancesI) simp_all
qed

section \<open>Creating and deleting\<close>

lemma new_cases:
  assumes "ready w"
  shows "(\<exists>w'. sc_socket_new E w = Inr (None, w') \<and> ready w' \<and>
        (\<forall>a. heap w a \<noteq> None \<longrightarrow> heap w' a = heap w a) \<and>
        ((\<forall>k. malloc_ok w k) \<longrightarrow> False) \<and> malloc_ok w' = malloc_ok w) \<or>
    (\<exists>s w'. sc_socket_new E w = Inr (Some s, w') \<and> ready w' \<and> heap w s = None \<and> sock_ok s w' \<and>
        (\<forall>a. heap w a \<noteq> None \<longrightarrow> heap w' a = heap w a) \<and> foot s w' \<subseteq> - dom (heap w) \<and>
        dom (heap w') = dom (heap w) \<union> foot s w' \<and> malloc_ok w' = malloc_ok w)"
proof -
  obtain d lp where r: "wf_heap w" "backend w = Some Buv_funcs" "buv_data w = Some d"
    "heap w d = Some (Uv_data lp)" by (rule readyE [OF assms])
  let ?s = "fresh w" and ?b = "Suc (fresh w)"
  have none: "heap w ?s = None" "heap w ?b = None"
    using r(1) by (simp_all add: wf_heap_ge)
  then have ne: "d \<noteq> ?s" "d \<noteq> ?b" using r(4) by auto
  consider (no) "\<not> malloc_ok w ?s" | (half) "malloc_ok w ?s" "\<not> malloc_ok w ?b"
    | (both) "malloc_ok w ?s" "malloc_ok w ?b" by blast
  then show ?thesis
  proof cases
    case no
    let ?w' = "w\<lparr>fresh := ?b\<rparr>"
    have "sc_socket_new E w = Inr (None, ?w')"
      using no by (simp add: sc_socket_new_def malloc_def)
    moreover have "ready ?w'"
      using r wf_heap_mono [OF r(1), of ?w'] by (simp add: ready_def)
    ultimately show ?thesis using no by auto
  next
    case half
    let ?w' = "w\<lparr>heap := (heap w)(?s \<mapsto> Sock ((junk_sock w)\<lparr>userdata := None, sock_backend := None\<rparr>)),
        fresh := Suc ?b\<rparr>"
    have "sc_socket_new E w = Inr (None, ?w')"
      using half r(2) by (simp add: sc_socket_new_first new_first_def socket_attach_def buv_alloc_cases
          buv_free_def)
    moreover have "ready ?w'"
      using r ne by (auto simp: ready_def wf_heap_def less_Suc_eq)
    ultimately show ?thesis using half none by auto
  next
    case both
    let ?bu = "inited_buv E ?b ?s (junk_buv w)"
    let ?w' = "w\<lparr>heap := (heap w)(?s \<mapsto> Sock (new_sock ?s ?b), ?b \<mapsto> Buv ?bu), fresh := Suc ?b\<rparr>"
    have new: "sc_socket_new E w = Inr (Some ?s, ?w')"
      using uv_socket_new [OF r(1,2) both] .
    have l: "live ?s ?b (new_sock ?s ?b) ?bu ?w'"
      by (simp add: live_new)
    have ok: "sock_ok ?s ?w'"
      by (intro sock_okI [OF l]) (simp_all add: new_sock_def callbacks_set_def uri_ok_def)
    have f: "foot ?s ?w' = {?s, ?b}"
      using foot_live [OF l] by (simp add: new_sock_def uri_foot_def)
    have "ready ?w'"
      using r ne by (auto simp: ready_def wf_heap_def less_Suc_eq)
    with new ok f none show ?thesis
      by (intro disjI2 exI [of _ ?s] exI [of _ ?w']) auto
  qed
qed

lemma del_frees:
  assumes "sock_ok s w" and "ready w"
  shows "\<exists>w'. sc_socket_del E s w = Inr ((), w') \<and> ready w' \<and> heap w' = heap w |` (- foot s w) \<and>
    malloc_ok w' = malloc_ok w"
proof -
  obtain b so bu where l: "live s b so bu w" and u: "uri_ok w (sock_uri so)"
    by (rule sock_okE [OF assms(1)])
  obtain d lp where r: "wf_heap w" "backend w = Some Buv_funcs" "buv_data w = Some d"
    "heap w d = Some (Uv_data lp)" by (rule readyE [OF assms(2)])
  note k = liveD [OF l]
  let ?w' = "w\<lparr>heap := heap w |` (- foot s w)\<rparr>"
  have "d \<notin> foot s w"
    using foot_kinds [OF assms(1)] r(4) by fastforce
  then have "ready ?w'"
    using r wf_heap_mono [OF r(1), of ?w'] by (simp add: ready_def)
  moreover have "sc_socket_del E s w = Inr ((), ?w')"
  proof (cases "sock_uri so")
    case None
    have "foot s w = {s, b}"
      using foot_live [OF l] None by (simp add: uri_foot_def)
    then have "heap w |` (- foot s w) = (heap w)(b := None, s := None)"
      by (auto simp: fun_eq_iff restrict_map_def)
    then show ?thesis
      using None k r(2) by (simp add: sc_socket_del_def buv_free_def)
  next
    case (Some x)
    then obtain q sa t where x: "heap w x = Some (Uri q)" "uri_str q = Some sa" "heap w sa = Some (Str t)"
      using u by (auto simp: uri_ok_def)
    have ne: "x \<noteq> s" "x \<noteq> b" "sa \<noteq> s" "sa \<noteq> b" "sa \<noteq> x"
      using k(1,4) x by auto
    have "foot s w = {s, b, x, sa}"
      using foot_live [OF l] Some x by (auto simp: uri_foot_def)
    then have "heap w |` (- foot s w) = (heap w)(sa := None, x := None, b := None, s := None)"
      by (auto simp: fun_eq_iff restrict_map_def)
    then show ?thesis
      using Some k r(2) ne sc_uri_del_ok [of w x q sa] x by (simp add: sc_socket_del_def buv_free_def)
  qed
  ultimately show ?thesis by auto
qed

end
