(* ===== verification/Lifecycle.thy ===== *)
theory Lifecycle
  imports Footprint
begin

text \<open>
  The life of sockets: any sequence of calls an application may make, and of events libuv may
  report, on any number of sockets, as a step relation. Footprints stay disjoint and sockets well
  formed (by induction over the steps); so no call faults and, for careful applications, nothing is
  leaked.
\<close>

section \<open>Any sequence of calls and events\<close>

text \<open>
  The calls of \<open>include/sc/socket.h\<close>, and the events libuv reports by way of the backend's
  callbacks, each on the handle or request of a socket.
\<close>

datatype api =
    Sc_new
  | Sc_del addr
  | Sc_connect addr string
  | Sc_bind addr string
  | Sc_listen addr int
  | Sc_accept addr addr
  | Sc_send addr addr
  | Sc_close addr
  | Sc_userdata addr "addr option"
  | Sc_on_connect addr callback
  | Sc_on_connection addr callback
  | Sc_on_accept addr callback
  | Sc_on_recv addr callback
  | Sc_on_send addr callback
  | Sc_on_close addr callback
  | Ev_connect addr int
  | Ev_connection addr int
  | Ev_write addr int
  | Ev_close addr

definition on_backend ::
    "addr \<Rightarrow> (addr \<Rightarrow> (('u, 'a) world, 'x) prog) \<Rightarrow> (('u, 'a) world, 'x) prog" where
  "on_backend s k = bnd (load_sock s) (\<lambda>so. bnd (deref (sock_backend so)) k)"

text \<open>A call other than \<open>sc_socket_new\<close> acts on one socket.\<close>

fun act :: "('u, 'a) env \<Rightarrow> api \<Rightarrow> (('u, 'a) world, unit) prog" where
  "act E Sc_new = ret ()"
| "act E (Sc_del s) = sc_socket_del E s"
| "act E (Sc_connect s str) = seq (sc_socket_connect E s str) (ret ())"
| "act E (Sc_bind s str) = seq (sc_socket_bind E s str) (ret ())"
| "act E (Sc_listen s n) = seq (sc_socket_listen E s n) (ret ())"
| "act E (Sc_accept sv cl) = sc_socket_accept E sv cl"
| "act E (Sc_send s a) = seq (sc_socket_send E s a) (ret ())"
| "act E (Sc_close s) = seq (sc_socket_close E s) (ret ())"
| "act E (Sc_userdata s p) = sc_socket_set_userdata s p"
| "act E (Sc_on_connect s cb) = sc_socket_on_connect s cb"
| "act E (Sc_on_connection s cb) = sc_socket_on_connection s cb"
| "act E (Sc_on_accept s cb) = sc_socket_on_accept s cb"
| "act E (Sc_on_recv s cb) = sc_socket_on_recv s cb"
| "act E (Sc_on_send s cb) = sc_socket_on_send s cb"
| "act E (Sc_on_close s cb) = sc_socket_on_close s cb"
| "act E (Ev_connect s e) = on_backend s (\<lambda>b. on_connect_wrap E b e)"
| "act E (Ev_connection s e) = on_backend s (\<lambda>b. on_connection_wrap E b e)"
| "act E (Ev_write s e) = on_backend s (\<lambda>b. write_wrap E b e)"
| "act E (Ev_close s) = on_backend s (close_wrap E)"

fun target :: "api \<Rightarrow> addr" where
  "target Sc_new = 0"
| "target (Sc_del s) = s"
| "target (Sc_connect s str) = s"
| "target (Sc_bind s str) = s"
| "target (Sc_listen s n) = s"
| "target (Sc_accept sv cl) = cl"
| "target (Sc_send s a) = s"
| "target (Sc_close s) = s"
| "target (Sc_userdata s p) = s"
| "target (Sc_on_connect s cb) = s"
| "target (Sc_on_connection s cb) = s"
| "target (Sc_on_accept s cb) = s"
| "target (Sc_on_recv s cb) = s"
| "target (Sc_on_send s cb) = s"
| "target (Sc_on_close s cb) = s"
| "target (Ev_connect s e) = s"
| "target (Ev_connection s e) = s"
| "target (Ev_write s e) = s"
| "target (Ev_close s) = s"

text \<open>
  What the application must respect: sockets that exist, functions for callbacks, addresses on
  which the parser is defined, servers that were bound, messages that exist. A careful application
  (\<open>c\<close>) moreover gives an address only to a socket that has none.
\<close>

definition has_uri :: "addr \<Rightarrow> ('u, 'a) world \<Rightarrow> bool" where
  "has_uri s w = (case heap w s of Some (Sock so) \<Rightarrow> sock_uri so \<noteq> None | _ \<Rightarrow> False)"

definition is_msg :: "addr \<Rightarrow> ('u, 'a) world \<Rightarrow> bool" where
  "is_msg a w = (case heap w a of Some (Msg _) \<Rightarrow> True | _ \<Rightarrow> False)"

fun proper :: "bool \<Rightarrow> ('u, 'a) env \<Rightarrow> addr set \<Rightarrow> ('u, 'a) world \<Rightarrow> api \<Rightarrow> bool" where
  "proper c E S w (Sc_connect s str) = (\<not> isl (uri_parse E str) \<and> (c \<longrightarrow> \<not> has_uri s w))"
| "proper c E S w (Sc_bind s str) = (\<not> isl (uri_parse E str) \<and> (c \<longrightarrow> \<not> has_uri s w))"
| "proper c E S w (Sc_accept sv cl) = (sv \<in> S \<and> bound sv w)"
| "proper c E S w (Sc_send s a) = is_msg a w"
| "proper c E S w (Sc_on_connect s cb) = (cb \<noteq> Null_fn)"
| "proper c E S w (Sc_on_connection s cb) = (cb \<noteq> Null_fn)"
| "proper c E S w (Sc_on_accept s cb) = (cb \<noteq> Null_fn)"
| "proper c E S w (Sc_on_recv s cb) = (cb \<noteq> Null_fn)"
| "proper c E S w (Sc_on_send s cb) = (cb \<noteq> Null_fn)"
| "proper c E S w (Sc_on_close s cb) = (cb \<noteq> Null_fn)"
| "proper c E S w _ = True"

text \<open>The states an application can reach, with the set of the sockets it holds.\<close>

inductive reach ::
    "bool \<Rightarrow> ('u, 'a) env \<Rightarrow> ('u, 'a) world \<Rightarrow> addr set \<Rightarrow> ('u, 'a) world \<Rightarrow> bool"
  for c :: bool and E :: "('u, 'a) env" and w0 :: "('u, 'a) world" where
  start: "reach c E w0 {} w0"
| new: "reach c E w0 S w \<Longrightarrow> sc_socket_new E w = Inr (Some s, w') \<Longrightarrow> reach c E w0 (insert s S) w'"
| new_fails: "reach c E w0 S w \<Longrightarrow> sc_socket_new E w = Inr (None, w') \<Longrightarrow> reach c E w0 S w'"
| del: "reach c E w0 S w \<Longrightarrow> s \<in> S \<Longrightarrow> sc_socket_del E s w = Inr ((), w') \<Longrightarrow>
    reach c E w0 (S - {s}) w'"
| act: "reach c E w0 S w \<Longrightarrow> target op \<in> S \<Longrightarrow> op \<noteq> Sc_new \<Longrightarrow> op \<noteq> Sc_del (target op) \<Longrightarrow>
    proper c E S w op \<Longrightarrow> act E op w = Inr ((), w') \<Longrightarrow> reach c E w0 S w'"

section \<open>The invariant\<close>

definition socks_inv :: "addr set \<Rightarrow> ('u, 'a) world \<Rightarrow> bool" where
  "socks_inv S w \<longleftrightarrow> ready w \<and> (\<forall>s \<in> S. sock_ok s w) \<and>
     (\<forall>s \<in> S. \<forall>t \<in> S. s \<noteq> t \<longrightarrow> foot s w \<inter> foot t w = {})"

text \<open>All memory is that of the start and the footprints of the sockets.\<close>

definition tight :: "('u, 'a) world \<Rightarrow> addr set \<Rightarrow> ('u, 'a) world \<Rightarrow> bool" where
  "tight w0 S w \<longleftrightarrow> (\<forall>a \<in> dom (heap w0). heap w a = heap w0 a) \<and>
     dom (heap w) = dom (heap w0) \<union> (\<Union>s \<in> S. foot s w) \<and>
     (\<forall>s \<in> S. foot s w \<inter> dom (heap w0) = {})"

lemma other_frame:
  assumes "socks_inv S w" and "s \<in> S" and "t \<in> S" and "t \<noteq> s" and "touch s w w'"
  shows "sock_ok t w' \<and> foot t w' = foot t w"
proof (rule sock_frame)
  show ok: "sock_ok t w" using assms(1,3) by (simp add: socks_inv_def)
  show "\<forall>a \<in> foot t w. heap w' a = heap w a"
  proof
    fix a assume a: "a \<in> foot t w"
    then have "a \<notin> foot s w"
      using assms(1-4) unfolding socks_inv_def by blast
    moreover have "heap w a \<noteq> None"
      using foot_dom [OF ok] a by auto
    ultimately show "heap w' a = heap w a"
      using assms(5) by (simp add: touch_def)
  qed
qed

lemma inv_touch:
  assumes "socks_inv S w" and "s \<in> S" and "touch s w w'" and "sock_ok s w'"
  shows "socks_inv S w'"
proof -
  have ok: "sock_ok s w" and r: "ready w"
    using assms(1,2) by (simp_all add: socks_inv_def)
  note other = other_frame [OF assms(1,2) _ _ assms(3)]
  have new: "foot s w' \<inter> foot t w' = {}" if "t \<in> S" "t \<noteq> s" for t
  proof -
    have "foot t w \<subseteq> dom (heap w)" "foot s w \<inter> foot t w = {}"
      using foot_dom [of t w] assms(1,2) that unfolding socks_inv_def by blast+
    moreover have "foot s w' \<subseteq> foot s w \<union> - dom (heap w)"
      using assms(3) by (simp add: touch_def)
    ultimately show ?thesis
      using other [OF that] by blast
  qed
  have "foot t w' \<inter> foot t' w' = {}" if "t \<in> S" "t' \<in> S" "t \<noteq> t'" for t t'
    using new other that assms(1) unfolding socks_inv_def by (metis inf.commute)
  moreover have "sock_ok t w'" if "t \<in> S" for t
    using other that assms(4) by blast
  ultimately show ?thesis
    using touch_ready [OF r ok assms(3)] by (simp add: socks_inv_def)
qed

lemma set_swap:
  "F \<inter> D = {} \<Longrightarrow> R \<inter> F = {} \<Longrightarrow> D \<union> (F \<union> R) - F \<union> G = D \<union> (G \<union> R)"
  by blast

lemma tight_touch:
  assumes "socks_inv S w" and "s \<in> S" and "touch s w w'" and "exact s w w'" and "tight w0 S w"
  shows "tight w0 S w'"
proof -
  note other = other_frame [OF assms(1,2) _ _ assms(3)]
  let ?rest = "\<Union>t \<in> S - {s}. foot t w"
  have rest: "(\<Union>t \<in> S - {s}. foot t w') = ?rest"
    using other by auto
  have split: "(\<Union>t \<in> S. foot t v) = foot s v \<union> (\<Union>t \<in> S - {s}. foot t v)" for v
    using assms(2) by auto
  have dj: "?rest \<inter> foot s w = {}"
    using assms(1,2) unfolding socks_inv_def by blast
  have d0: "dom (heap w) = dom (heap w0) \<union> (foot s w \<union> ?rest)"
    and d1: "foot s w \<inter> dom (heap w0) = {}"
    using assms(2,5) split [of w] by (auto simp: tight_def)
  have "dom (heap w') = dom (heap w) - foot s w \<union> foot s w'"
    using assms(4) by (simp add: exact_def)
  also have "\<dots> = dom (heap w0) \<union> (foot s w' \<union> ?rest)"
    unfolding d0 by (rule set_swap [OF d1 dj])
  finally have "dom (heap w') = dom (heap w0) \<union> (\<Union>t \<in> S. foot t w')"
    using split [of w'] rest by simp
  moreover have "heap w' a = heap w0 a" if "a \<in> dom (heap w0)" for a
  proof -
    have "a \<notin> foot s w" "heap w a = heap w0 a"
      using that d1 assms(5) by (auto simp: tight_def)
    with that assms(3) show ?thesis by (auto simp: touch_def)
  qed
  moreover have "foot t w' \<inter> dom (heap w0) = {}" if "t \<in> S" for t
  proof (cases "t = s")
    case True
    have "foot s w' \<subseteq> foot s w \<union> - dom (heap w)"
      using assms(3) by (simp add: touch_def)
    with True d0 d1 show ?thesis by blast
  next
    case False
    with other [OF that] that assms(5) show ?thesis by (simp add: tight_def)
  qed
  ultimately show ?thesis
    by (simp add: tight_def)
qed

text \<open>Creation and deletion.\<close>

lemma inv_grow:
  assumes "socks_inv S w" and "ready w'" and "\<forall>a. heap w a \<noteq> None \<longrightarrow> heap w' a = heap w a"
  shows "socks_inv S w' \<and> (\<forall>t \<in> S. foot t w' = foot t w \<and> foot t w \<subseteq> dom (heap w))"
proof -
  have fr: "sock_ok t w' \<and> foot t w' = foot t w" "foot t w \<subseteq> dom (heap w)" if "t \<in> S" for t
  proof -
    have ok: "sock_ok t w" using assms(1) that by (simp add: socks_inv_def)
    then show dm: "foot t w \<subseteq> dom (heap w)" by (rule foot_dom)
    show "sock_ok t w' \<and> foot t w' = foot t w"
      using dm assms(3) by (intro sock_frame [OF ok]) blast
  qed
  with assms(1,2) show ?thesis
    by (simp add: socks_inv_def)
qed

lemma inv_new:
  assumes "socks_inv S w" and "ready w'" and "sock_ok s w'"
    and keep: "\<forall>a. heap w a \<noteq> None \<longrightarrow> heap w' a = heap w a"
    and s: "foot s w' \<subseteq> - dom (heap w)"
  shows "socks_inv (insert s S) w'"
proof -
  note g = inv_grow [OF assms(1,2) keep]
  have "foot s w' \<inter> foot t w' = {}" if "t \<in> S" for t
    using g that s by blast
  with g assms(2,3) show ?thesis
    unfolding socks_inv_def by (metis inf.commute insert_iff)
qed

lemma tight_new:
  assumes "socks_inv S w" and "ready w'" and keep: "\<forall>a. heap w a \<noteq> None \<longrightarrow> heap w' a = heap w a"
    and s: "foot s w' \<subseteq> - dom (heap w)" and d: "dom (heap w') = dom (heap w) \<union> foot s w'"
    and t: "tight w0 S w"
  shows "tight w0 (insert s S) w'"
proof -
  note g = inv_grow [OF assms(1-3)]
  have "(\<Union>t \<in> S. foot t w') = (\<Union>t \<in> S. foot t w)"
    using g by auto
  then have "dom (heap w') = dom (heap w0) \<union> (\<Union>t \<in> insert s S. foot t w')"
    using d t by (auto simp: tight_def)
  moreover have "heap w' a = heap w0 a" if "a \<in> dom (heap w0)" for a
  proof -
    have "heap w a = heap w0 a" "heap w a \<noteq> None"
      using that t by (auto simp: tight_def)
    with keep show ?thesis by simp
  qed
  moreover have "dom (heap w0) \<subseteq> dom (heap w)"
    using t by (simp add: tight_def)
  then have "foot s w' \<inter> dom (heap w0) = {}"
    using s by blast
  moreover have "foot t w' \<inter> dom (heap w0) = {}" if "t \<in> S" for t
    using that g t by (simp add: tight_def)
  ultimately show ?thesis
    by (simp add: tight_def)
qed

lemma del_others:
  assumes "socks_inv S w" and "s \<in> S" and "heap w' = heap w |` (- foot s w)" and "t \<in> S - {s}"
  shows "sock_ok t w' \<and> foot t w' = foot t w"
proof (rule sock_frame)
  show "sock_ok t w" using assms(1,4) by (simp add: socks_inv_def)
  have "foot s w \<inter> foot t w = {}"
    using assms(1,2,4) unfolding socks_inv_def by blast
  then show "\<forall>a \<in> foot t w. heap w' a = heap w a"
    using assms(3) by (auto simp: restrict_map_def)
qed

lemma inv_del:
  assumes "socks_inv S w" and "s \<in> S" and "heap w' = heap w |` (- foot s w)" and "ready w'"
  shows "socks_inv (S - {s}) w'"
proof -
  note o = del_others [OF assms(1-3)]
  have "foot t w' \<inter> foot t' w' = {}" if "t \<in> S - {s}" "t' \<in> S - {s}" "t \<noteq> t'" for t t'
    using o [OF that(1)] o [OF that(2)] that assms(1) unfolding socks_inv_def by blast
  with o assms(4) show ?thesis
    by (simp add: socks_inv_def)
qed

lemma tight_del:
  assumes "socks_inv S w" and "s \<in> S" and "heap w' = heap w |` (- foot s w)" and "tight w0 S w"
  shows "tight w0 (S - {s}) w'"
proof -
  note o = del_others [OF assms(1-3)]
  have u: "(\<Union>t \<in> S - {s}. foot t w') = (\<Union>t \<in> S - {s}. foot t w)"
    using o by auto
  have dj: "(\<Union>t \<in> S - {s}. foot t w) \<inter> foot s w = {}"
    using assms(1,2) unfolding socks_inv_def by blast
  have d1: "foot s w \<inter> dom (heap w0) = {}"
    using assms(2,4) by (simp add: tight_def)
  have "dom (heap w) = dom (heap w0) \<union> (foot s w \<union> (\<Union>t \<in> S - {s}. foot t w))"
    using assms(2,4) by (auto simp: tight_def)
  moreover have "dom (heap w') = dom (heap w) - foot s w"
    using assms(3) by auto
  ultimately have "dom (heap w') = dom (heap w0) \<union> (\<Union>t \<in> S - {s}. foot t w')"
    using set_swap [OF d1 dj, of "{}"] u by simp
  moreover have "heap w' a = heap w0 a" if "a \<in> dom (heap w0)" for a
    using that assms(3,4) d1 by (auto simp: tight_def restrict_map_def)
  ultimately show ?thesis
    using o assms(4) by (simp add: tight_def)
qed

section \<open>Every call advances\<close>

lemma advances_seq_ret: "advances c s w m \<Longrightarrow> advances c s w (seq m (ret x))"
  unfolding advances_def by auto

lemma act_advances:
  fixes w :: "('u, 'a) world"
  assumes "socks_inv S w" and "target op \<in> S" and "op \<noteq> Sc_new" and "op \<noteq> Sc_del (target op)"
    and "proper c E S w op" and "quiet E" and "strdup_mallocs E"
  shows "advances c (target op) w (act E op)"
proof -
  have ok: "sock_ok (target op) w" and r: "ready w"
    using assms(1,2) by (simp_all add: socks_inv_def)
  then have wf: "wf_heap w" and be: "backend w = Some Buv_funcs"
    by (simp_all add: ready_def)
  obtain b so bu where l: "live (target op) b so bu w" by (rule sock_okE [OF ok])
  have ob: "on_backend (target op) k w = k b w" for k :: "addr \<Rightarrow> (('u, 'a) world, unit) prog"
    using liveD [OF l] by (simp add: on_backend_def)
  note ev = events_advance [OF ok wf assms(6) l]
  have evs: "advances c (target op) w (on_backend (target op) (\<lambda>b. on_connect_wrap E b e))"
    "advances c (target op) w (on_backend (target op) (\<lambda>b. on_connection_wrap E b e))"
    "advances c (target op) w (on_backend (target op) (\<lambda>b. write_wrap E b e))"
    "advances c (target op) w (on_backend (target op) (close_wrap E))" for e
    using ev by (simp_all add: advances_def ob)
  note adr = address_calls_advance [OF ok r assms(7)]
  have nu: "\<forall>so. heap w (target op) = Some (Sock so) \<longrightarrow> c \<longrightarrow> sock_uri so = None"
    if "c \<longrightarrow> \<not> has_uri (target op) w"
    using that by (auto simp: has_uri_def)
  show ?thesis
  proof (cases op)
    case (Sc_connect s str)
    then obtain q where "uri_parse E str = Inr q" "c \<longrightarrow> \<not> has_uri s w"
      using assms(5) by (cases "uri_parse E str") auto
    with Sc_connect show ?thesis
      using adr(1) [of str q c] nu by (auto intro!: advances_seq_ret)
  next
    case (Sc_bind s str)
    then obtain q where "uri_parse E str = Inr q" "c \<longrightarrow> \<not> has_uri s w"
      using assms(5) by (cases "uri_parse E str") auto
    with Sc_bind show ?thesis
      using adr(2) [of str q c] nu by (auto intro!: advances_seq_ret)
  next
    case (Sc_send s a)
    with assms(5) obtain m where "heap w a = Some (Msg m)"
      by (auto simp: is_msg_def split: option.splits obj.splits)
    with Sc_send ok wf be show ?thesis
      by (auto intro!: advances_seq_ret send_advances)
  next
    case (Sc_accept sv cl)
    with assms(1,5) ok r show ?thesis
      by (auto simp: socks_inv_def intro!: accept_advances assms(6))
  qed (use assms(3-5) ok wf be evs in
      \<open>auto intro: advances_seq_ret listen_advances close_advances setters_advance\<close>)
qed

section \<open>Reachable states\<close>

lemma reach_inv:
  assumes "reach c E w0 S w" and "ready w0" and "quiet E" and "strdup_mallocs E"
  shows "socks_inv S w \<and> malloc_ok w = malloc_ok w0"
  using assms(1)
proof induction
  case start
  with assms(2) show ?case by (simp add: socks_inv_def)
next
  case (new S w s w')
  then have "ready w" by (simp add: socks_inv_def)
  from new_cases [OF this, of E] new show ?case
    using inv_new [of S w w' s] by auto
next
  case (new_fails S w w')
  then have "ready w" by (simp add: socks_inv_def)
  from new_cases [OF this, of E] new_fails show ?case
    using inv_grow [of S w w'] by auto
next
  case (del S w s w')
  then have "ready w" "sock_ok s w" by (simp_all add: socks_inv_def)
  from del_frees [OF this(2,1), of E] del show ?case
    using inv_del [of S w s w'] by auto
next
  case (act S w op w')
  from act_advances [OF _ act.hyps(2-5) assms(3,4)] act
  have t: "touch (target op) w w'" "sock_ok (target op) w'" by (auto simp: advances_def)
  with inv_touch [OF _ act.hyps(2) this] act show ?case
    by (simp add: touch_def)
qed

lemma reach_tight:
  assumes "reach True E w0 S w" and "ready w0" and "quiet E" and "strdup_mallocs E"
    and "\<forall>k. malloc_ok w0 k"
  shows "tight w0 S w"
  using assms(1)
proof induction
  case start
  show ?case by (simp add: tight_def)
next
  case (new S w s w')
  have i: "socks_inv S w" using reach_inv [OF new.hyps(1) assms(2-4)] by simp
  then have "ready w" by (simp add: socks_inv_def)
  from new_cases [OF this, of E] new tight_new [OF i, of w' s w0] show ?case by auto
next
  case (new_fails S w w')
  have i: "socks_inv S w" "malloc_ok w = malloc_ok w0"
    using reach_inv [OF new_fails.hyps(1) assms(2-4)] by simp_all
  then have "ready w" by (simp add: socks_inv_def)
  from new_cases [OF this, of E] new_fails.hyps i(2) assms(5) show ?case by auto
next
  case (del S w s w')
  have i: "socks_inv S w" using reach_inv [OF del.hyps(1) assms(2-4)] by simp
  then have "ready w" "sock_ok s w" using del.hyps(2) by (simp_all add: socks_inv_def)
  from del_frees [OF this(2,1), of E] del tight_del [OF i del.hyps(2), of w' w0] show ?case by auto
next
  case (act S w op w')
  have i: "socks_inv S w" using reach_inv [OF act.hyps(1) assms(2-4)] by simp
  from act_advances [OF i act.hyps(2-5) assms(3,4)] act.hyps(6)
  have "touch (target op) w w'" "exact (target op) w w'" by (auto simp: advances_def)
  from tight_touch [OF i act.hyps(2) this act.IH] show ?case .
qed

section \<open>The instance\<close>

lemma sample_quiet [simp]: "quiet sample_env"
  by (auto simp: quiet_def note_event_def)

lemma sample_ready [simp]: "ready sample_world"
  by (simp add: ready_def)

lemma sample_new: "sc_socket_new sample_env sample_world = Inr (Some 1, sample_live)"
  using uv_socket_new [of sample_world sample_env]
  by (simp add: sample_live_def numeral_2_eq_2 numeral_3_eq_3)

lemma sample_reach: "reach c sample_env sample_world {1} sample_live"
  using reach.new [OF reach.start sample_new] by simp

section \<open>Properties\<close>

text \<open>C10: Invariant. In every state an application can reach by creating, connecting, binding,
  listening, accepting, sending, closing and deleting sockets, in any order and with any events in
  between, every socket it holds and its backend structure point to each other, all its callbacks
  are set, its address, if any, is allocated, and no two sockets share memory.\<close>

theorem sockets_stay_sound:
  assumes "reach c E w0 S w" and "ready w0" and "quiet E" and "strdup_mallocs E"
  shows "(\<forall>s \<in> S. \<exists>b so bu. live s b so bu w \<and> callbacks_set (sock_watcher so) \<and>
      uri_ok w (sock_uri so)) \<and>
    (\<forall>s \<in> S. \<forall>t \<in> S. s \<noteq> t \<longrightarrow> foot s w \<inter> foot t w = {}) \<and> ready w"
  using reach_inv [OF assms] by (simp add: socks_inv_def sock_ok_def)

theorem sockets_stay_sound_witness:
  "\<exists>b so bu. live 1 b so bu sample_live \<and> callbacks_set (sock_watcher so) \<and>
    uri_ok sample_live (sock_uri so)"
  using sockets_stay_sound [OF sample_reach sample_ready sample_quiet sample_strdup] by simp

text \<open>C11: Safety. From every reachable state every call with arguments an application may pass
  returns: no NULL or dangling pointer is followed, nothing is freed twice, no assertion fails.\<close>

theorem calls_return:
  assumes "reach c E w0 S w" and "ready w0" and "quiet E" and "strdup_mallocs E"
    and "target op \<in> S" and "proper c E S w op"
  shows "(\<exists>w'. act E op w = Inr ((), w')) \<and> (\<exists>r w'. sc_socket_new E w = Inr (r, w'))"
proof -
  have i: "socks_inv S w" using reach_inv [OF assms(1-4)] by simp
  then have r: "ready w" and ok: "sock_ok (target op) w"
    using assms(5) by (simp_all add: socks_inv_def)
  have "\<exists>w'. act E op w = Inr ((), w')"
  proof (cases "op = Sc_new \<or> op = Sc_del (target op)")
    case True
    then show ?thesis
    proof
      assume "op = Sc_new"
      then show ?thesis by simp
    next
      assume d: "op = Sc_del (target op)"
      obtain w' where "sc_socket_del E (target op) w = Inr ((), w')"
        using del_frees [OF ok r] by blast
      then have "act E (Sc_del (target op)) w = Inr ((), w')" by simp
      with d show ?thesis by metis
    qed
  next
    case False
    then show ?thesis
      using act_advances [OF i assms(5) _ _ assms(6,3,4)] by (auto simp: advances_def)
  qed
  then show ?thesis
    using new_cases [OF r, of E] by blast
qed

theorem calls_return_witness:
  "\<exists>w'. act sample_env (Sc_connect 1 ''pipe:///tmp/s'') sample_live = Inr ((), w')"
proof -
  have "\<not> isl (uri_parse sample_env ''pipe:///tmp/s'')"
    by (simp add: uri_parse_def strtok_c11_def is_protocol_known_def)
  then have "proper False sample_env {1} sample_live (Sc_connect 1 ''pipe:///tmp/s'')"
    by simp
  with calls_return [OF sample_reach sample_ready sample_quiet sample_strdup _ this] show ?thesis
    by simp
qed



end
