(* ===== verification/Records.thy ===== *)
theory Records
  imports Framing C_String
begin

text \<open>
  The record tools of the tests: \<open>test/tools/genrec.c\<close> writes records (a size in network order and
  that many bytes of text), \<open>test/tools/disrec.c\<close> reads a file of them and prints one line for each.
  The library's frames are such records, so the tools are an independent reader and writer of what
  goes over the wire. A stream of characters is a list of bytes.
\<close>

section \<open>Common to the programs\<close>

definition chars :: "string \<Rightarrow> bytes" where
  "chars s = map of_char s"

definition newline :: char where "newline = CHR 0x0A"

text \<open>\<open>fatal\<close> of \<open>test/fatal.h\<close> and \<open>test/tools/fatal.h\<close>: a message and \<open>exit(1)\<close>.\<close>

definition fatal_text :: "string \<Rightarrow> string" where
  "fatal_text msg = ''FATAL: '' @ msg @ [newline]"

definition fatal :: "string \<Rightarrow> ('w, 'x) prog" where
  "fatal msg = fail (Exited 1 (fatal_text msg))"

text \<open>The \<open>%.*s\<close> of \<open>printf\<close> with a precision \<open>n\<close>: bytes up to a NUL, at most \<open>n\<close>.\<close>

definition print_prec :: "nat \<Rightarrow> bytes \<Rightarrow> bytes" where
  "print_prec n bs = takeWhile (\<lambda>b. b \<noteq> 0) (take n bs)"

lemma length_chars [simp]: "length (chars s) = length s"
  by (simp add: chars_def)

lemma chars_append [simp]: "chars (s @ t) = chars s @ chars t"
  by (simp add: chars_def)

lemma fatal_apply [simp]: "fatal msg w = Inl (Exited 1 (fatal_text msg))"
  by (simp add: fatal_def)

lemma print_prec_take [simp]: "print_prec n (take n bs) = print_prec n bs"
  by (simp add: print_prec_def)

section \<open>test/tools/genrec.c\<close>

text \<open>The state of the program: which requests for memory succeed, and its standard output.\<close>

record tool =
  memory :: "nat \<Rightarrow> bool"
  stdout :: bytes

definition lorem_paragraph :: string where
  "lorem_paragraph = ''Lorem ipsum dolor sit amet, consectetur adipiscing elit, sed do eiusmod '' @
    ''tempor incididunt ut labore et dolore magna aliqua. Ut enim ad minim '' @
    ''veniam, quis nostrud exercitation ullamco laboris nisi ut aliquip ex ea '' @
    ''commodo consequat. Duis aute irure dolor in reprehenderit in voluptate '' @
    ''velit esse cillum dolore eu fugiat nulla pariatur. Excepteur sint '' @
    ''occaecat cupidatat non proident, sunt in culpa qui officia deserunt '' @
    ''mollit anim id est laborum.''"

text \<open>The block \<open>lorem_new\<close> fills, with its NUL.\<close>

definition lorem_new :: "u64 \<Rightarrow> (tool, bytes) prog" where
  "lorem_new sz =
     bnd (gets memory) (\<lambda>ok.
     if \<not> ok (unat (sz + 1)) then fail (Exited 1 [])
     else ret (map (\<lambda>i. of_char (lorem_paragraph ! (i mod length lorem_paragraph))) [0..<unat sz] @ [0]))"

datatype cmd = PRINT_SIZE | PRINT_DATA | PRINT_BOTH | INVALID

text \<open>\<open>strncmp(a, b, n) == 0\<close>.\<close>

definition strncmp_eq :: "string \<Rightarrow> string \<Rightarrow> nat \<Rightarrow> bool" where
  "strncmp_eq a b n \<longleftrightarrow> take n a = take n b"

fun parse_cmd_loop :: "(string \<times> cmd) list \<Rightarrow> string \<Rightarrow> cmd" where
  "parse_cmd_loop [] cmd = INVALID"
| "parse_cmd_loop ((name, c) # names) cmd =
     (let len = unat (of_nat (length cmd) :: u32) in
      if length name = len \<and> strncmp_eq name cmd len then c else parse_cmd_loop names cmd)"

definition parse_cmd :: "string \<Rightarrow> cmd" where
  "parse_cmd cmd = parse_cmd_loop
     [(''print-size'', PRINT_SIZE), (''print-data'', PRINT_DATA), (''print-both'', PRINT_BOTH)] cmd"

definition parse_size :: "string \<Rightarrow> (tool, u64) prog" where
  "parse_size num =
     (let (sz, rest) = strtol num in
      if sz < 0 \<or> sz > LONG_MAX then fatal ''size outside range''
      else if rest = num then fatal ''failed to parse integer''
      else ret (word_of_int sz))"

definition put_bytes :: "bytes \<Rightarrow> (tool, unit) prog" where
  "put_bytes bs = upd (\<lambda>t. t\<lparr>stdout := stdout t @ bs\<rparr>)"

definition print_data :: "u64 \<Rightarrow> (tool, unit) prog" where
  "print_data sz = bnd (lorem_new sz) (\<lambda>data. put_bytes (takeWhile (\<lambda>b. b \<noteq> 0) data))"

definition print_size :: "endian \<Rightarrow> u64 \<Rightarrow> (tool, unit) prog" where
  "print_size e sz = put_bytes (store32 e (musl_htonl e (ucast sz)))"

definition print_both :: "endian \<Rightarrow> u64 \<Rightarrow> (tool, unit) prog" where
  "print_both e sz = seq (print_size e sz) (print_data sz)"

definition genrec_main :: "endian \<Rightarrow> string list \<Rightarrow> (tool, int) prog" where
  "genrec_main e argv =
     (if length argv \<noteq> 3 then fatal ''Usage: genrec print-size|print-data|print-both SIZE''
      else
        let cmd = parse_cmd (argv ! 1) in
        bnd (parse_size (argv ! 2)) (\<lambda>sz.
        seq (if cmd = INVALID then fatal ''invalid command'' else ret ()) (
        seq (if cmd = PRINT_SIZE then print_size e sz else ret ()) (
        seq (if cmd = PRINT_DATA then print_data sz else ret ()) (
        seq (if cmd = PRINT_BOTH then print_both e sz else ret ()) (
        ret 0))))))"

section \<open>test/tools/disrec.c\<close>

definition MAXSIZE :: nat where "MAXSIZE = 1024"

text \<open>\<open>printf("[%u] (%.*s)\n", size, (int)size, msg)\<close>\<close>

definition record_line :: "nat \<Rightarrow> bytes \<Rightarrow> bytes" where
  "record_line n msg = chars (''['' @ decimal n @ ''] ('') @ print_prec n msg @ chars ('')'' @ [newline])"

text \<open>
  The loop, on the bytes that are left of the file: \<open>fread\<close> into \<open>size\<close> gives fewer than four
  bytes only at the end of the file; \<open>fread\<close> into \<open>msg\<close> stores what there is, up to the size asked
  for. The result is what was printed.
\<close>

function disrec_loop :: "endian \<Rightarrow> bytes \<Rightarrow> bytes \<Rightarrow> bytes \<Rightarrow> fault + bytes" where
  "disrec_loop e msg out fp =
     (if length fp < 4 then Inr out
      else
        let size = unat (musl_ntohl e (load32 e (take 4 fp)));
            got = take size (drop 4 fp) in
        if length msg < length got then Inl Out_Of_Bounds
        else if length got \<noteq> size then Inl (Exited 1 (fatal_text ''fread''))
        else
          let msg' = splice 0 got msg in
          disrec_loop e msg' (out @ record_line size msg') (drop size (drop 4 fp)))"
  by pat_completeness auto
termination by (relation "measure (\<lambda>(e, msg, out, fp). length fp)") auto

definition disrec_main :: "endian \<Rightarrow> (string \<Rightarrow> bytes option) \<Rightarrow> string list \<Rightarrow> fault + bytes" where
  "disrec_main e files argv =
     (if length argv \<noteq> 2 then Inl (Exited 1 (fatal_text ''Usage: disrec FILE''))
      else case files (argv ! 1) of
        None \<Rightarrow> Inl (Exited 1 (fatal_text ''could not open file''))
      | Some fp \<Rightarrow> disrec_loop e (replicate MAXSIZE 0) [] fp)"

declare disrec_loop.simps [simp del]

section \<open>The text of records\<close>

text \<open>The first \<open>n\<close> bytes of the paragraph, repeated.\<close>

definition lorem :: "nat \<Rightarrow> bytes" where
  "lorem n = map (\<lambda>i. of_char (lorem_paragraph ! (i mod length lorem_paragraph))) [0..<n]"

lemma length_lorem [simp]: "length (lorem n) = n"
  by (simp add: lorem_def)

lemma lorem_paragraph_no_NUL: "lorem_paragraph \<noteq> []" "\<forall>c \<in> set lorem_paragraph. (of_char c :: u8) \<noteq> 0"
  by code_simp+

lemma lorem_no_NUL: "b \<in> set (lorem n) \<Longrightarrow> b \<noteq> 0"
  using lorem_paragraph_no_NUL by (auto simp: lorem_def)

lemma lorem_new_ok:
  "memory t (unat (sz + 1)) \<Longrightarrow> lorem_new sz t = Inr (lorem (unat sz) @ [0], t)"
  by (simp add: lorem_new_def lorem_def)

lemma takeWhile_lorem: "takeWhile (\<lambda>b. b \<noteq> 0) (lorem n @ [0]) = lorem n"
  using lorem_no_NUL [of _ n] by (subst takeWhile_append2) auto

lemma print_prec_lorem [simp]: "print_prec n (lorem n) = lorem n"
  using lorem_no_NUL [of _ n] by (simp add: print_prec_def takeWhile_eq_all_conv)

text \<open>For a command shorter than $2^{32}$ characters the loop looks it up.\<close>

lemma parse_cmd_lookup:
  assumes "length cmd < 2 ^ 32"
  shows "parse_cmd_loop names cmd = (case map_of names cmd of Some c \<Rightarrow> c | None \<Rightarrow> INVALID)"
proof (induction names)
  case (Cons nc names)
  have "unat (of_nat (length cmd) :: u32) = length cmd"
    using assms by (simp add: unat_of_nat)
  with Cons show ?case
    by (cases nc) (auto simp: strncmp_eq_def Let_def)
qed simp

lemma parse_cmd_names [simp]:
  "parse_cmd ''print-size'' = PRINT_SIZE" "parse_cmd ''print-data'' = PRINT_DATA"
  "parse_cmd ''print-both'' = PRINT_BOTH"
  by (simp_all add: parse_cmd_def parse_cmd_lookup del: parse_cmd_loop.simps)

lemma parse_cmd_invalid:
  "length cmd < 2 ^ 32 \<Longrightarrow> cmd \<notin> {''print-size'', ''print-data'', ''print-both''} \<Longrightarrow> parse_cmd cmd = INVALID"
  by (simp add: parse_cmd_def parse_cmd_lookup del: parse_cmd_loop.simps)

lemma parse_size_decimal:
  "n < 2 ^ 63 \<Longrightarrow> parse_size (decimal n) t = Inr (of_nat n, t)"
  using strtol_decimal [of n] decimal_digits [of n] by (auto simp: parse_size_def LONG_MAX_def)

text \<open>What \<open>genrec print-both\<close> writes: the size modulo $2^{32}$, and all the text.\<close>

lemma print_both_ok:
  assumes "n < 2 ^ 63" and "memory t (n + 1)"
  shows "print_both e (of_nat n) t = Inr ((), t\<lparr>stdout := stdout t @ be_bytes (of_nat n) @ lorem n\<rparr>)"
proof -
  have "unat (of_nat (n + 1) :: u64) = n + 1"
    using assms(1) by (simp only: unat_of_nat) simp
  moreover have "of_nat (n + 1) = (of_nat n + 1 :: u64)" by simp
  ultimately have n1: "unat (of_nat n + 1 :: u64) = n + 1" by (simp only:)
  have n: "unat (of_nat n :: u64) = n" using assms(1) by (simp add: unat_of_nat)
  have "ucast (of_nat n :: u64) = (of_nat n :: u32)"
    using assms(1) by (simp add: unsigned_of_nat take_bit_nat_eq_self)
  with n n1 assms(2) show ?thesis
    by (simp add: print_both_def print_size_def print_data_def put_bytes_def lorem_new_ok takeWhile_lorem
        musl.store_htonl)
qed

lemma genrec_both:
  assumes "n < 2 ^ 63" and "memory t (n + 1)"
  shows "genrec_main e [prog, ''print-both'', decimal n] t =
    Inr (0, t\<lparr>stdout := stdout t @ be_bytes (of_nat n) @ lorem n\<rparr>)"
  using print_both_ok [OF assms] parse_size_decimal [OF assms(1)] by (simp add: genrec_main_def)

section \<open>Reading records\<close>

lemma record_line_splice:
  "length p \<le> length msg \<Longrightarrow> record_line (length p) (splice 0 p msg) = record_line (length p) p"
  by (simp add: record_line_def splice_def print_prec_def)

lemma disrec_step:
  assumes "length p \<le> length msg" and "length p < 2 ^ 32"
  shows "disrec_loop e msg out (frame p @ rest) =
    disrec_loop e (splice 0 p msg) (out @ record_line (length p) p) rest"
proof -
  have "unat (musl_ntohl e (load32 e (be_bytes (of_nat (length p))))) = length p"
    using assms(2) by (simp add: musl.unat_ntohl_load unat_of_nat)
  with assms(1) show ?thesis
    by (subst disrec_loop.simps) (simp add: frame_def record_line_splice Let_def)
qed

lemma disrec_frames_rest:
  assumes "\<forall>p \<in> set ps. length p \<le> length msg" and "length msg < 2 ^ 32"
  shows "\<exists>msg'. length msg' = length msg \<and> disrec_loop e msg out (frames ps @ rest) =
    disrec_loop e msg' (out @ concat (map (\<lambda>p. record_line (length p) p) ps)) rest"
  using assms
proof (induction ps arbitrary: msg out)
  case Nil
  then show ?case by auto
next
  case (Cons p ps)
  have "\<exists>msg'. length msg' = length (splice 0 p msg) \<and>
      disrec_loop e (splice 0 p msg) (out @ record_line (length p) p) (frames ps @ rest) =
      disrec_loop e msg' ((out @ record_line (length p) p) @ concat (map (\<lambda>p. record_line (length p) p) ps)) rest"
    using Cons.prems by (intro Cons.IH) simp_all
  with Cons.prems disrec_step [of p msg e out "frames ps @ rest"] show ?case by simp
qed

text \<open>Any file is records that fit, followed by less than a head or by a record that does not.\<close>

lemma split_records:
  "\<exists>ps rest. fp = frames ps @ rest \<and> (\<forall>p \<in> set ps. length p \<le> MAXSIZE) \<and>
     (length rest < 4 \<or> min MAXSIZE (length rest - 4) < be_value (take 4 rest))"
proof (induction fp rule: length_induct)
  case (1 fp)
  let ?n = "be_value (take 4 fp)"
  show ?case
  proof (cases "length fp < 4 \<or> min MAXSIZE (length fp - 4) < ?n")
    case True
    then show ?thesis by (intro exI [of _ "[]"] exI [of _ fp]) simp
  next
    case False
    let ?p = "take ?n (drop 4 fp)" and ?rest = "drop ?n (drop 4 fp)"
    have len: "length ?p = ?n" "?n \<le> MAXSIZE" using False by auto
    have "be_bytes (of_nat (length ?p)) = take 4 fp"
      using False len(1) be_bytes_of_value [of "take 4 fp"] by simp
    then have fp: "fp = frame ?p @ ?rest"
      using append_take_drop_id [of 4 fp] append_take_drop_id [of ?n "drop 4 fp"]
      by (metis append.assoc frame_def)
    have "length ?rest < length fp" using fp by (metis frame_not_Nil length_append length_greater_0_conv less_add_same_cancel2)
    with 1 obtain ps rest where "?rest = frames ps @ rest" "\<forall>p \<in> set ps. length p \<le> MAXSIZE"
      "length rest < 4 \<or> min MAXSIZE (length rest - 4) < be_value (take 4 rest)" by blast
    with fp len show ?thesis
      by (intro exI [of _ "?p # ps"] exI [of _ rest]) auto
  qed
qed

section \<open>Properties\<close>

text \<open>C16: \<open>disrec\<close> ends on every file. It prints one line for each record, in order; the file is accepted
  when nothing or less than a head is left. At the first record that is longer than the 1024 bytes of
  \<open>msg\<close>, or than the file, it writes past \<open>msg\<close> if more than that is there, and otherwise reports the
  failed read.\<close>

theorem disrec_decides:
  "\<exists>ps rest. fp = frames ps @ rest \<and> (\<forall>p \<in> set ps. length p \<le> MAXSIZE) \<and>
     (length rest < 4 \<or> min MAXSIZE (length rest - 4) < be_value (take 4 rest)) \<and>
     disrec_main e (\<lambda>f. if f = file then Some fp else None) [prog, file] =
       (if length rest < 4 then Inr (concat (map (\<lambda>p. record_line (length p) p) ps))
        else if MAXSIZE < min (be_value (take 4 rest)) (length rest - 4) then Inl Out_Of_Bounds
        else Inl (Exited 1 (fatal_text ''fread'')))"
proof -
  obtain ps rest where fp: "fp = frames ps @ rest" and ps: "\<forall>p \<in> set ps. length p \<le> MAXSIZE"
    and rest: "length rest < 4 \<or> min MAXSIZE (length rest - 4) < be_value (take 4 rest)"
    using split_records [of fp] by blast
  let ?out = "concat (map (\<lambda>p. record_line (length p) p) ps)"
  obtain msg where msg: "length msg = MAXSIZE" and
    run: "disrec_loop e (replicate MAXSIZE 0) [] fp = disrec_loop e msg ?out rest"
    using disrec_frames_rest [of ps "replicate MAXSIZE 0" e "[]" rest] ps fp by (auto simp: MAXSIZE_def)
  have "unat (musl_ntohl e (load32 e (take 4 rest))) = be_value (take 4 rest)" if "\<not> length rest < 4"
    using that by (simp add: musl.unat_ntohl_load)
  with rest msg have "disrec_loop e msg ?out rest =
       (if length rest < 4 then Inr ?out
        else if MAXSIZE < min (be_value (take 4 rest)) (length rest - 4) then Inl Out_Of_Bounds
        else Inl (Exited 1 (fatal_text ''fread'')))"
    by (subst disrec_loop.simps) (auto simp: Let_def min_def split: if_splits)
  with fp ps rest run show ?thesis
    by (intro exI [of _ ps] exI [of _ rest]) (simp add: disrec_main_def)
qed

theorem disrec_decides_witness:
  "\<exists>ps rest. ([0, 0, 0, 1, 65, 0, 0] :: bytes) = frames ps @ rest \<and>
     disrec_main Little (\<lambda>f. if f = ''f'' then Some [0, 0, 0, 1, 65, 0, 0] else None) [''disrec'', ''f''] =
       (if length rest < 4 then Inr (concat (map (\<lambda>p. record_line (length p) p) ps))
        else if MAXSIZE < min (be_value (take 4 rest)) (length rest - 4) then Inl Out_Of_Bounds
        else Inl (Exited 1 (fatal_text ''fread'')))"
  using disrec_decides [of "[0, 0, 0, 1, 65, 0, 0]" Little "''f''" "''disrec''"] by blast



text \<open>
  Beyond 32 bits the head is the size modulo $2^{32}$ and the text is longer than it says, so what
  is written is not a record.
\<close>

lemma genrec_wraps:
  assumes "memory t (2 ^ 32 + 1)"
  shows "genrec_main e [''genrec'', ''print-both'', decimal (2 ^ 32)] t =
    Inr (0, t\<lparr>stdout := stdout t @ [0, 0, 0, 0] @ lorem (2 ^ 32)\<rparr>)"
  using genrec_both [of "2 ^ 32" t] assms by (simp add: be_bytes_def byte_of_def)

end
