(* ===== verification/Test_Loop.thy ===== *)
theory Test_Loop
  imports Send Footprint Records
begin

text \<open>
  What \<open>test/client.c\<close> and \<open>test/server.c\<close> have in common: a structure that begins with
  \<open>struct sc_backend_uv_data\<close> and has four libuv handles of its own (one to wake the loop up, two for
  signals, one called when the loop is idle), and the functions that set them up. libuv's functions on
  these handles are parameters, as in theory \<open>World\<close>.
\<close>

section \<open>Handles of a program\<close>

text \<open>
  The handles embedded in the structure at an address: the stream of a \<open>struct socket_uv\<close>, and those
  of the program's own structure.
\<close>

datatype handle = Stream addr | Async addr | Sigterm addr | Sigint addr | Idle addr

record 'u loop_env =
  uv_async_init :: "addr \<Rightarrow> handle \<Rightarrow> fn \<Rightarrow> 'u \<Rightarrow> int \<times> 'u"
  uv_async_send :: "handle \<Rightarrow> 'u \<Rightarrow> int \<times> 'u"
  uv_signal_init :: "addr \<Rightarrow> handle \<Rightarrow> 'u \<Rightarrow> int \<times> 'u"
  uv_signal_start :: "handle \<Rightarrow> fn \<Rightarrow> int \<Rightarrow> 'u \<Rightarrow> int \<times> 'u"
  uv_idle_init :: "addr \<Rightarrow> handle \<Rightarrow> 'u \<Rightarrow> int \<times> 'u"
  uv_idle_start :: "handle \<Rightarrow> fn \<Rightarrow> 'u \<Rightarrow> int \<times> 'u"
  uv_close_handle :: "handle \<Rightarrow> 'u \<Rightarrow> 'u"
  uv_loop_close :: "addr \<Rightarrow> 'u \<Rightarrow> int \<times> 'u"

text \<open>
  The block of the program's structure holds its first member, so it is a \<open>Uv_data\<close> block; the other
  members are the state \<open>app\<close> of the application. The first of them are the \<open>data\<close> members of the
  handles. A pointer to a member of the structure is the address of the structure.
\<close>

record loop_app =
  handle_data :: "handle \<Rightarrow> addr option"

definition set_data :: "handle \<Rightarrow> addr \<Rightarrow> (('u, 'b loop_app_scheme) world, unit) prog" where
  "set_data h p = upd (\<lambda>w. w\<lparr>app := (app w)\<lparr>handle_data := (handle_data (app w))(h := Some p)\<rparr>\<rparr>)"

text \<open>Access to the structure through a pointer: the block must be there.\<close>

definition via_struct ::
    "addr option \<Rightarrow> (addr \<Rightarrow> (('u, 'a) world, 'x) prog) \<Rightarrow> (('u, 'a) world, 'x) prog" where
  "via_struct p k = bnd (deref p) (\<lambda>a. seq (load_uv_data a) (k a))"

definition via_handle ::
    "handle \<Rightarrow> (addr \<Rightarrow> (('u, 'b loop_app_scheme) world, 'x) prog) \<Rightarrow>
     (('u, 'b loop_app_scheme) world, 'x) prog" where
  "via_handle h k = bnd (gets (\<lambda>w. handle_data (app w) h)) (\<lambda>p. via_struct p k)"

text \<open>\<open>if (f(...)) fatal("f")\<close>\<close>

definition must :: "string \<Rightarrow> (('u, 'a) world, int) prog \<Rightarrow> (('u, 'a) world, unit) prog" where
  "must name m = bnd m (\<lambda>e. if e \<noteq> 0 then fatal name else ret ())"

definition close_handle :: "'u loop_env \<Rightarrow> handle \<Rightarrow> (('u, 'a) world, unit) prog" where
  "close_handle L h = uv_call (\<lambda>u. ((), uv_close_handle L h u))"

section \<open>Functions the two programs share\<close>

definition SIGINT :: int where "SIGINT = 2"
definition SIGTERM :: int where "SIGTERM = 15"

definition close_socket :: "('u, 'a) env \<Rightarrow> addr option \<Rightarrow> (('u, 'a) world, unit) prog" where
  "close_socket E p = bnd (deref p) (\<lambda>s. must ''sc_socket_close'' (sc_socket_close E s))"

definition async_init :: "'u loop_env \<Rightarrow> addr \<Rightarrow> (('u, 'b loop_app_scheme) world, unit) prog" where
  "async_init L self =
     bnd (load_uv_data self) (\<lambda>lp.
     seq (must ''uv_async_init'' (uv_call (uv_async_init L lp (Async self) ''async_cb'')))
     (set_data (Async self) self))"

definition signal_init ::
    "'u loop_env \<Rightarrow> addr \<Rightarrow> handle \<Rightarrow> fn \<Rightarrow> int \<Rightarrow> (('u, 'b loop_app_scheme) world, unit) prog" where
  "signal_init L self h cb signum =
     bnd (load_uv_data self) (\<lambda>lp.
     seq (must ''uv_signal_init'' (uv_call (uv_signal_init L lp h)))
     (seq (must ''uv_signal_start'' (uv_call (uv_signal_start L h cb signum)))
     (set_data h self)))"

definition idle_init :: "'u loop_env \<Rightarrow> addr \<Rightarrow> (('u, 'b loop_app_scheme) world, unit) prog" where
  "idle_init L self =
     bnd (load_uv_data self) (\<lambda>lp.
     seq (must ''uv_idle_init'' (uv_call (uv_idle_init L lp (Idle self))))
     (seq (must ''uv_idle_start'' (uv_call (uv_idle_start L (Idle self) ''idle_cb'')))
     (set_data (Idle self) self)))"

text \<open>The four of them, as both programs begin their initialisation.\<close>

definition handles_init :: "'u loop_env \<Rightarrow> addr \<Rightarrow> (('u, 'b loop_app_scheme) world, unit) prog" where
  "handles_init L self =
     seq (async_init L self)
     (seq (signal_init L self (Sigterm self) ''signal_cb'' SIGTERM)
     (seq (signal_init L self (Sigint self) ''signal_cb'' SIGINT)
     (idle_init L self)))"

text \<open>\<open>sc_socket_new\<close>, or the end of the program.\<close>

definition socket_or_fatal :: "('u, 'a) env \<Rightarrow> (('u, 'a) world, addr) prog" where
  "socket_or_fatal E =
     bnd (sc_socket_new E) (\<lambda>p. case p of None \<Rightarrow> fatal ''sc_socket_new'' | Some s \<Rightarrow> ret s)"

text \<open>The end of \<open>main\<close>: \<open>res\<close> is what \<open>uv_run\<close> returned.\<close>

definition loop_end :: "'u loop_env \<Rightarrow> addr \<Rightarrow> int \<Rightarrow> (('u, 'a) world, unit) prog" where
  "loop_end L self res =
     seq (must ''uv_run'' (ret res))
     (bnd (load_uv_data self) (\<lambda>lp. must ''uv_loop_close'' (uv_call (uv_loop_close L lp))))"

text \<open>
  \<open>%.*s\<close> with the precision \<open>(int)size\<close> on an array: a negative precision counts as none, and no byte
  may be read past the array.
\<close>

definition format_prec :: "u32 \<Rightarrow> bytes \<Rightarrow> ('w, bytes) prog" where
  "format_prec n str =
     (let text = takeWhile (\<lambda>b. b \<noteq> 0) str in
      if (sint n < 0 \<or> length str < unat n) \<and> text = str then fail Out_Of_Bounds
      else ret (if sint n < 0 then text else print_prec (unat n) str))"

section \<open>What the loop calls\<close>

text \<open>The backend structure of a socket, whose handle libuv reports on.\<close>

definition via_socket ::
    "addr option \<Rightarrow> (addr \<Rightarrow> (('u, 'a) world, 'x) prog) \<Rightarrow> (('u, 'a) world, 'x) prog" where
  "via_socket p k = bnd (deref p) (\<lambda>s. bnd (load_sock s) (\<lambda>so. bnd (deref (sock_backend so)) k))"

section \<open>What they do\<close>

lemma sint_small:
  assumes "unat (n :: u32) < 2 ^ 31"
  shows "0 \<le> sint n"
proof -
  have "sint (of_nat k :: u32) = int k" if "k < 2 ^ 31" for k
    using that by (simp add: signed_of_nat signed_take_bit_int_eq_self)
  from this [OF assms] show ?thesis by simp
qed

lemma format_prec_ok:
  assumes "unat n \<le> length str" and "unat n < 2 ^ 31"
  shows "format_prec n str w = Inr (print_prec (unat n) str, w)"
  using sint_small [OF assms(2)] assms(1) by (simp add: format_prec_def Let_def)

lemma rx_rel_le: "rx_rel s b f cap H w st \<Longrightarrow> map_le H (heap w)"
  by (auto simp: rx_rel_def rx_idle_def rx_busy_def rx_base_def map_le_def)

text \<open>What may arrive on a connection that carries the messages \<open>ps\<close>.\<close>

definition carries :: "nat \<Rightarrow> bytes list \<Rightarrow> bytes list \<Rightarrow> bool" where
  "carries cap bss ps \<longleftrightarrow> concat bss = frames ps \<and> rx_chunks cap bss ([], []) \<and> heads_safe bss ([], []) \<and>
     (\<forall>p \<in> set ps. length p < 2 ^ 32)"

lemma must_simps [simp]:
  "m w = Inr (0, w') \<Longrightarrow> must name m w = Inr ((), w')"
  "m w = Inr (e, w') \<Longrightarrow> e \<noteq> 0 \<Longrightarrow> must name m w = Inl (Exited 1 (fatal_text name))"
  "m w = Inl f \<Longrightarrow> must name m w = Inl f"
  by (simp_all add: must_def)

lemma via_struct_simp [simp]:
  "heap w a = Some (Uv_data lp) \<Longrightarrow> via_struct (Some a) k w = k a w"
  by (simp add: via_struct_def)

lemma via_handle_simp [simp]:
  "handle_data (app w) h = Some a \<Longrightarrow> heap w a = Some (Uv_data lp) \<Longrightarrow> via_handle h k w = k a w"
  by (simp add: via_handle_def)

lemma via_socket_simp [simp]:
  "heap w s = Some (Sock so) \<Longrightarrow> sock_backend so = Some b \<Longrightarrow> via_socket (Some s) k w = k b w"
  by (simp add: via_socket_def)

lemma set_data_apply [simp]:
  "set_data h p w = Inr ((), w\<lparr>app := (app w)\<lparr>handle_data := (handle_data (app w))(h := Some p)\<rparr>\<rparr>)"
  by (simp add: set_data_def)

lemma close_handle_apply [simp]: "close_handle L h w = Inr ((), w\<lparr>uv := uv_close_handle L h (uv w)\<rparr>)"
  by (simp add: close_handle_def)

text \<open>Closing a socket that has an address, and one that has none.\<close>

lemma sc_close_addressed:
  assumes "heap w s = Some (Sock so)" and "sock_backend so = Some b" and "heap w b = Some (Buv bu)"
    and "backend w = Some Buv_funcs" and "sock_uri so = Some u" and "heap w u = Some (Uri r)"
    and "uri_str r = Some sa" and "heap w sa = Some (Str str)"
  shows "sc_socket_close E s w =
    Inr (0, w\<lparr>uv := uv_close E b (uv w),
      heap := (heap w)(sa := None, u := None, s \<mapsto> Sock (so\<lparr>sock_uri := None\<rparr>))\<rparr>)"
proof -
  have ne: "u \<noteq> s" "sa \<noteq> s" "sa \<noteq> u" using assms by auto
  let ?w1 = "w\<lparr>uv := uv_close E b (uv w)\<rparr>"
  have "sc_uri_del u ?w1 = Inr ((), ?w1\<lparr>heap := (heap w)(sa := None, u := None)\<rparr>)"
    using sc_uri_del_ok [of ?w1 u r sa] assms ne by simp
  then show ?thesis
    using assms ne by (simp add: sc_socket_close_def buv_close_def)
qed

lemma sc_close_bare:
  assumes "heap w s = Some (Sock so)" and "sock_backend so = Some b" and "heap w b = Some (Buv bu)"
    and "backend w = Some Buv_funcs" and "sock_uri so = None"
  shows "sc_socket_close E s w = Inr (0, w\<lparr>uv := uv_close E b (uv w)\<rparr>)"
  using assms by (simp add: sc_socket_close_def buv_close_def)

lemma close_socket_addressed:
  assumes "heap w s = Some (Sock so)" and "sock_backend so = Some b" and "heap w b = Some (Buv bu)"
    and "backend w = Some Buv_funcs" and "sock_uri so = Some u" and "heap w u = Some (Uri r)"
    and "uri_str r = Some sa" and "heap w sa = Some (Str str)"
  shows "close_socket E (Some s) w =
    Inr ((), w\<lparr>uv := uv_close E b (uv w),
      heap := (heap w)(sa := None, u := None, s \<mapsto> Sock (so\<lparr>sock_uri := None\<rparr>))\<rparr>)"
  using sc_close_addressed [OF assms] by (simp add: close_socket_def)

lemma socket_del_bare:
  assumes "heap w s = Some (Sock so)" and "sock_backend so = Some b" and "heap w b = Some (Buv bu)"
    and "backend w = Some Buv_funcs" and "sock_uri so = None"
  shows "sc_socket_del E s w = Inr ((), w\<lparr>heap := (heap w)(b := None, s := None)\<rparr>)"
proof -
  have "s \<noteq> b" using assms by auto
  with assms show ?thesis by (simp add: sc_socket_del_def buv_free_def)
qed

section \<open>libuv as the log of what it was asked\<close>

text \<open>
  What a program may rely on depends on what it asked for before, so here libuv's state is the list of
  the calls made to it, in order; \<open>Closed\<close> is added by the loop when it has finished closing a handle
  and is about to call the close callback.
\<close>

datatype uv_op =
    Init handle
  | Start handle
  | Connect handle
  | Bind handle
  | Listen handle
  | Accept handle handle
  | Read_start handle
  | Write handle "uv_buf list"
  | Send handle
  | Close handle
  | Closed handle

type_synonym uv_log = "uv_op list"

text \<open>
  A handle is absent until it is initialised, open until it is closed, and absent again once the loop
  has closed it.
\<close>

datatype hstate = Absent | Open | Closing

fun hstep :: "uv_op \<Rightarrow> (handle \<Rightarrow> hstate) \<Rightarrow> (handle \<Rightarrow> hstate)" where
  "hstep (Init h) st = st(h := Open)"
| "hstep (Close h) st = st(h := Closing)"
| "hstep (Closed h) st = st(h := Absent)"
| "hstep _ st = st"

definition status :: "uv_log \<Rightarrow> handle \<Rightarrow> hstate" where
  "status u = fold hstep u (\<lambda>_. Absent)"

text \<open>The calls that libuv allows on a handle in a given state, and logs in which all are.\<close>

fun legal :: "(handle \<Rightarrow> hstate) \<Rightarrow> uv_op \<Rightarrow> bool" where
  "legal st (Init h) = (st h = Absent)"
| "legal st (Closed h) = (st h = Closing)"
| "legal st (Accept h h') = (st h = Open \<and> st h' = Open)"
| "legal st (Start h) = (st h = Open)"
| "legal st (Connect h) = (st h = Open)"
| "legal st (Bind h) = (st h = Open)"
| "legal st (Listen h) = (st h = Open)"
| "legal st (Read_start h) = (st h = Open)"
| "legal st (Write h bufs) = (st h = Open)"
| "legal st (Send h) = (st h = Open)"
| "legal st (Close h) = (st h = Open)"

fun legals :: "(handle \<Rightarrow> hstate) \<Rightarrow> uv_log \<Rightarrow> bool" where
  "legals st [] = True"
| "legals st (x # u) = (legal st x \<and> legals (hstep x st) u)"

definition well_used :: "uv_log \<Rightarrow> bool" where
  "well_used u = legals (\<lambda>_. Absent) u"

lemma status_Nil [simp]: "status [] = (\<lambda>_. Absent)"
  by (simp add: status_def)

lemma status_append [simp]: "status (u @ v) = fold hstep v (status u)"
  by (simp add: status_def)

lemma legals_append: "legals st (u @ v) \<longleftrightarrow> legals st u \<and> legals (fold hstep u st) v"
  by (induction u arbitrary: st) simp_all

lemma well_used_Nil [simp]: "well_used []"
  by (simp add: well_used_def)

lemma well_used_append [simp]: "well_used (u @ v) \<longleftrightarrow> well_used u \<and> legals (status u) v"
  by (simp add: well_used_def status_def legals_append)

text \<open>The library's and the programs' functions of libuv keep that log, whatever status they return.\<close>

definition uv_logs :: "(uv_log, 'a) env \<Rightarrow> bool" where
  "uv_logs E \<longleftrightarrow>
     (\<forall>lp b i u. snd (uv_pipe_init E lp b i u) = u @ [Init (Stream b)]) \<and>
     (\<forall>lp b u. snd (uv_tcp_init E lp b u) = u @ [Init (Stream b)]) \<and>
     (\<forall>b path u. uv_pipe_connect E b path u = u @ [Connect (Stream b)]) \<and>
     (\<forall>b sa u. snd (uv_tcp_connect E b sa u) = u @ [Connect (Stream b)]) \<and>
     (\<forall>b path u. snd (uv_pipe_bind E b path u) = u @ [Bind (Stream b)]) \<and>
     (\<forall>b sa n u. snd (uv_tcp_bind E b sa n u) = u @ [Bind (Stream b)]) \<and>
     (\<forall>b n u. snd (uv_listen E b n u) = u @ [Listen (Stream b)]) \<and>
     (\<forall>b c u. snd (uv_accept E b c u) = u @ [Accept (Stream b) (Stream c)]) \<and>
     (\<forall>b u. snd (uv_read_start E b u) = u @ [Read_start (Stream b)]) \<and>
     (\<forall>b bufs u. snd (uv_write E b bufs u) = u @ [Write (Stream b) bufs]) \<and>
     (\<forall>b u. uv_close E b u = u @ [Close (Stream b)])"

lemma uv_logsD [simp]:
  assumes "uv_logs E"
  shows "snd (uv_pipe_init E lp b i u) = u @ [Init (Stream b)]"
    "snd (uv_tcp_init E lp b u) = u @ [Init (Stream b)]"
    "uv_pipe_connect E b path u = u @ [Connect (Stream b)]"
    "snd (uv_tcp_connect E b sa u) = u @ [Connect (Stream b)]"
    "snd (uv_pipe_bind E b path u) = u @ [Bind (Stream b)]"
    "snd (uv_tcp_bind E b sa fl u) = u @ [Bind (Stream b)]"
    "snd (uv_listen E b n u) = u @ [Listen (Stream b)]"
    "snd (uv_accept E b c u) = u @ [Accept (Stream b) (Stream c)]"
    "snd (uv_read_start E b u) = u @ [Read_start (Stream b)]"
    "snd (uv_write E b bufs u) = u @ [Write (Stream b) bufs]"
    "uv_close E b u = u @ [Close (Stream b)]"
  using assms by (simp_all add: uv_logs_def)

definition loop_logs :: "uv_log loop_env \<Rightarrow> bool" where
  "loop_logs L \<longleftrightarrow>
     (\<forall>lp h cb u. snd (uv_async_init L lp h cb u) = u @ [Init h]) \<and>
     (\<forall>h u. snd (uv_async_send L h u) = u @ [Send h]) \<and>
     (\<forall>lp h u. snd (uv_signal_init L lp h u) = u @ [Init h]) \<and>
     (\<forall>h cb n u. snd (uv_signal_start L h cb n u) = u @ [Start h]) \<and>
     (\<forall>lp h u. snd (uv_idle_init L lp h u) = u @ [Init h]) \<and>
     (\<forall>h cb u. snd (uv_idle_start L h cb u) = u @ [Start h]) \<and>
     (\<forall>h u. uv_close_handle L h u = u @ [Close h]) \<and> (\<forall>lp u. snd (uv_loop_close L lp u) = u)"

lemma loop_logsD [simp]:
  assumes "loop_logs L"
  shows "snd (uv_async_init L lp h cb u) = u @ [Init h]" "snd (uv_async_send L h u) = u @ [Send h]"
    "snd (uv_signal_init L lp h u) = u @ [Init h]" "snd (uv_signal_start L h cb n u) = u @ [Start h]"
    "snd (uv_idle_init L lp h u) = u @ [Init h]" "snd (uv_idle_start L h cb u) = u @ [Start h]"
    "uv_close_handle L h u = u @ [Close h]" "snd (uv_loop_close L lp u) = u"
  using assms by (simp_all add: loop_logs_def)

text \<open>
  libuv grants what it is asked on handles in the right state; in particular the loop can be closed
  once no handle is left.
\<close>

definition bind_grants :: "('u, 'a) env \<Rightarrow> bool" where
  "bind_grants E \<longleftrightarrow>
     (\<forall>lp b i u. fst (uv_pipe_init E lp b i u) = 0) \<and> (\<forall>lp b u. fst (uv_tcp_init E lp b u) = 0) \<and>
     (\<forall>ip n. dotted_quad ip \<longrightarrow> fst (uv_ip4_addr E ip n) = 0) \<and>
     (\<forall>b path u. fst (uv_pipe_bind E b path u) = 0) \<and> (\<forall>b sa n u. fst (uv_tcp_bind E b sa n u) = 0)"

lemma bind_grantsD [simp]:
  assumes "bind_grants E"
  shows "fst (uv_pipe_init E lp b i u) = 0" "fst (uv_tcp_init E lp b u) = 0"
    "dotted_quad ip \<Longrightarrow> fst (uv_ip4_addr E ip port) = 0"
    "fst (uv_pipe_bind E b path u) = 0" "fst (uv_tcp_bind E b sa fl u) = 0"
  using assms by (simp_all add: bind_grants_def)

definition uv_grants :: "('u, 'a) env \<Rightarrow> bool" where
  "uv_grants E \<longleftrightarrow>
     bind_grants E \<and> (\<forall>b sa u. fst (uv_tcp_connect E b sa u) = 0) \<and>
     (\<forall>b n u. fst (uv_listen E b n u) = 0) \<and> (\<forall>b c u. fst (uv_accept E b c u) = 0) \<and>
     (\<forall>b u. fst (uv_read_start E b u) = 0) \<and> (\<forall>b bufs u. fst (uv_write E b bufs u) = 0)"

lemma uv_grantsD [simp]:
  assumes "uv_grants E"
  shows "bind_grants E" "fst (uv_pipe_init E lp b i u) = 0" "fst (uv_tcp_init E lp b u) = 0"
    "dotted_quad ip \<Longrightarrow> fst (uv_ip4_addr E ip port) = 0" "fst (uv_tcp_connect E b sa u) = 0"
    "fst (uv_listen E b n u) = 0" "fst (uv_accept E b c u) = 0" "fst (uv_read_start E b u) = 0"
    "fst (uv_write E b bufs u) = 0"
  using assms by (simp_all add: uv_grants_def)

definition loop_grants :: "uv_log loop_env \<Rightarrow> bool" where
  "loop_grants L \<longleftrightarrow>
     (\<forall>lp h cb u. fst (uv_async_init L lp h cb u) = 0) \<and> (\<forall>h u. fst (uv_async_send L h u) = 0) \<and>
     (\<forall>lp h u. fst (uv_signal_init L lp h u) = 0) \<and>
     (\<forall>h cb n u. fst (uv_signal_start L h cb n u) = 0) \<and>
     (\<forall>lp h u. fst (uv_idle_init L lp h u) = 0) \<and> (\<forall>h cb u. fst (uv_idle_start L h cb u) = 0) \<and>
     (\<forall>lp u. (\<forall>h. status u h = Absent) \<longrightarrow> fst (uv_loop_close L lp u) = 0)"

lemma loop_grantsD [simp]:
  assumes "loop_grants L"
  shows "fst (uv_async_init L lp h cb u) = 0" "fst (uv_async_send L h u) = 0"
    "fst (uv_signal_init L lp h u) = 0" "fst (uv_signal_start L h cb n u) = 0"
    "fst (uv_idle_init L lp h u) = 0" "fst (uv_idle_start L h cb u) = 0"
    "(\<And>h. status u h = Absent) \<Longrightarrow> fst (uv_loop_close L lp u) = 0"
  using assms by (simp_all add: loop_grants_def)

text \<open>The loop has closed a handle; for a stream it then calls the library's callback.\<close>

definition closed :: "handle \<Rightarrow> ((uv_log, 'a) world, unit) prog" where
  "closed h = upd (\<lambda>w. w\<lparr>uv := uv w @ [Closed h]\<rparr>)"

definition stream_closed :: "(uv_log, 'a) env \<Rightarrow> addr \<Rightarrow> ((uv_log, 'a) world, unit) prog" where
  "stream_closed E b = seq (closed (Stream b)) (close_wrap E b)"

lemma closed_apply [simp]: "closed h w = Inr ((), w\<lparr>uv := uv w @ [Closed h]\<rparr>)"
  by (simp add: closed_def)

definition own_handles :: "addr \<Rightarrow> (handle \<Rightarrow> addr option) \<Rightarrow> (handle \<Rightarrow> addr option)" where
  "own_handles self d =
     d(Async self := Some self, Sigterm self := Some self, Sigint self := Some self, Idle self := Some self)"

lemma own_handles_simps [simp]:
  "own_handles self d (Async self) = Some self" "own_handles self d (Sigterm self) = Some self"
  "own_handles self d (Sigint self) = Some self" "own_handles self d (Idle self) = Some self"
  by (simp_all add: own_handles_def)

definition handle_inits :: "addr \<Rightarrow> uv_log" where
  "handle_inits self =
     [Init (Async self), Init (Sigterm self), Start (Sigterm self), Init (Sigint self), Start (Sigint self),
      Init (Idle self), Start (Idle self)]"

lemma handles_init_ok:
  assumes "loop_grants L" and "loop_logs L" and "heap w self = Some (Uv_data lp)"
  shows "handles_init L self w =
    Inr ((), w\<lparr>uv := uv w @ handle_inits self,
      app := (app w)\<lparr>handle_data := own_handles self (handle_data (app w))\<rparr>\<rparr>)"
  using assms
  by (simp add: handles_init_def async_init_def signal_init_def idle_init_def own_handles_def handle_inits_def)

section \<open>Addresses, where libuv grants what it is asked\<close>

lemma check_ip4_accepts: "check_ip4 p = Inr True \<Longrightarrow> dotted_quad (the p)"
  by (cases p) (simp_all add: check_ip4_eq, simp add: check_ip4_def)

lemma uri_parse_quad: "uri_parse E str = Inr (Inr (''tcp'', x, y)) \<Longrightarrow> dotted_quad x"
  by (auto simp: uri_parse_def dest: check_ip4_accepts
      split: prod.splits option.splits if_splits sum.splits)

lemma buv_bind_granted:
  assumes "uv_logs E" and "bind_grants E" and "buv_data w = Some d" and "heap w d = Some (Uv_data lp)"
    and "heap w b = Some (Buv bu)" and "heap w u = Some (Uri (parsed_uri j (Suc u) pr x y))"
    and "uri_parse E str = Inr (Inr (pr, x, y))"
  shows "\<exists>bu'. buv_bind E b u w =
      Inr (0, w\<lparr>heap := (heap w)(b \<mapsto> Buv bu'), uv := uv w @ [Init (Stream b), Bind (Stream b)]\<rparr>) \<and>
    uv_proto bu' \<in> {PROTO_PIPE, PROTO_TCP} \<and> uv_watcher bu' = uv_watcher bu \<and>
    stream_data bu' = stream_data bu \<and> connect_data bu' = connect_data bu \<and>
    write_data bu' = write_data bu"
proof -
  have ne: "u \<noteq> b" "d \<noteq> b" using assms(4-6) by auto
  have "heap (w\<lparr>heap := (heap w)(b \<mapsto> Buv (bu\<lparr>uv_proto := pt\<rparr>))\<rparr>) u = Some (Uri (parsed_uri j (Suc u) pr x y))" for pt
    using assms(6) ne by simp
  note acc = uri_accessors [OF assms(6)] uri_accessors [OF this]
  from uri_parse_shape [OF assms(7)] show ?thesis
  proof
    assume "pr = ''pipe''"
    then show ?thesis
      using assms(1-5) ne acc
      by (auto simp: buv_bind_def bind_pipe_def buv_loop_apply)
  next
    assume tcp: "pr = ''tcp'' \<and> y \<noteq> None"
    then have "dotted_quad x" using uri_parse_quad assms(7) by blast
    with tcp show ?thesis
      using assms(1-5) ne acc
      by (auto simp: buv_bind_def bind_tcp_def buv_loop_apply set_tcp_addr_apply)
  qed
qed

lemma buv_connect_granted:
  assumes "uv_logs E" and "uv_grants E" and "buv_data w = Some d" and "heap w d = Some (Uv_data lp)"
    and "heap w b = Some (Buv bu)" and "heap w u = Some (Uri (parsed_uri j (Suc u) pr x y))"
    and "uri_parse E str = Inr (Inr (pr, x, y))"
  shows "\<exists>bu'. buv_connect E b u w =
      Inr (0, w\<lparr>heap := (heap w)(b \<mapsto> Buv bu'), uv := uv w @ [Init (Stream b), Connect (Stream b)]\<rparr>) \<and>
    uv_watcher bu' = uv_watcher bu \<and> stream_data bu' = stream_data bu \<and>
    connect_data bu' = connect_data bu \<and> write_data bu' = write_data bu"
proof -
  have ne: "d \<noteq> b" using assms(4,5) by auto
  note acc = uri_accessors [OF assms(6)]
  from uri_parse_shape [OF assms(7)] show ?thesis
  proof
    assume "pr = ''pipe''"
    then show ?thesis
      using assms(1-5) ne acc
      by (intro exI [of _ bu]) (auto simp: buv_connect_def connect_pipe_def buv_loop_apply fun_upd_idem)
  next
    assume tcp: "pr = ''tcp'' \<and> y \<noteq> None"
    then have "dotted_quad x" using uri_parse_quad assms(7) by blast
    with tcp show ?thesis
      using assms(1-5) ne acc
      by (auto simp: buv_connect_def connect_tcp_def buv_loop_apply set_tcp_addr_apply)
  qed
qed

lemma socket_bind_granted:
  assumes "uv_logs E" and "bind_grants E" and "strdup_mallocs E" and "uri_parse E str = Inr (Inr (pr, x, y))"
    and "wf_heap w" and "backend w = Some Buv_funcs" and "\<forall>k. malloc_ok w k"
    and "buv_data w = Some d" and "heap w d = Some (Uv_data lp)" and "live s b so bu w"
  shows "\<exists>bu'. sc_socket_bind E s str w = Inr (0,
      w\<lparr>fresh := Suc (Suc (fresh w)),
        heap := (heap w)(s \<mapsto> Sock (so\<lparr>sock_uri := Some (fresh w)\<rparr>), b \<mapsto> Buv bu',
          fresh w \<mapsto> Uri (parsed_uri (junk_uri w) (Suc (fresh w)) pr x y), Suc (fresh w) \<mapsto> Str str),
        uv := uv w @ [Init (Stream b), Bind (Stream b)]\<rparr>) \<and>
    uv_proto bu' \<in> {PROTO_PIPE, PROTO_TCP} \<and> uv_watcher bu' = s \<and>
    stream_data bu' = Some b \<and> connect_data bu' = Some b \<and> write_data bu' = Some b"
proof -
  note l = liveD [OF assms(10)]
  let ?u = "fresh w" let ?r = "parsed_uri (junk_uri w) (Suc (fresh w)) pr x y"
  have ne: "?u \<noteq> s" "Suc ?u \<noteq> s" "?u \<noteq> b" "Suc ?u \<noteq> b" "?u \<noteq> d" "Suc ?u \<noteq> d" "s \<noteq> d"
    using wf_heap_ge [OF assms(5), of ?u] wf_heap_ge [OF assms(5), of "Suc ?u"] l(1,4) assms(9) by auto
  let ?w1 = "w\<lparr>fresh := Suc (Suc ?u),
      heap := (heap w)(?u \<mapsto> Uri ?r, Suc ?u \<mapsto> Str str, s \<mapsto> Sock (so\<lparr>sock_uri := Some ?u\<rparr>))\<rparr>"
  have call: "sc_socket_bind E s str w = buv_bind E b ?u ?w1"
    using sc_uri_new_ok [OF assms(3,5) _ _ assms(4)] assms(6,7) l ne by (simp add: sc_socket_bind_def)
  obtain bu' where run: "buv_bind E b ?u ?w1 =
      Inr (0, ?w1\<lparr>heap := (heap ?w1)(b \<mapsto> Buv bu'), uv := uv ?w1 @ [Init (Stream b), Bind (Stream b)]\<rparr>)"
    and bu': "uv_proto bu' \<in> {PROTO_PIPE, PROTO_TCP}" "uv_watcher bu' = s" "stream_data bu' = Some b"
      "connect_data bu' = Some b" "write_data bu' = Some b"
    using buv_bind_granted [OF assms(1,2) _ _ _ _ assms(4), of ?w1 d lp b bu ?u "junk_uri w"] assms(8,9) l ne
    by auto
  have "(heap ?w1)(b \<mapsto> Buv bu') = (heap w)(s \<mapsto> Sock (so\<lparr>sock_uri := Some ?u\<rparr>), b \<mapsto> Buv bu',
      ?u \<mapsto> Uri ?r, Suc ?u \<mapsto> Str str)"
    using ne l(9) by (auto simp: fun_eq_iff)
  with call run bu' show ?thesis
    by (intro exI [of _ bu']) simp
qed

lemma socket_connect_granted:
  assumes "uv_logs E" and "uv_grants E" and "strdup_mallocs E" and "uri_parse E str = Inr (Inr (pr, x, y))"
    and "wf_heap w" and "backend w = Some Buv_funcs" and "\<forall>k. malloc_ok w k"
    and "buv_data w = Some d" and "heap w d = Some (Uv_data lp)" and "live s b so bu w"
  shows "\<exists>bu'. sc_socket_connect E s str w = Inr (0,
      w\<lparr>fresh := Suc (Suc (fresh w)),
        heap := (heap w)(s \<mapsto> Sock (so\<lparr>sock_uri := Some (fresh w)\<rparr>), b \<mapsto> Buv bu',
          fresh w \<mapsto> Uri (parsed_uri (junk_uri w) (Suc (fresh w)) pr x y), Suc (fresh w) \<mapsto> Str str),
        uv := uv w @ [Init (Stream b), Connect (Stream b)]\<rparr>) \<and>
    uv_watcher bu' = s \<and>
    stream_data bu' = Some b \<and> connect_data bu' = Some b \<and> write_data bu' = Some b"
proof -
  note l = liveD [OF assms(10)]
  let ?u = "fresh w" let ?r = "parsed_uri (junk_uri w) (Suc (fresh w)) pr x y"
  have ne: "?u \<noteq> s" "Suc ?u \<noteq> s" "?u \<noteq> b" "Suc ?u \<noteq> b" "?u \<noteq> d" "Suc ?u \<noteq> d" "s \<noteq> d"
    using wf_heap_ge [OF assms(5), of ?u] wf_heap_ge [OF assms(5), of "Suc ?u"] l(1,4) assms(9) by auto
  let ?w1 = "w\<lparr>fresh := Suc (Suc ?u),
      heap := (heap w)(?u \<mapsto> Uri ?r, Suc ?u \<mapsto> Str str, s \<mapsto> Sock (so\<lparr>sock_uri := Some ?u\<rparr>))\<rparr>"
  have call: "sc_socket_connect E s str w = buv_connect E b ?u ?w1"
    using sc_uri_new_ok [OF assms(3,5) _ _ assms(4)] assms(6,7) l ne by (simp add: sc_socket_connect_def)
  obtain bu' where run: "buv_connect E b ?u ?w1 =
      Inr (0, ?w1\<lparr>heap := (heap ?w1)(b \<mapsto> Buv bu'), uv := uv ?w1 @ [Init (Stream b), Connect (Stream b)]\<rparr>)"
    and bu': "uv_watcher bu' = s" "stream_data bu' = Some b"
      "connect_data bu' = Some b" "write_data bu' = Some b"
    using buv_connect_granted [OF assms(1,2) _ _ _ _ assms(4), of ?w1 d lp b bu ?u "junk_uri w"] assms(8,9) l ne
    by auto
  have "(heap ?w1)(b \<mapsto> Buv bu') = (heap w)(s \<mapsto> Sock (so\<lparr>sock_uri := Some ?u\<rparr>), b \<mapsto> Buv bu',
      ?u \<mapsto> Uri ?r, Suc ?u \<mapsto> Str str)"
    using ne l(9) by (auto simp: fun_eq_iff)
  with call run bu' show ?thesis
    by (intro exI [of _ bu']) simp
qed

text \<open>
  The blocks of a program that serves: its structure, the listening socket \<open>s\<close> with its backend structure
  \<open>b\<close> and its address \<open>u\<close>, the socket \<open>c\<close> of a connection with its backend structure. \<open>H\<close> is the rest of the heap.
\<close>

definition srv_ok ::
    "addr \<Rightarrow> addr \<Rightarrow> addr \<Rightarrow> addr \<Rightarrow> addr \<Rightarrow> addr \<Rightarrow> uri \<Rightarrow> socket_uv \<Rightarrow> (addr \<rightharpoonup> obj) \<Rightarrow> bool" where
  "srv_ok self s b c cb u r bu H \<longleftrightarrow>
     distinct [self, s, b, c, cb, u, Suc u] \<and> (\<forall>a \<in> {self, s, b, c, cb, u, Suc u}. H a = None) \<and>
     uri_str r = Some (Suc u) \<and> uv_watcher bu = s \<and> stream_data bu = Some b \<and>
     connect_data bu = Some b \<and> write_data bu = Some b \<and> uv_proto bu \<in> {PROTO_PIPE, PROTO_TCP}"

section \<open>An instance\<close>

text \<open>A libuv that keeps the log and grants everything, and a world in which nothing happened yet.\<close>

definition log_env :: "(uv_log, 'a) env" where
  "log_env =
     \<lparr>plat = linux, host = Little, ctb_htonl = musl_htonl Little, ctb_ntohl = musl_ntohl Little,
      ctb_bzero = (\<lambda>n. replicate n 0), ctb_strdup = (\<lambda>s. malloc (Str s)), ctb_strtok_s = strtok_c11,
      call_event = (\<lambda>f s e. ret ()), call_recv = (\<lambda>f s m e. ret ()), call_close = (\<lambda>f s. ret ()),
      call_alloc = (\<lambda>f n. ret None), call_free = (\<lambda>f p. ret ()),
      uv_buf_init = (\<lambda>base n. \<lparr>buf_base = base, buf_len = ucast n\<rparr>),
      uv_pipe_init = (\<lambda>lp b ipc u. (0, u @ [Init (Stream b)])),
      uv_tcp_init = (\<lambda>lp b u. (0, u @ [Init (Stream b)])),
      uv_pipe_connect = (\<lambda>b path u. u @ [Connect (Stream b)]),
      uv_ip4_addr = (\<lambda>ip port. (0, [])),
      uv_tcp_connect = (\<lambda>b sa u. (0, u @ [Connect (Stream b)])),
      uv_pipe_bind = (\<lambda>b path u. (0, u @ [Bind (Stream b)])),
      uv_tcp_bind = (\<lambda>b sa fl u. (0, u @ [Bind (Stream b)])),
      uv_listen = (\<lambda>b n u. (0, u @ [Listen (Stream b)])),
      uv_accept = (\<lambda>b c u. (0, u @ [Accept (Stream b) (Stream c)])),
      uv_read_start = (\<lambda>b u. (0, u @ [Read_start (Stream b)])),
      uv_write = (\<lambda>b bufs u. (0, u @ [Write (Stream b) bufs])),
      uv_close = (\<lambda>b u. u @ [Close (Stream b)])\<rparr>"

definition log_loop :: "uv_log loop_env" where
  "log_loop =
     \<lparr>uv_async_init = (\<lambda>lp h cb u. (0, u @ [Init h])), uv_async_send = (\<lambda>h u. (0, u @ [Send h])),
      uv_signal_init = (\<lambda>lp h u. (0, u @ [Init h])), uv_signal_start = (\<lambda>h cb n u. (0, u @ [Start h])),
      uv_idle_init = (\<lambda>lp h u. (0, u @ [Init h])), uv_idle_start = (\<lambda>h cb u. (0, u @ [Start h])),
      uv_close_handle = (\<lambda>h u. u @ [Close h]), uv_loop_close = (\<lambda>lp u. (0, u))\<rparr>"

definition fresh_world :: "'a \<Rightarrow> (uv_log, 'a) world" where
  "fresh_world a =
     \<lparr>heap = Map.empty, fresh = 0, malloc_ok = (\<lambda>_. True), junk_sock = junk_sock blank_world,
      junk_buv = junk_buv blank_world, junk_uri = junk_uri blank_world, junk_byte = (\<lambda>_. 90),
      backend = None, buv_data = None, msg_alloc = Default_heap_alloc, msg_free = Default_heap_free,
      ndebug = False, stderr_lines = [], uv = [], app = a\<rparr>"

text \<open>What a program relies on of its surroundings: libuv and the toolbelt, memory, nothing done yet.\<close>

definition at_start :: "(uv_log, 'a) env \<Rightarrow> (uv_log, 'a) world \<Rightarrow> bool" where
  "at_start E w \<longleftrightarrow>
     uv_logs E \<and> ctb_network_order E \<and> strdup_mallocs E \<and> wf_heap w \<and> (\<forall>k. malloc_ok w k) \<and>
     msg_alloc w = Default_heap_alloc \<and> msg_free w = Default_heap_free \<and> uv w = []"

definition surroundings :: "(uv_log, 'a) env \<Rightarrow> uv_log loop_env \<Rightarrow> (uv_log, 'a) world \<Rightarrow> bool" where
  "surroundings E L w \<longleftrightarrow> at_start E w \<and> uv_grants E \<and> loop_logs L \<and> loop_grants L"

lemma log_surroundings: "surroundings log_env log_loop (fresh_world a)"
  by (simp add: surroundings_def at_start_def uv_logs_def uv_grants_def bind_grants_def loop_logs_def loop_grants_def strdup_mallocs_def
      wf_heap_def log_env_def log_loop_def fresh_world_def)

lemma log_address:
  "uri_parse log_env (''tcp://'' @ ''127.0.0.1'' @ '':'' @ decimal 8765) =
    Inr (Inr (''tcp'', ''127.0.0.1'', Some (decimal 8765)))"
proof -
  have "dotted_quad ''127.0.0.1''" by code_simp
  then show ?thesis
    using uri_parse_tcp [OF _ tcp_form_decimal [of "''127.0.0.1''" 8765], of log_env]
    by (simp add: log_env_def del: decimal.simps)
qed

end
