(* ===== verification/Server.thy ===== *)
theory Server
  imports Test_Loop
begin

text \<open>
  The server of the tests, \<open>test/server.c\<close>, on the library's own functions: it accepts one connection
  after the other, writes a line for every message it receives, and ends on a signal, the client's
  connection first.
\<close>

section \<open>State\<close>

datatype terminate = NOTSET | CLIENT | SERVER

text \<open>
  The members of \<open>struct server\<close> after \<open>uv\<close> (the embedded \<open>struct client\<close> is \<open>clt_server\<close>,
  \<open>clt_socket\<close> and \<open>active\<close>), and what was written to the file \<open>output\<close>.
\<close>

record server = loop_app +
  srv_socket :: "addr option"
  clt_server :: "addr option"
  clt_socket :: "addr option"
  active :: bool
  terminate :: terminate
  out_file :: bytes

definition set_srv :: "(server \<Rightarrow> server) \<Rightarrow> (('u, server) world, unit) prog" where
  "set_srv f = upd (\<lambda>w. w\<lparr>app := f (app w)\<rparr>)"

section \<open>Output\<close>

definition outf :: "bytes \<Rightarrow> (('u, server) world, unit) prog" where
  "outf bs = set_srv (out_file_update (\<lambda>out. out @ bs))"

definition print_msg :: "('u, server) env \<Rightarrow> addr \<Rightarrow> (('u, server) world, unit) prog" where
  "print_msg E msg =
     bnd (load_msg msg) (\<lambda>m.
     bnd (sc_msg_get_size E msg) (\<lambda>size.
     bnd (format_prec size (msg_data m)) (\<lambda>text.
     outf (chars (''['' @ decimal (unat size) @ '']('') @ text @ chars ('')'' @ [newline])))))"

section \<open>Callbacks of the sockets\<close>

definition server_on_connection ::
    "('u, server) env \<Rightarrow> addr \<Rightarrow> int \<Rightarrow> (('u, server) world, unit) prog" where
  "server_on_connection E socket errcode =
     (if errcode \<noteq> 0 then fatal ''errcode''
      else
        bnd (sc_socket_get_userdata socket) (\<lambda>server.
        via_struct server (\<lambda>_.
        bnd (gets app) (\<lambda>srv.
        if terminate srv \<noteq> NOTSET then ret ()
        else bnd (deref (clt_socket srv)) (\<lambda>clt. sc_socket_accept E socket clt)))))"

definition server_on_recv ::
    "('u, server) env \<Rightarrow> addr \<Rightarrow> addr option \<Rightarrow> int \<Rightarrow> (('u, server) world, unit) prog" where
  "server_on_recv E socket msg errcode =
     (if errcode \<noteq> 0 then fatal ''errcode'' else bnd (deref msg) (print_msg E))"

definition server_on_close :: "'u loop_env \<Rightarrow> addr \<Rightarrow> (('u, server) world, unit) prog" where
  "server_on_close L socket =
     bnd (sc_socket_get_userdata socket) (\<lambda>server.
     via_struct server (\<lambda>self.
     seq (close_handle L (Sigterm self)) (close_handle L (Sigint self))))"

definition client_on_accept ::
    "('u, server) env \<Rightarrow> addr \<Rightarrow> int \<Rightarrow> (('u, server) world, unit) prog" where
  "client_on_accept E socket errcode =
     (if errcode \<noteq> 0 then fatal ''errcode''
      else
        bnd (sc_socket_get_userdata socket) (\<lambda>client.
        via_struct client (\<lambda>_.
        seq (set_srv (active_update (\<lambda>_. True)))
        (bnd (gets app) (\<lambda>clt.
         via_struct (clt_server clt) (\<lambda>_.
         if terminate clt \<noteq> NOTSET then close_socket E (clt_socket clt) else ret ()))))))"

definition client_on_recv ::
    "('u, server) env \<Rightarrow> addr \<Rightarrow> addr option \<Rightarrow> int \<Rightarrow> (('u, server) world, unit) prog" where
  "client_on_recv E socket msg errcode =
     (if errcode \<noteq> 0 then fatal ''errcode''
      else
        bnd (sc_socket_get_userdata socket) (\<lambda>client.
        via_struct client (\<lambda>_.
        case msg of
          None \<Rightarrow> bnd (gets app) (\<lambda>clt. close_socket E (clt_socket clt))
        | Some m \<Rightarrow>
            seq (print_msg E m)
            (bnd (gets app) (\<lambda>clt.
             via_struct (clt_server clt) (\<lambda>_.
             if terminate clt \<noteq> NOTSET then close_socket E (clt_socket clt) else ret ()))))))"

definition client_on_close :: "addr \<Rightarrow> (('u, server) world, unit) prog" where
  "client_on_close socket =
     bnd (sc_socket_get_userdata socket) (\<lambda>client.
     via_struct client (\<lambda>_. set_srv (active_update (\<lambda>_. False))))"

text \<open>
  The functions of the program, by name. \<open>server_on_connection\<close> accepts, and accepting calls
  \<open>client_on_accept\<close>; the others call no callback.
\<close>

definition accepting_env :: "('u, server) env \<Rightarrow> 'u loop_env \<Rightarrow> ('u, server) env" where
  "accepting_env E L =
     E\<lparr>call_event := \<lambda>f. if f = ''client_on_accept'' then client_on_accept E else call_event E f,
       call_recv := \<lambda>f. if f = ''server_on_recv'' then server_on_recv E
         else if f = ''client_on_recv'' then client_on_recv E else call_recv E f,
       call_close := \<lambda>f. if f = ''server_on_close'' then server_on_close L
         else if f = ''client_on_close'' then client_on_close else call_close E f\<rparr>"

definition server_env :: "('u, server) env \<Rightarrow> 'u loop_env \<Rightarrow> ('u, server) env" where
  "server_env E L =
     (accepting_env E L)\<lparr>call_event := \<lambda>f. if f = ''server_on_connection''
        then server_on_connection (accepting_env E L) else call_event (accepting_env E L) f\<rparr>"

section \<open>Callbacks of the handles\<close>

definition async_cb :: "'u loop_env \<Rightarrow> handle \<Rightarrow> (('u, server) world, unit) prog" where
  "async_cb L h =
     via_handle h (\<lambda>self.
     seq (set_srv (terminate_update (\<lambda>_. CLIENT))) (close_handle L (Async self)))"

definition signal_cb :: "'u loop_env \<Rightarrow> handle \<Rightarrow> int \<Rightarrow> (('u, server) world, unit) prog" where
  "signal_cb L h signum =
     seq (dbg_assert (signum = SIGTERM \<or> signum = SIGINT))
     (via_handle h (\<lambda>self.
      bnd (gets app) (\<lambda>srv.
      if terminate srv \<noteq> NOTSET then ret ()
      else must ''uv_async_send'' (uv_call (uv_async_send L (Async self))))))"

definition idle_cb ::
    "('u, server) env \<Rightarrow> 'u loop_env \<Rightarrow> handle \<Rightarrow> (('u, server) world, unit) prog" where
  "idle_cb E L h =
     via_handle h (\<lambda>self.
     bnd (gets app) (\<lambda>srv.
     if \<not> active srv \<and> terminate srv = CLIENT then set_srv (terminate_update (\<lambda>_. SERVER))
     else if terminate srv = SERVER then
       seq (close_handle L (Idle self)) (close_socket E (srv_socket srv))
     else ret ()))"

section \<open>Start and end\<close>

text \<open>\<open>creates\<close> says which files can be created; the result is the address to listen at.\<close>

definition parse_args :: "(string \<Rightarrow> bool) \<Rightarrow> string list \<Rightarrow> (('u, server) world, string) prog" where
  "parse_args creates argv =
     (if length argv \<noteq> 3 then fatal ''wrong number of arguments''
      else if \<not> creates (argv ! 2) then fatal ''failed to create output''
      else seq (set_srv (out_file_update (\<lambda>_. []))) (ret (argv ! 1)))"

definition server_new :: "addr \<Rightarrow> (('u, server) world, addr) prog" where
  "server_new lp =
     bnd (malloc (Uv_data lp)) (\<lambda>p.
     case p of None \<Rightarrow> fatal ''not enough memory'' | Some self \<Rightarrow> ret self)"

definition server_init ::
    "('u, server) env \<Rightarrow> 'u loop_env \<Rightarrow> addr \<Rightarrow> (('u, server) world, unit) prog" where
  "server_init E L self =
     seq (handles_init L self)
     (bnd (socket_or_fatal E) (\<lambda>s.
      seq (set_srv (srv_socket_update (\<lambda>_. Some s)))
      (seq (sc_socket_set_userdata s (Some self))
      (seq (sc_socket_on_connection s (User_fn ''server_on_connection''))
      (seq (sc_socket_on_recv s (User_fn ''server_on_recv''))
      (seq (sc_socket_on_close s (User_fn ''server_on_close''))
      (set_srv (terminate_update (\<lambda>_. NOTSET)))))))))"

definition client_init :: "('u, server) env \<Rightarrow> addr \<Rightarrow> (('u, server) world, unit) prog" where
  "client_init E self =
     seq (set_srv (clt_server_update (\<lambda>_. Some self)))
     (bnd (socket_or_fatal E) (\<lambda>c.
      seq (set_srv (clt_socket_update (\<lambda>_. Some c)))
      (seq (sc_socket_set_userdata c (Some self))
      (seq (sc_socket_on_accept c (User_fn ''client_on_accept''))
      (seq (sc_socket_on_recv c (User_fn ''client_on_recv''))
      (seq (sc_socket_on_close c (User_fn ''client_on_close''))
      (set_srv (active_update (\<lambda>_. False)))))))))"

definition server_bind_and_listen ::
    "('u, server) env \<Rightarrow> addr \<Rightarrow> string \<Rightarrow> (('u, server) world, unit) prog" where
  "server_bind_and_listen E self uri =
     bnd (gets app) (\<lambda>srv.
     bnd (deref (srv_socket srv)) (\<lambda>s.
     seq (must ''sc_socket_bind'' (sc_socket_bind E s uri))
     (must ''sc_socket_listen'' (sc_socket_listen E s 4))))"

definition server_del :: "('u, server) env \<Rightarrow> addr \<Rightarrow> (('u, server) world, unit) prog" where
  "server_del E self =
     via_struct (Some self) (\<lambda>_.
     bnd (gets app) (\<lambda>srv.
     seq (bnd (deref (clt_socket srv)) (sc_socket_del E))
     (seq (bnd (deref (srv_socket srv)) (sc_socket_del E))
     (c_free (Some self)))))"

text \<open>\<open>main\<close> up to \<open>uv_run\<close>, and from there on.\<close>

definition server_start ::
    "('u, server) env \<Rightarrow> 'u loop_env \<Rightarrow> (string \<Rightarrow> bool) \<Rightarrow> string list \<Rightarrow> addr \<Rightarrow>
     (('u, server) world, addr) prog" where
  "server_start E L creates argv lp =
     bnd (parse_args creates argv) (\<lambda>uri.
     bnd (server_new lp) (\<lambda>self.
     seq (sc_init SC_LIBUV (Some self) None None)
     (seq (server_init E L self)
     (seq (client_init E self)
     (seq (server_bind_and_listen E self uri)
     (ret self))))))"

definition server_end ::
    "('u, server) env \<Rightarrow> 'u loop_env \<Rightarrow> addr \<Rightarrow> int \<Rightarrow> (('u, server) world, int) prog" where
  "server_end E L self res = seq (loop_end L self res) (seq (server_del E self) (ret 0))"

section \<open>The program's functions seen from the library\<close>

lemma server_env_simps [simp]:
  "plat (server_env E L) = plat E" "host (server_env E L) = host E"
  "ctb_htonl (server_env E L) = ctb_htonl E" "ctb_ntohl (server_env E L) = ctb_ntohl E"
  "uv_pipe_init (server_env E L) = uv_pipe_init E" "uv_tcp_init (server_env E L) = uv_tcp_init E"
  "uv_accept (server_env E L) = uv_accept E" "uv_read_start (server_env E L) = uv_read_start E"
  "uv_close (server_env E L) = uv_close E"
  "call_event (server_env E L) ''server_on_connection'' = server_on_connection (accepting_env E L)"
  "call_recv (server_env E L) ''client_on_recv'' = client_on_recv E"
  "call_close (server_env E L) ''server_on_close'' = server_on_close L"
  "call_close (server_env E L) ''client_on_close'' = client_on_close"
  by (simp_all add: server_env_def accepting_env_def)

lemma accepting_env_simps [simp]:
  "uv_pipe_init (accepting_env E L) = uv_pipe_init E" "uv_tcp_init (accepting_env E L) = uv_tcp_init E"
  "uv_accept (accepting_env E L) = uv_accept E" "uv_read_start (accepting_env E L) = uv_read_start E"
  "call_event (accepting_env E L) ''client_on_accept'' = client_on_accept E"
  by (simp_all add: accepting_env_def)

lemma server_env_size [simp]: "msg_size (server_env E L) = msg_size E"
  by (rule ext) (simp add: msg_size_def)

lemma server_env_payload [simp]: "payload (server_env E L) = payload E"
  by (intro ext) (simp add: payload_def split: option.split obj.split)

lemma set_srv_apply [simp]: "set_srv f w = Inr ((), w\<lparr>app := f (app w)\<rparr>)"
  by (simp add: set_srv_def)

text \<open>The line for a message, as the program means it.\<close>

definition server_line :: "bytes \<Rightarrow> bytes" where
  "server_line p =
     chars (''['' @ decimal (length p) @ '']('') @ takeWhile (\<lambda>b. b \<noteq> 0) p @ chars ('')'' @ [newline])"

definition note_line :: "bytes \<Rightarrow> server \<Rightarrow> server" where
  "note_line p = out_file_update (\<lambda>out. out @ server_line p)"

lemma fold_note_line:
  "fold note_line ps a = a\<lparr>out_file := out_file a @ concat (map server_line ps)\<rparr>"
  by (induction ps arbitrary: a) (simp_all add: note_line_def)

lemma print_msg_ok:
  assumes "heap w a = Some (Msg m)" and "unat (msg_size E m) \<le> length (msg_data m)"
    and "length (msg_data m) < 2 ^ 31"
  shows "print_msg E a w = Inr ((), w\<lparr>app := note_line (payload E w a) (app w)\<rparr>)"
  using assms
  by (simp add: format_prec_ok print_msg_def outf_def sc_msg_get_size_def note_line_def payload_def server_line_def
      print_prec_def)

lemma server_takes:
  assumes "H self = Some (Uv_data lp)" and "H c = Some (Sock co)" and "userdata co = Some self"
    and "cap < 2 ^ 31"
  shows "takes_messages (server_env E L) ''client_on_recv'' c H cap
    (\<lambda>a. terminate a = NOTSET \<and> clt_server a = Some self) note_line"
  unfolding takes_messages_def
proof (intro allI impI)
  fix a m and w :: "('a, server) world"
  assume le: "map_le H (heap w)" and m: "heap w a = Some (Msg m)" "length (msg_data m) = cap"
    "unat (msg_size (server_env E L) m) \<le> cap" and I: "terminate (app w) = NOTSET \<and> clt_server (app w) = Some self"
  have h: "heap w self = Some (Uv_data lp)" "heap w c = Some (Sock co)"
    using le assms(1,2) by (auto simp: map_le_def dom_def)
  show "call_recv (server_env E L) ''client_on_recv'' c (Some a) 0 w =
      Inr ((), w\<lparr>app := note_line (payload (server_env E L) w a) (app w)\<rparr>) \<and>
    terminate (note_line (payload (server_env E L) w a) (app w)) = NOTSET \<and>
    clt_server (note_line (payload (server_env E L) w a) (app w)) = Some self"
    using h m I assms(3,4) print_msg_ok [of w a m E]
    by (simp add: client_on_recv_def sc_socket_get_userdata_def note_line_def)
qed

section \<open>Starting\<close>

text \<open>The sockets as \<open>server_init\<close> and \<open>client_init\<close> leave them.\<close>

definition srv_sock :: "addr \<Rightarrow> addr \<Rightarrow> addr \<Rightarrow> sc_socket" where
  "srv_sock self s b = (new_sock s b)\<lparr>userdata := Some self, sock_watcher := (sc_watcher_init s)
     \<lparr>on_connection := User_fn ''server_on_connection'', on_recv := User_fn ''server_on_recv'',
      on_close := User_fn ''server_on_close''\<rparr>\<rparr>"

definition clt_sock :: "addr \<Rightarrow> addr \<Rightarrow> addr \<Rightarrow> sc_socket" where
  "clt_sock self c cb = (new_sock c cb)\<lparr>userdata := Some self, sock_watcher := (sc_watcher_init c)
     \<lparr>on_accept := User_fn ''client_on_accept'', on_recv := User_fn ''client_on_recv'',
      on_close := User_fn ''client_on_close''\<rparr>\<rparr>"

lemma srv_sock_simps [simp]:
  "userdata (srv_sock self s b) = Some self" "sock_backend (srv_sock self s b) = Some b"
  "sock_uri (srv_sock self s b) = None" "watcher_socket (sock_watcher (srv_sock self s b)) = s"
  "on_connection (sock_watcher (srv_sock self s b)) = User_fn ''server_on_connection''"
  "on_close (sock_watcher (srv_sock self s b)) = User_fn ''server_on_close''"
  by (simp_all add: srv_sock_def new_sock_def)

lemma srv_clt_sock_simps [simp]:
  "userdata (clt_sock self c cb) = Some self" "sock_backend (clt_sock self c cb) = Some cb"
  "sock_uri (clt_sock self c cb) = None" "watcher_socket (sock_watcher (clt_sock self c cb)) = c"
  "on_accept (sock_watcher (clt_sock self c cb)) = User_fn ''client_on_accept''"
  "on_recv (sock_watcher (clt_sock self c cb)) = User_fn ''client_on_recv''"
  "on_close (sock_watcher (clt_sock self c cb)) = User_fn ''client_on_close''"
  by (simp_all add: clt_sock_def new_sock_def)

lemma server_init_ok:
  assumes "wf_heap w" and "backend w = Some Buv_funcs" and "\<forall>k. malloc_ok w k"
    and "loop_grants L" and "loop_logs L" and "heap w self = Some (Uv_data lp)"
  shows "server_init E L self w = Inr ((),
    w\<lparr>heap := (heap w)(fresh w \<mapsto> Sock (srv_sock self (fresh w) (Suc (fresh w))),
        Suc (fresh w) \<mapsto> Buv (inited_buv E (Suc (fresh w)) (fresh w) (junk_buv w))),
      fresh := Suc (Suc (fresh w)), uv := uv w @ handle_inits self,
      app := (app w)\<lparr>handle_data := own_handles self (handle_data (app w)),
        srv_socket := Some (fresh w), terminate := NOTSET\<rparr>\<rparr>)"
proof -
  let ?w1 = "w\<lparr>uv := uv w @ handle_inits self,
      app := (app w)\<lparr>handle_data := own_handles self (handle_data (app w))\<rparr>\<rparr>"
  have "wf_heap ?w1" using assms(1) by (simp add: wf_heap_def)
  from uv_socket_new [OF this, of E] assms(2,3) handles_init_ok [OF assms(4-6)] show ?thesis
    by (simp add: server_init_def socket_or_fatal_def sc_socket_set_userdata_def
        sc_socket_on_connection_def sc_socket_on_recv_def sc_socket_on_close_def fun_upd_twist
        srv_sock_def new_sock_def)
qed

lemma srv_client_init_ok:
  assumes "wf_heap w" and "backend w = Some Buv_funcs" and "\<forall>k. malloc_ok w k"
  shows "client_init E self w = Inr ((),
    w\<lparr>heap := (heap w)(fresh w \<mapsto> Sock (clt_sock self (fresh w) (Suc (fresh w))),
        Suc (fresh w) \<mapsto> Buv (inited_buv E (Suc (fresh w)) (fresh w) (junk_buv w))),
      fresh := Suc (Suc (fresh w)),
      app := (app w)\<lparr>clt_server := Some self, clt_socket := Some (fresh w), active := False\<rparr>\<rparr>)"
proof -
  let ?w1 = "w\<lparr>app := (app w)\<lparr>clt_server := Some self\<rparr>\<rparr>"
  have "wf_heap ?w1" using assms(1) by (simp add: wf_heap_def)
  from uv_socket_new [OF this, of E] assms(2,3) show ?thesis
    by (simp add: client_init_def socket_or_fatal_def sc_socket_set_userdata_def
        sc_socket_on_accept_def sc_socket_on_recv_def sc_socket_on_close_def fun_upd_twist
        clt_sock_def new_sock_def)
qed

text \<open>
  The heap of the running server without the backend structure of the client's socket, which is what
  the events of a connection change: the program's structure, the listening socket \<open>s\<close> with its
  backend structure \<open>b\<close> and its address \<open>u\<close>, and the client's socket \<open>c\<close>.
\<close>

definition srv_heap ::
    "addr \<Rightarrow> addr \<Rightarrow> addr \<Rightarrow> addr \<Rightarrow> addr \<Rightarrow> addr \<Rightarrow> addr \<Rightarrow> uri \<Rightarrow> string \<Rightarrow> socket_uv \<Rightarrow> (addr \<rightharpoonup> obj) \<Rightarrow>
     (addr \<rightharpoonup> obj)" where
  "srv_heap lp self s b c cb u r str bu H =
     H(self \<mapsto> Uv_data lp, s \<mapsto> Sock ((srv_sock self s b)\<lparr>sock_uri := Some u\<rparr>), b \<mapsto> Buv bu,
       c \<mapsto> Sock (clt_sock self c cb), u \<mapsto> Uri r, Suc u \<mapsto> Str str)"

lemma srv_heap_simps:
  assumes "srv_ok self s b c cb u r bu H0" and "H = srv_heap lp self s b c cb u r str bu H0"
  shows "H self = Some (Uv_data lp)" "H s = Some (Sock ((srv_sock self s b)\<lparr>sock_uri := Some u\<rparr>))"
    "H b = Some (Buv bu)" "H c = Some (Sock (clt_sock self c cb))" "H u = Some (Uri r)"
    "H (Suc u) = Some (Str str)" "H cb = None"
  using assms by (auto simp: srv_ok_def srv_heap_def)

text \<open>The program's structure of the running server.\<close>

definition srv_app :: "addr \<Rightarrow> addr \<Rightarrow> addr \<Rightarrow> server \<Rightarrow> bool" where
  "srv_app self s c a \<longleftrightarrow> srv_socket a = Some s \<and> clt_socket a = Some c \<and> clt_server a = Some self \<and>
     (\<forall>h \<in> {Async self, Sigterm self, Sigint self, Idle self}. handle_data a h = Some self)"

definition srv_inits :: "addr \<Rightarrow> addr \<Rightarrow> uv_log" where
  "srv_inits self b = handle_inits self @ [Init (Stream b), Bind (Stream b), Listen (Stream b)]"

lemma bind_and_listen_ok:
  assumes "uv_logs E" and "uv_grants E" and "strdup_mallocs E" and "uri_parse E str = Inr (Inr (pr, x, y))"
    and "wf_heap w" and "backend w = Some Buv_funcs" and "\<forall>k. malloc_ok w k"
    and "buv_data w = Some d" and "heap w d = Some (Uv_data lp)"
    and "srv_socket (app w) = Some s" and "live s b so bu w"
  shows "\<exists>bu'. server_bind_and_listen E self str w = Inr ((),
      w\<lparr>fresh := Suc (Suc (fresh w)),
        heap := (heap w)(s \<mapsto> Sock (so\<lparr>sock_uri := Some (fresh w)\<rparr>), b \<mapsto> Buv bu',
          fresh w \<mapsto> Uri (parsed_uri (junk_uri w) (Suc (fresh w)) pr x y), Suc (fresh w) \<mapsto> Str str),
        uv := uv w @ [Init (Stream b), Bind (Stream b), Listen (Stream b)]\<rparr>) \<and>
    uv_proto bu' \<in> {PROTO_PIPE, PROTO_TCP} \<and> uv_watcher bu' = s \<and>
    stream_data bu' = Some b \<and> connect_data bu' = Some b \<and> write_data bu' = Some b"
proof -
  have bg: "bind_grants E" using assms(2) by simp
  obtain bu' where "sc_socket_bind E s str w = Inr (0,
      w\<lparr>fresh := Suc (Suc (fresh w)),
        heap := (heap w)(s \<mapsto> Sock (so\<lparr>sock_uri := Some (fresh w)\<rparr>), b \<mapsto> Buv bu',
          fresh w \<mapsto> Uri (parsed_uri (junk_uri w) (Suc (fresh w)) pr x y), Suc (fresh w) \<mapsto> Str str),
        uv := uv w @ [Init (Stream b), Bind (Stream b)]\<rparr>)" "b \<noteq> fresh w" "b \<noteq> Suc (fresh w)" "s \<noteq> b"
      "s \<noteq> fresh w" "s \<noteq> Suc (fresh w)"
    and "uv_proto bu' \<in> {PROTO_PIPE, PROTO_TCP}" "uv_watcher bu' = s" "stream_data bu' = Some b"
      "connect_data bu' = Some b" "write_data bu' = Some b"
    using socket_bind_granted [OF assms(1) bg assms(3-9,11)] liveD [OF assms(11)]
      wf_heap_ge [OF assms(5), of "fresh w"] wf_heap_ge [OF assms(5), of "Suc (fresh w)"] by fastforce
  then show ?thesis
    using assms(1,2,6,10) liveD(2) [OF assms(11)]
    by (intro exI [of _ bu']) (simp add: server_bind_and_listen_def sc_socket_listen_def buv_listen_def)
qed

lemma srv_heap_arrange:
  "distinct [self, s, b, c, cb, u, v] \<Longrightarrow>
   H(self \<mapsto> A, s \<mapsto> B0, b \<mapsto> C0, c \<mapsto> D, cb \<mapsto> G, s \<mapsto> B, b \<mapsto> C, u \<mapsto> U, v \<mapsto> V) =
   H(self \<mapsto> A, s \<mapsto> B, b \<mapsto> C, c \<mapsto> D, u \<mapsto> U, v \<mapsto> V, cb \<mapsto> G)"
  by (auto simp: fun_eq_iff)

lemma server_start_ok:
  assumes sur: "surroundings E L w" and parse: "uri_parse E str = Inr (Inr (pr, x, y))"
    and out: "creates path"
  shows "\<exists>self s b c cb u r bu cbu w'. server_start E L creates [prog, str, path] lp w = Inr (self, w') \<and>
    srv_ok self s b c cb u r bu (heap w) \<and>
    rx_idle c cb ''client_on_recv'' (srv_heap lp self s b c cb u r str bu (heap w)) cbu w' \<and>
    srv_app self s c (app w') \<and> out_file (app w') = [] \<and> terminate (app w') = NOTSET \<and> \<not> active (app w') \<and>
    uv w' = srv_inits self b \<and> backend w' = Some Buv_funcs \<and> buv_data w' = Some self"
proof -
  have wf: "wf_heap w" and mem: "\<forall>k. malloc_ok w k" and lg: "loop_grants L" "loop_logs L"
    and ug: "uv_logs E" "uv_grants E" and sd: "strdup_mallocs E"
    using sur by (simp_all add: surroundings_def at_start_def)
  define f where "f = fresh w"
  have none: "heap w (k + f) = None" for k
    using wf by (simp add: f_def wf_heap_ge)
  let ?w1 = "w\<lparr>app := (app w)\<lparr>out_file := []\<rparr>, heap := (heap w)(f \<mapsto> Uv_data lp), fresh := Suc f,
      buv_data := Some f, backend := Some Buv_funcs\<rparr>"
  have wf1: "wf_heap ?w1"
    using wf by (auto simp: wf_heap_def f_def less_Suc_eq)
  let ?w2 = "?w1\<lparr>heap := (heap ?w1)(Suc f \<mapsto> Sock (srv_sock f (Suc f) (Suc (Suc f))),
        Suc (Suc f) \<mapsto> Buv (inited_buv E (Suc (Suc f)) (Suc f) (junk_buv w))),
      fresh := Suc (Suc (Suc f)), uv := handle_inits f,
      app := (app ?w1)\<lparr>handle_data := own_handles f (handle_data (app w)),
        srv_socket := Some (Suc f), terminate := NOTSET\<rparr>\<rparr>"
  have i1: "server_init E L f ?w1 = Inr ((), ?w2)"
    using server_init_ok [OF wf1 _ _ lg, of f lp E] mem sur by (simp add: surroundings_def at_start_def)
  have wf2: "wf_heap ?w2"
    using wf1 by (auto simp: wf_heap_def less_Suc_eq)
  let ?c = "Suc (Suc (Suc f))" and ?cb = "Suc (Suc (Suc (Suc f)))"
  let ?cbu = "inited_buv E ?cb ?c (junk_buv w)"
  let ?w3 = "?w2\<lparr>heap := (heap ?w2)(?c \<mapsto> Sock (clt_sock f ?c ?cb), ?cb \<mapsto> Buv ?cbu),
      fresh := Suc ?cb, app := (app ?w2)\<lparr>clt_server := Some f, clt_socket := Some ?c, active := False\<rparr>\<rparr>"
  have i2: "client_init E f ?w2 = Inr ((), ?w3)"
    using srv_client_init_ok [OF wf2, of E f] mem by simp
  have wf3: "wf_heap ?w3"
    using wf2 by (auto simp: wf_heap_def less_Suc_eq)
  let ?u = "Suc ?cb"
  let ?r = "parsed_uri (junk_uri w) (Suc ?u) pr x y"
  have live: "live (Suc f) (Suc (Suc f)) (srv_sock f (Suc f) (Suc (Suc f)))
      (inited_buv E (Suc (Suc f)) (Suc f) (junk_buv w)) ?w3"
    by (simp add: live_def inited_buv_def)
  obtain bu where
    i3: "server_bind_and_listen E f str ?w3 = Inr ((),
      ?w3\<lparr>fresh := Suc (Suc ?u),
        heap := (heap ?w3)(Suc f \<mapsto> Sock ((srv_sock f (Suc f) (Suc (Suc f)))\<lparr>sock_uri := Some ?u\<rparr>),
          Suc (Suc f) \<mapsto> Buv bu, ?u \<mapsto> Uri ?r, Suc ?u \<mapsto> Str str),
        uv := srv_inits f (Suc (Suc f))\<rparr>)"
    and bu: "uv_proto bu \<in> {PROTO_PIPE, PROTO_TCP}" "uv_watcher bu = Suc f"
      "stream_data bu = Some (Suc (Suc f))" "connect_data bu = Some (Suc (Suc f))"
      "write_data bu = Some (Suc (Suc f))"
    using bind_and_listen_ok [OF ug sd parse wf3 _ _ _ _ _ live, of f lp f] mem
    by (auto simp: srv_inits_def)
  define w4 where "w4 = ?w3\<lparr>fresh := Suc (Suc ?u),
        heap := (heap ?w3)(Suc f \<mapsto> Sock ((srv_sock f (Suc f) (Suc (Suc f)))\<lparr>sock_uri := Some ?u\<rparr>),
          Suc (Suc f) \<mapsto> Buv bu, ?u \<mapsto> Uri ?r, Suc ?u \<mapsto> Str str),
        uv := srv_inits f (Suc (Suc f))\<rparr>"
  have run: "server_start E L creates [prog, str, path] lp w = Inr (f, w4)"
    using out mem i1 i2 i3 unfolding w4_def
    by (simp add: server_start_def parse_args_def server_new_def malloc_def sc_init_def
        backend_uv_init_def backend_init_def sc_msg_init_allocator_def f_def [symmetric])
  have ok: "srv_ok f (Suc f) (Suc (Suc f)) ?c ?cb ?u ?r bu (heap w)"
    using bu none [of 0] none [of 1] none [of 2] none [of 3] none [of 4] none [of 5] none [of 6]
    by (simp add: srv_ok_def parsed_uri_def numeral_eq_Suc)
  have wf4: "wf_heap w4"
    using wf3 unfolding w4_def by (auto simp: wf_heap_def less_Suc_eq)
  let ?H = "srv_heap lp f (Suc f) (Suc (Suc f)) ?c ?cb ?u ?r str bu (heap w)"
  have H: "heap w4 = ?H(?cb \<mapsto> Buv ?cbu)"
    using srv_heap_arrange [of f "Suc f" "Suc (Suc f)" ?c ?cb ?u "Suc ?u" "heap w"]
    by (simp add: srv_heap_def w4_def)
  have st: "srv_app f (Suc f) ?c (app w4)" "out_file (app w4) = []" "terminate (app w4) = NOTSET"
    "\<not> active (app w4)" "uv w4 = srv_inits f (Suc (Suc f))" "backend w4 = Some Buv_funcs"
    "buv_data w4 = Some f" "msg_alloc w4 = msg_alloc w" "msg_free w4 = msg_free w" "malloc_ok w4 = malloc_ok w"
    by (simp_all add: w4_def srv_app_def)
  have "rx_idle ?c ?cb ''client_on_recv'' ?H ?cbu w4"
    using srv_heap_simps(4,7) [OF ok refl, of lp str] sur mem H wf4 st(8-10)
    by (simp add: rx_idle_def rx_base_def surroundings_def at_start_def inited_buv_def)
  with run ok st(1-7) show ?thesis by blast
qed

section \<open>A connection\<close>

text \<open>
  libuv reports a connection; what arrives on it, in the pieces \<open>bss\<close>; its end; and that the handle the
  program closed then is closed.
\<close>

definition server_session ::
    "(uv_log, server) env \<Rightarrow> uv_log loop_env \<Rightarrow> u64 \<Rightarrow> bytes list \<Rightarrow> ((uv_log, server) world, unit) prog" where
  "server_session E L sg bss =
     bnd (gets app) (\<lambda>srv.
     seq (via_socket (srv_socket srv) (\<lambda>b. on_connection_wrap (server_env E L) b 0))
     (seq (via_socket (clt_socket srv) (\<lambda>b. uv_reads (server_env E L) b sg bss))
     (seq (via_socket (clt_socket srv) (\<lambda>b. uv_read (server_env E L) b sg (Failed UV_EOF)))
     (via_socket (clt_socket srv) (stream_closed (server_env E L))))))"

fun server_sessions ::
    "(uv_log, server) env \<Rightarrow> uv_log loop_env \<Rightarrow> u64 \<Rightarrow> bytes list list \<Rightarrow> ((uv_log, server) world, unit) prog" where
  "server_sessions E L sg [] = ret ()"
| "server_sessions E L sg (bss # rest) = seq (server_session E L sg bss) (server_sessions E L sg rest)"

text \<open>The running server between two connections.\<close>

definition srv_waits ::
    "addr \<Rightarrow> addr \<Rightarrow> addr \<Rightarrow> addr \<Rightarrow> addr \<Rightarrow> (addr \<rightharpoonup> obj) \<Rightarrow> socket_uv \<Rightarrow> (uv_log, server) world \<Rightarrow> bool" where
  "srv_waits self s b c cb H cbu w \<longleftrightarrow>
     rx_idle c cb ''client_on_recv'' H cbu w \<and> srv_app self s c (app w) \<and> terminate (app w) = NOTSET \<and>
     backend w = Some Buv_funcs \<and> buv_data w = Some self"

lemma connection_ok:
  assumes ok: "srv_ok self s b c cb u r bu H0" and H: "H = srv_heap lp self s b c cb u r str bu H0"
    and w: "srv_waits self s b c cb H cbu w" and ug: "uv_logs E" "uv_grants E"
  shows "on_connection_wrap (server_env E L) b 0 w =
    Inr ((), w\<lparr>heap := H(cb \<mapsto> Buv (cbu\<lparr>uv_proto := uv_proto bu\<rparr>)),
      uv := uv w @ [Init (Stream cb), Accept (Stream b) (Stream cb), Read_start (Stream cb)],
      app := (app w)\<lparr>active := True\<rparr>\<rparr>)"
proof -
  note h = srv_heap_simps [OF ok H]
  have hw: "heap w = H(cb \<mapsto> Buv cbu)" and cbu: "uv_watcher cbu = c" "stream_data cbu = Some cb"
      "connect_data cbu = Some cb" "write_data cbu = Some cb"
    using w by (auto simp: srv_waits_def rx_idle_def rx_base_def)
  have ne: "self \<noteq> cb" "s \<noteq> cb" "b \<noteq> cb" "c \<noteq> cb"
    using h by auto
  have bu: "uv_watcher bu = s" "stream_data bu = Some b" "connect_data bu = Some b"
      "write_data bu = Some b" "uv_proto bu \<in> {PROTO_PIPE, PROTO_TCP}"
    using ok by (simp_all add: srv_ok_def)
  have st: "srv_app self s c (app w)" "terminate (app w) = NOTSET" "backend w = Some Buv_funcs"
      "buv_data w = Some self" using w by (simp_all add: srv_waits_def)
  have ls: "live s b ((srv_sock self s b)\<lparr>sock_uri := Some u\<rparr>) bu w"
    and lc: "live c cb (clt_sock self c cb) cbu w"
    using h hw ne bu cbu by (auto simp: live_def)
  let ?w1 = "w\<lparr>heap := H(cb \<mapsto> Buv (cbu\<lparr>uv_proto := uv_proto bu\<rparr>)),
      uv := uv w @ [Init (Stream cb), Accept (Stream b) (Stream cb), Read_start (Stream cb)]\<rparr>"
  have "sc_socket_accept (accepting_env E L) s c w = client_on_accept E c 0 ?w1"
    using liveD [OF ls] liveD [OF lc] st(3,4) h hw ne ug bu(5)
    by (auto simp: sc_socket_accept_def buv_accept_def buv_loop_apply fire_defs)
  then show ?thesis
    using h hw ne bu st
    by (simp add: on_connection_wrap_def via_data_simp fire_defs server_on_connection_def
      sc_socket_get_userdata_def srv_app_def client_on_accept_def)
qed

text \<open>
  Nothing keeps the program from accepting a connection while it serves another: the handle of the one
  client socket is then initialised a second time.
\<close>

lemma connections_overlap:
  assumes "srv_ok self s b c cb u r bu H0" and "srv_waits self s b c cb (srv_heap lp self s b c cb u r str bu H0) cbu w"
    and "uv_logs E" and "uv_grants E" and "status (uv w) (Stream cb) = Open"
  shows "\<exists>w'. on_connection_wrap (server_env E L) b 0 w = Inr ((), w') \<and> \<not> well_used (uv w')"
  using connection_ok [OF assms(1) refl assms(2-4)] assms(5) by auto

lemma eof_ok:
  assumes ok: "srv_ok self s b c cb u r bu H0" and H: "H = srv_heap lp self s b c cb u r str bu H0"
    and w: "rx_rel c cb ''client_on_recv'' cap H w st" "clt_socket (app w) = Some c" "backend w = Some Buv_funcs"
    and env: "uv_logs E" "ctb_network_order E" and cap: "capacity sg = cap" "0 < cap"
  shows "\<exists>w' cbu. uv_read (server_env E L) cb sg (Failed UV_EOF) w = Inr ((), w') \<and>
    rx_idle c cb ''client_on_recv'' H cbu w' \<and> app w' = app w \<and> uv w' = uv w @ [Close (Stream cb)] \<and>
    rx_same (w\<lparr>uv := uv w @ [Close (Stream cb)]\<rparr>) w'"
proof (rule read_failed_by [OF w(1) _ cap])
  note h = srv_heap_simps [OF ok H]
  show "UV_EOF < 0" "- (2 ^ 31) \<le> UV_EOF" by (simp_all add: UV_EOF_def)
  fix v assume le: "map_le H (heap v)" and v: "\<exists>bu. heap v cb = Some (Buv bu)" "app v = app w" "rx_same w v"
  have "heap v self = Some (Uv_data lp)" "heap v c = Some (Sock (clt_sock self c cb))"
    using le h by (auto simp: map_le_def dom_def)
  with v w(2,3) env(1) show "call_recv (server_env E L) ''client_on_recv'' c None (recv_code UV_EOF) v =
      Inr ((), v\<lparr>uv := uv w @ [Close (Stream cb)], app := app w\<rparr>)"
    by (auto simp: recv_code_def client_on_recv_def sc_socket_get_userdata_def close_socket_def
      sc_socket_close_def buv_close_def rx_same_def)
qed (use env in simp)

lemma client_closed_ok:
  assumes ok: "srv_ok self s b c cb u r bu H0" and H: "H = srv_heap lp self s b c cb u r str bu H0"
    and w: "rx_idle c cb ''client_on_recv'' H cbu w"
  shows "stream_closed (server_env E L) cb w =
    Inr ((), w\<lparr>uv := uv w @ [Closed (Stream cb)], app := (app w)\<lparr>active := False\<rparr>\<rparr>)"
proof -
  note h = srv_heap_simps [OF ok H]
  have hw: "heap w = H(cb \<mapsto> Buv cbu)" and cbu: "uv_watcher cbu = c" "stream_data cbu = Some cb"
    using w by (auto simp: rx_idle_def rx_base_def)
  have ne: "self \<noteq> cb" "c \<noteq> cb" using h by auto
  show ?thesis
    using h hw ne cbu
    by (simp add: stream_closed_def close_wrap_def via_data_simp fire_defs client_on_close_def
        sc_socket_get_userdata_def)
qed

definition session_log :: "addr \<Rightarrow> addr \<Rightarrow> uv_log" where
  "session_log b cb =
     [Init (Stream cb), Accept (Stream b) (Stream cb), Read_start (Stream cb), Close (Stream cb), Closed (Stream cb)]"

lemma server_session_ok:
  assumes ok: "srv_ok self s b c cb u r bu H0" and H: "H = srv_heap lp self s b c cb u r str bu H0"
    and w: "srv_waits self s b c cb H cbu w" and env: "uv_logs E" "uv_grants E" "ctb_network_order E"
    and cap: "capacity sg = cap" "0 < cap" "cap < 2 ^ 31" and ps: "carries cap bss ps"
  shows "\<exists>w' cbu'. server_session E L sg bss w = Inr ((), w') \<and> srv_waits self s b c cb H cbu' w' \<and>
    uv w' = uv w @ session_log b cb \<and>
    app w' = (app w)\<lparr>active := False, out_file := out_file (app w) @ concat (map server_line ps)\<rparr>"
proof -
  note h = srv_heap_simps [OF ok H]
  let ?T = "server_env E L" and ?f = "''client_on_recv''"
  let ?w1 = "w\<lparr>heap := H(cb \<mapsto> Buv (cbu\<lparr>uv_proto := uv_proto bu\<rparr>)),
      uv := uv w @ [Init (Stream cb), Accept (Stream b) (Stream cb), Read_start (Stream cb)],
      app := (app w)\<lparr>active := True\<rparr>\<rparr>"
  have conn: "on_connection_wrap ?T b 0 w = Inr ((), ?w1)"
    by (rule connection_ok [OF ok H w env(1,2)])
  have st: "srv_app self s c (app w)" "terminate (app w) = NOTSET" "backend w = Some Buv_funcs"
      "buv_data w = Some self" using w by (simp_all add: srv_waits_def)
  have "rx_idle c cb ?f H (cbu\<lparr>uv_proto := uv_proto bu\<rparr>) ?w1"
    using w by (auto simp: srv_waits_def rx_idle_def rx_base_def wf_heap_def)
  then have rel1: "rx_rel c cb ?f cap H ?w1 ([], [])"
    unfolding rx_rel_def by blast
  have takes: "takes_messages ?T ?f c H cap (\<lambda>a. terminate a = NOTSET \<and> clt_server a = Some self) note_line"
    by (rule server_takes [OF h(1,4) _ cap(3)]) simp
  have net: "ctb_network_order ?T" using env(3) by simp
  have rx: "rx_run bss ([], []) = (([], []), ps)"
    using ps by (intro rx_run_frames) (auto simp: carries_def)
  have I: "terminate (app ?w1) = NOTSET \<and> clt_server (app ?w1) = Some self"
    using st by (simp add: srv_app_def)
  have ch: "rx_chunks cap bss ([], [])" using ps by (simp add: carries_def)
  from read_steps_take [OF rel1 ch net cap(1) takes I] obtain w2 where
    reads: "uv_reads ?T cb sg bss ?w1 = Inr ((), w2)" and rel2: "rx_rel c cb ?f cap H w2 ([], [])"
    and app2: "app w2 = fold note_line ps (app ?w1)" and same2: "rx_same ?w1 w2"
    using rx by auto
  have be2: "backend w2 = Some Buv_funcs" "clt_socket (app w2) = Some c"
    using same2 app2 st by (simp_all add: rx_same_def fold_note_line srv_app_def)
  from eof_ok [OF ok H rel2 be2(2,1) env(1,3) cap(1,2)] obtain w3 cbu3 where
    eof: "uv_read ?T cb sg (Failed UV_EOF) w2 = Inr ((), w3)" and idle3: "rx_idle c cb ?f H cbu3 w3"
    and w3: "app w3 = app w2" "uv w3 = uv w2 @ [Close (Stream cb)]"
      "rx_same (w2\<lparr>uv := uv w2 @ [Close (Stream cb)]\<rparr>) w3" by blast
  note cl = client_closed_ok [OF ok H idle3, of E L]
  let ?w4 = "w3\<lparr>uv := uv w3 @ [Closed (Stream cb)], app := (app w3)\<lparr>active := False\<rparr>\<rparr>"
  have mid: "heap v s = Some (Sock ((srv_sock self s b)\<lparr>sock_uri := Some u\<rparr>))"
      "heap v c = Some (Sock (clt_sock self c cb))" if "map_le H (heap v)" for v :: "(uv_log, server) world"
    using that h by (auto simp: map_le_def dom_def)
  have le: "map_le H (heap w)" "map_le H (heap ?w1)" "map_le H (heap w2)" "map_le H (heap w3)"
    using rx_rel_le [OF rel1] rx_rel_le [OF rel2] rx_rel_le [OF rx_rel_idle [OF idle3]] w
      rx_rel_le [OF rx_rel_idle] by (auto simp: srv_waits_def)
  have "server_session E L sg bss w = Inr ((), ?w4)"
    using conn reads eof cl mid [OF le(1)] mid [OF le(2)] mid [OF le(3)] mid [OF le(4)] st(1)
    by (simp add: server_session_def srv_app_def)
  moreover have "rx_idle c cb ?f H cbu3 ?w4"
    using idle3 by (auto simp: rx_idle_def rx_base_def wf_heap_def)
  then have "srv_waits self s b c cb H cbu3 ?w4"
    using st w3 same2 app2 by (simp add: srv_waits_def rx_same_def fold_note_line srv_app_def)
  moreover have "uv ?w4 = uv w @ session_log b cb"
    using w3(2) same2 by (simp add: rx_same_def session_log_def)
  moreover have "app ?w4 = (app w)\<lparr>active := False, out_file := out_file (app w) @ concat (map server_line ps)\<rparr>"
    using w3(1) app2 by (simp add: fold_note_line)
  ultimately show ?thesis by blast
qed

lemma server_sessions_ok:
  assumes ok: "srv_ok self s b c cb u r bu H0" and H: "H = srv_heap lp self s b c cb u r str bu H0"
    and env: "uv_logs E" "uv_grants E" "ctb_network_order E"
    and cap: "capacity sg = cap" "0 < cap" "cap < 2 ^ 31"
  shows "srv_waits self s b c cb H cbu w \<Longrightarrow> \<not> active (app w) \<Longrightarrow> list_all2 (carries cap) sessions pss \<Longrightarrow>
    \<exists>w' cbu'. server_sessions E L sg sessions w = Inr ((), w') \<and> srv_waits self s b c cb H cbu' w' \<and>
      \<not> active (app w') \<and> uv w' = uv w @ concat (map (\<lambda>_. session_log b cb) sessions) \<and>
      out_file (app w') = out_file (app w) @ concat (map server_line (concat pss))"
proof (induction sessions arbitrary: pss cbu w)
  case Nil
  then show ?case by auto
next
  case (Cons bss rest)
  then obtain ps pss' where pss: "pss = ps # pss'" "carries cap bss ps" "list_all2 (carries cap) rest pss'"
    by (auto simp: list_all2_Cons1)
  from server_session_ok [OF ok H Cons.prems(1) env cap pss(2)] obtain w1 cbu1 where
    one: "server_session E L sg bss w = Inr ((), w1)" "srv_waits self s b c cb H cbu1 w1"
      "uv w1 = uv w @ session_log b cb"
      "app w1 = (app w)\<lparr>active := False, out_file := out_file (app w) @ concat (map server_line ps)\<rparr>" by blast
  have "\<not> active (app w1)" using one(4) by simp
  from Cons.IH [OF one(2) this pss(3)] one pss(1) show ?case by auto
qed

section \<open>The end\<close>

text \<open>
  A signal while no client is connected: \<open>signal_cb\<close> wakes \<open>async_cb\<close> up, and two rounds of \<open>idle_cb\<close>
  close the listening socket; the loop then reports the closed handles, one after the other.
\<close>

definition server_shutdown ::
    "(uv_log, server) env \<Rightarrow> uv_log loop_env \<Rightarrow> addr \<Rightarrow> handle \<Rightarrow> int \<Rightarrow> ((uv_log, server) world, unit) prog" where
  "server_shutdown E L self h signum =
     seq (signal_cb L h signum)
     (seq (async_cb L (Async self))
     (seq (closed (Async self))
     (seq (idle_cb (server_env E L) L (Idle self))
     (seq (idle_cb (server_env E L) L (Idle self))
     (seq (closed (Idle self))
     (seq (bnd (gets app) (\<lambda>srv. via_socket (srv_socket srv) (stream_closed (server_env E L))))
     (seq (closed (Sigterm self))
     (closed (Sigint self)))))))))"

definition shutdown_log :: "addr \<Rightarrow> addr \<Rightarrow> uv_log" where
  "shutdown_log self b =
     [Send (Async self), Close (Async self), Closed (Async self), Close (Idle self), Close (Stream b),
      Closed (Idle self), Closed (Stream b), Close (Sigterm self), Close (Sigint self),
      Closed (Sigterm self), Closed (Sigint self)]"

lemma server_shutdown_ok:
  assumes ok: "srv_ok self s b c cb u r bu H0" and H: "H = srv_heap lp self s b c cb u r str bu H0"
    and w: "srv_waits self s b c cb H cbu w" "\<not> active (app w)"
    and env: "uv_logs E" "loop_logs L" "loop_grants L"
    and sig: "h \<in> {Sigterm self, Sigint self}" "signum \<in> {SIGTERM, SIGINT}"
  shows "server_shutdown E L self h signum w =
    Inr ((), w\<lparr>app := (app w)\<lparr>terminate := SERVER\<rparr>, uv := uv w @ shutdown_log self b,
        heap := H0(self \<mapsto> Uv_data lp, s \<mapsto> Sock (srv_sock self s b), b \<mapsto> Buv bu,
          c \<mapsto> Sock (clt_sock self c cb), cb \<mapsto> Buv cbu)\<rparr>)"
proof -
  note h = srv_heap_simps [OF ok H]
  have hw: "heap w = H(cb \<mapsto> Buv cbu)"
    using w by (auto simp: srv_waits_def rx_idle_def)
  have dist: "distinct [self, s, b, c, cb, u, Suc u]" and free: "H0 u = None" "H0 (Suc u) = None"
    and r: "uri_str r = Some (Suc u)" and bu: "uv_watcher bu = s" "stream_data bu = Some b"
    using ok by (simp_all add: srv_ok_def)
  have st: "srv_app self s c (app w)" "terminate (app w) = NOTSET" "backend w = Some Buv_funcs"
    using w by (simp_all add: srv_waits_def)
  let ?H1 = "H0(self \<mapsto> Uv_data lp, s \<mapsto> Sock (srv_sock self s b), b \<mapsto> Buv bu,
          c \<mapsto> Sock (clt_sock self c cb), cb \<mapsto> Buv cbu)"
  let ?w1 = "w\<lparr>app := (app w)\<lparr>terminate := SERVER\<rparr>,
      uv := uv w @ [Send (Async self), Close (Async self), Closed (Async self), Close (Idle self)]\<rparr>"
  have heap1: "(heap w)(Suc u := None, u := None, s \<mapsto> Sock (srv_sock self s b)) = ?H1"
    using dist free unfolding hw H srv_heap_def by (auto simp: fun_eq_iff)
  have bare: "srv_sock self s b\<lparr>sock_uri := None\<rparr> = srv_sock self s b"
    by (simp add: srv_sock_def new_sock_def)
  let ?w2 = "?w1\<lparr>uv := uv ?w1 @ [Close (Stream b)], heap := ?H1\<rparr>"
  have lk: "heap w self = Some (Uv_data lp)" "heap w s = Some (Sock ((srv_sock self s b)\<lparr>sock_uri := Some u\<rparr>))"
      "heap w b = Some (Buv bu)" "heap w u = Some (Uri r)" "heap w (Suc u) = Some (Str str)"
    using hw h(1-3,5,6) dist by auto
  have close: "close_socket (server_env E L) (Some s) ?w1 = Inr ((), ?w2)"
    using close_socket_addressed [of ?w1 s "(srv_sock self s b)\<lparr>sock_uri := Some u\<rparr>" b bu u r "Suc u" str
        "server_env E L"] lk heap1 bare st(3) r env(1) by simp
  let ?w3 = "?w2\<lparr>uv := uv ?w2 @ [Closed (Idle self), Closed (Stream b)]\<rparr>"
  have lk2: "?H1 self = Some (Uv_data lp)" "?H1 s = Some (Sock (srv_sock self s b))" "?H1 b = Some (Buv bu)"
    using dist by auto
  have fired: "close_wrap (server_env E L) b ?w3 =
      Inr ((), ?w3\<lparr>uv := uv ?w3 @ [Close (Sigterm self), Close (Sigint self)]\<rparr>)"
    using lk2 bu env(2)
    by (simp add: close_wrap_def via_data_simp fire_defs server_on_close_def sc_socket_get_userdata_def)
  let ?v = "\<lambda>t us. w\<lparr>app := (app w)\<lparr>terminate := t\<rparr>, uv := uv w @ Send (Async self) # us\<rparr>"
  have "signal_cb L h signum w = Inr ((), w\<lparr>uv := uv w @ [Send (Async self)]\<rparr>)"
    using sig st(1,2) lk(1) env(2,3) by (auto simp: signal_cb_def srv_app_def)
  moreover have "async_cb L (Async self) (w\<lparr>uv := uv w @ [Send (Async self)]\<rparr>) =
      Inr ((), ?v CLIENT [Close (Async self)])"
    using st(1) lk(1) env(2) by (simp add: async_cb_def srv_app_def)
  moreover have "idle_cb (server_env E L) L (Idle self) (?v CLIENT us) = Inr ((), ?v SERVER us)" for us
    using st(1) lk(1) w(2) by (simp add: idle_cb_def srv_app_def)
  moreover have "idle_cb (server_env E L) L (Idle self) (?v SERVER [Close (Async self), Closed (Async self)]) =
      Inr ((), ?w2)"
    using st(1) lk(1) env(2) close by (simp add: idle_cb_def srv_app_def)
  ultimately show ?thesis
    using fired lk2(2) st(1)
    by (simp add: server_shutdown_def stream_closed_def srv_app_def shutdown_log_def)
qed

lemma server_end_ok:
  assumes ok: "srv_ok self s b c cb u r bu H0"
    and hw: "heap w = H0(self \<mapsto> Uv_data lp, s \<mapsto> Sock (srv_sock self s b), b \<mapsto> Buv bu,
          c \<mapsto> Sock (clt_sock self c cb), cb \<mapsto> Buv cbu)"
    and w: "srv_app self s c (app w)" "backend w = Some Buv_funcs" "status (uv w) = (\<lambda>_. Absent)"
    and env: "loop_logs L" "loop_grants L"
  shows "server_end E L self 0 w = Inr (0, w\<lparr>heap := H0\<rparr>)"
proof -
  have dist: "distinct [self, s, b, c, cb]" and free: "H0 self = None" "H0 s = None" "H0 b = None"
      "H0 c = None" "H0 cb = None"
    using ok by (auto simp: srv_ok_def)
  have h: "heap w self = Some (Uv_data lp)" "heap w s = Some (Sock (srv_sock self s b))"
      "heap w b = Some (Buv bu)" "heap w c = Some (Sock (clt_sock self c cb))" "heap w cb = Some (Buv cbu)"
    using dist unfolding hw by auto
  let ?w1 = "w\<lparr>heap := (heap w)(cb := None, c := None)\<rparr>"
  let ?w2 = "w\<lparr>heap := (heap w)(cb := None, c := None, b := None, s := None)\<rparr>"
  have d1: "sc_socket_del E c w = Inr ((), ?w1)"
    by (rule socket_del_bare [OF h(4) _ h(5) w(2)]) simp_all
  have h1: "heap ?w1 s = Some (Sock (srv_sock self s b))" "heap ?w1 b = Some (Buv bu)"
      "heap ?w2 self = Some (Uv_data lp)"
    using h dist by auto
  have d2: "sc_socket_del E s ?w1 = Inr ((), ?w2)"
    using socket_del_bare [OF h1(1) _ h1(2)] w(2) by simp
  have gone: "(heap w)(cb := None, c := None, b := None, s := None, self := None) = H0"
    using free unfolding hw by (auto simp: fun_eq_iff)
  have end1: "loop_end L self 0 w = Inr ((), w)"
    using h(1) w(3) env by (simp add: loop_end_def)
  show ?thesis
    using end1 d1 d2 h(1) h1(3) w(1) gone by (simp add: server_end_def server_del_def srv_app_def)
qed

section \<open>The program\<close>

text \<open>
  A run of \<open>main\<close>: the start; the connections, one after the other; a signal; the end. The result is the
  exit code.
\<close>

definition server_main ::
    "(uv_log, server) env \<Rightarrow> uv_log loop_env \<Rightarrow> (string \<Rightarrow> bool) \<Rightarrow> string list \<Rightarrow> addr \<Rightarrow> u64 \<Rightarrow>
     bytes list list \<Rightarrow> bool \<Rightarrow> ((uv_log, server) world, int) prog" where
  "server_main E L creates argv lp sg sessions intr =
     bnd (server_start E L creates argv lp) (\<lambda>self.
     seq (server_sessions E L sg sessions)
     (seq (if intr then server_shutdown E L self (Sigint self) SIGINT
           else server_shutdown E L self (Sigterm self) SIGTERM)
     (server_end E L self 0)))"

lemma sessions_log:
  assumes "st (Stream b) = Open" and "st (Stream cb) = Absent"
  shows "fold hstep (concat (map (\<lambda>_. session_log b cb) ss)) st = st \<and>
    legals st (concat (map (\<lambda>_. session_log b cb) ss))"
proof (induction ss)
  case (Cons x ss)
  have "b \<noteq> cb" using assms by auto
  then have "fold hstep (session_log b cb) st = st" "legals st (session_log b cb)"
    using assms by (auto simp: session_log_def)
  with Cons show ?case by (simp add: legals_append)
qed simp

lemma server_log:
  assumes "b \<noteq> cb"
  shows "status (srv_inits self b @ concat (map (\<lambda>_. session_log b cb) ss) @ shutdown_log self b) = (\<lambda>_. Absent)"
    and "well_used (srv_inits self b @ concat (map (\<lambda>_. session_log b cb) ss) @ shutdown_log self b)"
proof -
  let ?st = "status (srv_inits self b)"
  have st: "?st = (\<lambda>_. Absent)(Async self := Open, Sigterm self := Open, Sigint self := Open,
      Idle self := Open, Stream b := Open)"
    by (simp add: srv_inits_def handle_inits_def status_def)
  have l: "well_used (srv_inits self b)"
    by (simp add: srv_inits_def handle_inits_def well_used_def)
  have mid: "fold hstep (concat (map (\<lambda>_. session_log b cb) ss)) ?st = ?st"
      "legals ?st (concat (map (\<lambda>_. session_log b cb) ss))"
    using sessions_log [of ?st b cb ss] assms by (simp_all add: st)
  have fin: "fold hstep (shutdown_log self b) ?st = (\<lambda>_. Absent)" "legals ?st (shutdown_log self b)"
    by (auto simp: st shutdown_log_def fun_eq_iff)
  show "status (srv_inits self b @ concat (map (\<lambda>_. session_log b cb) ss) @ shutdown_log self b) = (\<lambda>_. Absent)"
    using mid fin by (simp only: status_append fold_append comp_apply)
  show "well_used (srv_inits self b @ concat (map (\<lambda>_. session_log b cb) ss) @ shutdown_log self b)"
    using l mid fin by (simp only: well_used_append legals_append simp_thms)
qed

section \<open>Properties\<close>


definition blank_server :: server where
  "blank_server = \<lparr>handle_data = (\<lambda>_. None), srv_socket = None, clt_server = None, clt_socket = None,
     active = True, terminate = SERVER, out_file = []\<rparr>"


end
