(* ===== verification/Client.thy ===== *)
theory Client
  imports Test_Loop
begin

text \<open>
  The client of the tests, \<open>test/client.c\<close>, on the library's own functions: it connects to a server,
  sends the lines of a file, one message each and one at a time, and ends at the end of the file or on
  a signal.
\<close>

section \<open>State\<close>

definition MSG_MAX_SIZE :: nat where "MSG_MAX_SIZE = 1024"

text \<open>
  The members of \<open>struct client\<close> after \<open>uv\<close>, and the stream \<open>input\<close>: the bytes not read yet, whether what
  comes after them is an error rather than the end of the file, and the two indicators of the stream.
\<close>

record client = loop_app +
  msg :: "addr option"
  sock :: "addr option"
  terminate :: bool
  input_eof :: bool
  ready_send :: bool
  in_rest :: bytes
  in_fails :: bool
  in_eof :: bool
  in_error :: bool

definition set_clt :: "(client \<Rightarrow> client) \<Rightarrow> (('u, client) world, unit) prog" where
  "set_clt f = upd (\<lambda>w. w\<lparr>app := f (app w)\<rparr>)"

section \<open>The input\<close>

text \<open>
  What \<open>fgets\<close> with a buffer of \<open>n\<close> bytes reads: up to and including a newline, at most \<open>n - 1\<close> bytes;
  and whether it looks past the last byte for more.
\<close>

definition fgets_chunk :: "nat \<Rightarrow> bytes \<Rightarrow> bytes" where
  "fgets_chunk n bs = take (n - 1) (takeWhile (\<lambda>b. b \<noteq> 10) bs @ take 1 (dropWhile (\<lambda>b. b \<noteq> 10) bs))"

definition fgets_runs_out :: "nat \<Rightarrow> bytes \<Rightarrow> bool" where
  "fgets_runs_out n bs \<longleftrightarrow> length bs < n - 1 \<and> (\<forall>b \<in> set bs. b \<noteq> 10)"

text \<open>\<open>fgets(msg->data, n, input)\<close>: it fails if it meets an error, or the end of the file at once.\<close>

definition fgets :: "addr \<Rightarrow> nat \<Rightarrow> (('u, client) world, bool) prog" where
  "fgets a n =
     bnd (gets app) (\<lambda>c.
     let chunk = fgets_chunk n (in_rest c); short = fgets_runs_out n (in_rest c) in
     if short \<and> in_fails c then
       seq (set_clt (\<lambda>c. c\<lparr>in_rest := [], in_error := True\<rparr>)) (ret False)
     else if chunk = [] then seq (set_clt (in_eof_update (\<lambda>_. True))) (ret False)
     else
       bnd (load_msg a) (\<lambda>m.
       if length (msg_data m) < length chunk + 1 then fail Out_Of_Bounds
       else
         seq (store a (Msg (m\<lparr>msg_data := splice 0 (chunk @ [0]) (msg_data m)\<rparr>)))
         (seq (set_clt (\<lambda>c. c\<lparr>in_rest := drop (length chunk) (in_rest c), in_eof := in_eof c \<or> short\<rparr>))
         (ret True))))"

text \<open>
  \<open>msg_setup\<close> is called with the message's own data as the string: the length is that of the string
  there, and \<open>memcpy\<close> copies it onto itself.
\<close>

definition msg_setup :: "('u, client) env \<Rightarrow> addr \<Rightarrow> (('u, client) world, unit) prog" where
  "msg_setup E a =
     bnd (load_msg a) (\<lambda>m.
     let str = takeWhile (\<lambda>b. b \<noteq> 0) (msg_data m) in
     if str = msg_data m then fail Out_Of_Bounds
     else sc_msg_set_size E a (of_nat (length str)))"

section \<open>Callbacks of the handles\<close>

definition async_cb :: "'u loop_env \<Rightarrow> handle \<Rightarrow> (('u, client) world, unit) prog" where
  "async_cb L h =
     via_handle h (\<lambda>self.
     seq (set_clt (terminate_update (\<lambda>_. True))) (close_handle L (Async self)))"

definition signal_cb :: "'u loop_env \<Rightarrow> handle \<Rightarrow> int \<Rightarrow> (('u, client) world, unit) prog" where
  "signal_cb L h signum =
     seq (dbg_assert (signum = SIGTERM \<or> signum = SIGINT))
     (via_handle h (\<lambda>self.
      bnd (gets app) (\<lambda>c.
      if terminate c then ret ()
      else must ''uv_async_send'' (uv_call (uv_async_send L (Async self))))))"

definition idle_send :: "('u, client) env \<Rightarrow> addr \<Rightarrow> (('u, client) world, unit) prog" where
  "idle_send E a =
     seq (msg_setup E a)
     (bnd (gets app) (\<lambda>c.
      bnd (deref (sock c)) (\<lambda>s.
      seq (must ''sc_socket_send'' (sc_socket_send E s a))
      (seq (set_clt (ready_send_update (\<lambda>_. False)))
      (set_clt (\<lambda>c. c\<lparr>input_eof := in_eof c\<rparr>))))))"

definition idle_finish :: "'u loop_env \<Rightarrow> addr \<Rightarrow> (('u, client) world, unit) prog" where
  "idle_finish L self =
     bnd (gets app) (\<lambda>c.
     if in_error c then fatal ''input error''
     else
       seq (set_clt (\<lambda>c. c\<lparr>input_eof := in_eof c\<rparr>))
       (bnd (gets app) (\<lambda>c.
        if \<not> input_eof c then fatal ''input error''
        else must ''uv_async_send'' (uv_call (uv_async_send L (Async self))))))"

definition idle_cb ::
    "('u, client) env \<Rightarrow> 'u loop_env \<Rightarrow> handle \<Rightarrow> (('u, client) world, unit) prog" where
  "idle_cb E L h =
     via_handle h (\<lambda>self.
     bnd (gets app) (\<lambda>c.
     if terminate c then seq (close_handle L (Idle self)) (close_socket E (sock c))
     else if \<not> input_eof c \<and> ready_send c then
       bnd (deref (msg c)) (\<lambda>a.
       bnd (fgets a MSG_MAX_SIZE) (\<lambda>got. if got then idle_send E a else idle_finish L self))
     else ret ()))"

section \<open>Callbacks of the socket\<close>

definition on_connect_cb :: "addr \<Rightarrow> int \<Rightarrow> (('u, client) world, unit) prog" where
  "on_connect_cb socket errcode =
     (if errcode \<noteq> 0 then fatal ''errcode''
      else
        bnd (sc_socket_get_userdata socket) (\<lambda>client.
        via_struct client (\<lambda>_. set_clt (ready_send_update (\<lambda>_. True)))))"

definition on_recv_cb ::
    "('u, client) env \<Rightarrow> addr \<Rightarrow> addr option \<Rightarrow> int \<Rightarrow> (('u, client) world, unit) prog" where
  "on_recv_cb E socket m errcode =
     (if errcode \<noteq> 0 then fatal ''errcode''
      else
        case m of
          None \<Rightarrow>
            bnd (sc_socket_get_userdata socket) (\<lambda>client.
            via_struct client (\<lambda>_. bnd (gets app) (\<lambda>c. close_socket E (sock c))))
        | Some _ \<Rightarrow> ret ())"

definition on_send_cb :: "addr \<Rightarrow> int \<Rightarrow> (('u, client) world, unit) prog" where
  "on_send_cb socket errcode =
     (if errcode \<noteq> 0 then fatal ''errcode''
      else
        bnd (sc_socket_get_userdata socket) (\<lambda>client.
        via_struct client (\<lambda>_. set_clt (ready_send_update (\<lambda>_. True)))))"

definition on_close_cb :: "'u loop_env \<Rightarrow> addr \<Rightarrow> (('u, client) world, unit) prog" where
  "on_close_cb L socket =
     bnd (sc_socket_get_userdata socket) (\<lambda>client.
     via_struct client (\<lambda>self.
     seq (close_handle L (Sigterm self)) (close_handle L (Sigint self))))"

text \<open>The functions of the program, by name.\<close>

definition client_env :: "('u, client) env \<Rightarrow> 'u loop_env \<Rightarrow> ('u, client) env" where
  "client_env E L =
     E\<lparr>call_event := \<lambda>f. if f = ''on_connect'' then on_connect_cb
         else if f = ''on_send'' then on_send_cb else call_event E f,
       call_recv := \<lambda>f. if f = ''on_recv'' then on_recv_cb E else call_recv E f,
       call_close := \<lambda>f. if f = ''on_close'' then on_close_cb L else call_close E f\<rparr>"

section \<open>Start and end\<close>

definition client_new :: "('u, client) env \<Rightarrow> addr \<Rightarrow> (('u, client) world, addr) prog" where
  "client_new E lp =
     bnd (malloc (Uv_data lp)) (\<lambda>p.
     case p of
       None \<Rightarrow> fatal ''not enough memory''
     | Some self \<Rightarrow>
         bnd (sc_msg_alloc E (of_nat MSG_MAX_SIZE)) (\<lambda>a.
         seq (set_clt (msg_update (\<lambda>_. a)))
         (if a = None then fatal ''not enough memory'' else ret self)))"

definition client_init ::
    "('u, client) env \<Rightarrow> 'u loop_env \<Rightarrow> addr \<Rightarrow> (('u, client) world, unit) prog" where
  "client_init E L self =
     seq (handles_init L self)
     (bnd (socket_or_fatal E) (\<lambda>s.
      seq (set_clt (sock_update (\<lambda>_. Some s)))
      (seq (sc_socket_set_userdata s (Some self))
      (seq (sc_socket_on_connect s (User_fn ''on_connect''))
      (seq (sc_socket_on_recv s (User_fn ''on_recv''))
      (seq (sc_socket_on_send s (User_fn ''on_send''))
      (seq (sc_socket_on_close s (User_fn ''on_close''))
      (set_clt (\<lambda>c. c\<lparr>terminate := False, input_eof := False, ready_send := False\<rparr>)))))))))"

definition client_del :: "('u, client) env \<Rightarrow> addr \<Rightarrow> (('u, client) world, unit) prog" where
  "client_del E self =
     via_struct (Some self) (\<lambda>_.
     bnd (gets app) (\<lambda>c.
     seq (bnd (deref (sock c)) (sc_socket_del E))
     (seq (sc_msg_free E (msg c))
     (c_free (Some self)))))"

definition usage :: "('w, 'x) prog" where
  "usage = fail (Exited 1 [])"

text \<open>\<open>files\<close> gives the bytes of the files that can be opened.\<close>

definition parse_args :: "(string \<Rightarrow> bytes option) \<Rightarrow> string list \<Rightarrow> (('u, client) world, string) prog" where
  "parse_args files argv =
     (if length argv \<noteq> 3 then usage
      else
        case files (argv ! 2) of
          None \<Rightarrow> fatal ''failed to open input''
        | Some bs \<Rightarrow>
            seq (set_clt (\<lambda>c. c\<lparr>in_rest := bs, in_eof := False, in_error := False\<rparr>)) (ret (argv ! 1)))"

definition client_connect ::
    "('u, client) env \<Rightarrow> addr \<Rightarrow> string \<Rightarrow> (('u, client) world, unit) prog" where
  "client_connect E self uri =
     bnd (gets app) (\<lambda>c.
     bnd (deref (sock c)) (\<lambda>s. must ''sc_socket_connect'' (sc_socket_connect E s uri)))"

text \<open>\<open>main\<close> up to \<open>uv_run\<close>, and from there on.\<close>

definition client_start ::
    "('u, client) env \<Rightarrow> 'u loop_env \<Rightarrow> (string \<Rightarrow> bytes option) \<Rightarrow> string list \<Rightarrow> addr \<Rightarrow>
     (('u, client) world, addr) prog" where
  "client_start E L files argv lp =
     bnd (parse_args files argv) (\<lambda>uri.
     bnd (client_new E lp) (\<lambda>self.
     seq (sc_init SC_LIBUV (Some self) None None)
     (seq (client_init E L self)
     (seq (client_connect E self uri)
     (ret self)))))"

definition client_end ::
    "('u, client) env \<Rightarrow> 'u loop_env \<Rightarrow> addr \<Rightarrow> int \<Rightarrow> (('u, client) world, int) prog" where
  "client_end E L self res = seq (loop_end L self res) (seq (client_del E self) (ret 0))"

section \<open>The lines of the input\<close>

lemma fgets_chunk_prefix: "take (length (fgets_chunk n bs)) bs = fgets_chunk n bs"
proof -
  let ?p = "takeWhile (\<lambda>b. b \<noteq> 10) bs @ take 1 (dropWhile (\<lambda>b. b \<noteq> 10) bs)"
  have "bs = ?p @ drop 1 (dropWhile (\<lambda>b. b \<noteq> 10) bs)" by simp
  moreover have "take (length (take m p)) (p @ q) = take m p" for m and p q :: bytes
    by (simp add: min_def)
  ultimately show ?thesis
    unfolding fgets_chunk_def by metis
qed

lemma fgets_chunk_empty: "1 < n \<Longrightarrow> fgets_chunk n bs = [] \<longleftrightarrow> bs = []"
  by (cases bs) (auto simp: fgets_chunk_def)

lemma length_fgets_chunk: "length (fgets_chunk n bs) \<le> n - 1"
  by (simp add: fgets_chunk_def)

function lines_of :: "bytes \<Rightarrow> bytes list" where
  "lines_of bs =
     (if bs = [] then []
      else fgets_chunk MSG_MAX_SIZE bs # lines_of (drop (length (fgets_chunk MSG_MAX_SIZE bs)) bs))"
  by pat_completeness auto
termination
proof (relation "measure length")
  fix bs :: bytes
  assume "bs \<noteq> []"
  moreover from this have "fgets_chunk MSG_MAX_SIZE bs \<noteq> []"
    by (simp add: fgets_chunk_empty MSG_MAX_SIZE_def)
  ultimately show "(drop (length (fgets_chunk MSG_MAX_SIZE bs)) bs, bs) \<in> measure length"
    by simp
qed simp

declare lines_of.simps [simp del]

lemma lines_of_Nil [simp]: "lines_of [] = []"
  by (simp add: lines_of.simps)

lemma lines_of_step:
  "bs \<noteq> [] \<Longrightarrow> lines_of bs =
    fgets_chunk MSG_MAX_SIZE bs # lines_of (drop (length (fgets_chunk MSG_MAX_SIZE bs)) bs)"
  by (subst lines_of.simps) simp

text \<open>The lines are the input, cut after each newline and after 1023 bytes at the latest.\<close>

lemma concat_lines_of: "concat (lines_of bs) = bs"
proof (induction bs rule: lines_of.induct)
  case (1 bs)
  then show ?case
  proof (cases "bs = []")
    case False
    let ?l = "fgets_chunk MSG_MAX_SIZE bs"
    have "concat (lines_of bs) = take (length ?l) bs @ drop (length ?l) bs"
      using False 1 by (simp add: lines_of_step fgets_chunk_prefix)
    then show ?thesis by simp
  qed simp
qed

lemma length_lines_of: "l \<in> set (lines_of bs) \<Longrightarrow> length l < MSG_MAX_SIZE"
proof (induction bs rule: lines_of.induct)
  case (1 bs)
  then show ?case
    using length_fgets_chunk [of MSG_MAX_SIZE bs]
    by (subst (asm) lines_of.simps) (auto simp: MSG_MAX_SIZE_def split: if_splits)
qed

text \<open>The message of a line: a string, so up to a NUL.\<close>

definition line_msg :: "bytes \<Rightarrow> bytes" where
  "line_msg l = takeWhile (\<lambda>b. b \<noteq> 0) l"

lemma length_line_msg: "length (line_msg l) \<le> length l"
  by (simp add: line_msg_def length_takeWhile_le)

text \<open>An input whose last line is complete: \<open>fgets\<close> meets the end of the file only when nothing is left.\<close>

definition complete :: "bytes \<Rightarrow> bool" where
  "complete bs \<longleftrightarrow> bs = [] \<or> last bs = 10"

lemma complete_Nil [simp]: "complete []"
  by (simp add: complete_def)

lemma complete_runs_out: "complete bs \<Longrightarrow> fgets_runs_out n bs \<Longrightarrow> bs = []"
  by (cases bs rule: rev_cases) (auto simp: complete_def fgets_runs_out_def)

lemma complete_drop: "complete bs \<Longrightarrow> complete (drop k bs)"
  by (cases "k < length bs") (auto simp: complete_def last_drop)

section \<open>Preparing a message\<close>

lemma msg_setup_ok:
  assumes "ctb_network_order E" and "msg_data mm = splice 0 (l @ [0]) d" and "length l < 2 ^ 32"
  defines "mm' \<equiv> mm\<lparr>size_be := be_bytes (of_nat (length (line_msg l)))\<rparr>"
  shows "heap w a = Some (Msg mm) \<Longrightarrow> msg_setup E a w = Inr ((), w\<lparr>heap := (heap w)(a \<mapsto> Msg mm')\<rparr>)"
    and "unat (msg_size E mm') = length (line_msg l)"
    and "take (length (line_msg l)) (msg_data mm') = line_msg l"
proof -
  have str: "takeWhile (\<lambda>b. b \<noteq> 0) (msg_data mm) = line_msg l"
    unfolding assms(2) splice_def line_msg_def
    by (cases "\<forall>b \<in> set l. b \<noteq> 0") (auto simp: takeWhile_append takeWhile_eq_all_conv [THEN iffD2])
  have nul: "0 \<in> set (msg_data mm)" by (simp add: assms(2) splice_def)
  show "heap w a = Some (Msg mm) \<Longrightarrow> msg_setup E a w = Inr ((), w\<lparr>heap := (heap w)(a \<mapsto> Msg mm')\<rparr>)"
    using assms(1) str nul by (auto simp: msg_setup_def sc_msg_set_size_wire mm'_def Let_def)
  have "length (line_msg l) < 2 ^ 32"
    using assms(3) length_line_msg [of l] by linarith
  then show "unat (msg_size E mm') = length (line_msg l)"
    using assms(1) by (simp add: unat_msg_size mm'_def unat_of_nat)
  show "take (length (line_msg l)) (msg_data mm') = line_msg l"
    using str takeWhile_eq_take [of "\<lambda>b. b \<noteq> 0" "msg_data mm"] by (metis mm'_def sc_msg.select_convs(2) sc_msg.surjective sc_msg.update_convs(1))
qed

section \<open>The running program\<close>

text \<open>
  Where the running client keeps what it allocated: its structure with the loop, the message, the socket
  with its backend structure and, until it is closed, its address; and the heap it started from.
\<close>

record clt_addrs =
  at_loop :: addr
  at_self :: addr
  at_msg :: addr
  at_sock :: addr
  at_buv :: addr
  at_uri :: addr
  parsed :: uri
  address :: string
  heap0 :: "addr \<rightharpoonup> obj"

definition clt_sock :: "addr \<Rightarrow> addr \<Rightarrow> addr \<Rightarrow> addr option \<Rightarrow> sc_socket" where
  "clt_sock self s b p = (new_sock s b)\<lparr>userdata := Some self, sock_uri := p,
     sock_watcher := (sc_watcher_init s)\<lparr>on_connect := User_fn ''on_connect'', on_recv := User_fn ''on_recv'',
       on_send := User_fn ''on_send'', on_close := User_fn ''on_close''\<rparr>\<rparr>"

lemma clt_sock_simps [simp]:
  "userdata (clt_sock self s b p) = Some self" "sock_backend (clt_sock self s b p) = Some b"
  "sock_uri (clt_sock self s b p) = p" "watcher_socket (sock_watcher (clt_sock self s b p)) = s"
  "on_connect (sock_watcher (clt_sock self s b p)) = User_fn ''on_connect''"
  "on_send (sock_watcher (clt_sock self s b p)) = User_fn ''on_send''"
  "on_close (sock_watcher (clt_sock self s b p)) = User_fn ''on_close''"
  "(clt_sock self s b p)\<lparr>sock_uri := q\<rparr> = clt_sock self s b q"
  by (simp_all add: clt_sock_def new_sock_def)

definition clt_heap :: "clt_addrs \<Rightarrow> socket_uv \<Rightarrow> sc_msg \<Rightarrow> bool \<Rightarrow> (addr \<rightharpoonup> obj)" where
  "clt_heap A bu mm open =
     (heap0 A)(at_self A \<mapsto> Uv_data (at_loop A), at_msg A \<mapsto> Msg mm,
       at_sock A \<mapsto> Sock (clt_sock (at_self A) (at_sock A) (at_buv A) (if open then Some (at_uri A) else None)),
       at_buv A \<mapsto> Buv bu, at_uri A := (if open then Some (Uri (parsed A)) else None),
       Suc (at_uri A) := (if open then Some (Str (address A)) else None))"

definition clt_apart :: "clt_addrs \<Rightarrow> bool" where
  "clt_apart A \<longleftrightarrow>
     distinct [at_self A, at_msg A, at_sock A, at_buv A, at_uri A, Suc (at_uri A)] \<and>
     (\<forall>a \<in> {at_self A, at_msg A, at_sock A, at_buv A, at_uri A, Suc (at_uri A)}. heap0 A a = None) \<and>
     uri_str (parsed A) = Some (Suc (at_uri A))"

lemma clt_heap_simps:
  assumes "clt_apart A"
  shows "clt_heap A bu mm open (at_self A) = Some (Uv_data (at_loop A))"
    "clt_heap A bu mm open (at_msg A) = Some (Msg mm)"
    "clt_heap A bu mm open (at_sock A) = Some (Sock (clt_sock (at_self A) (at_sock A) (at_buv A)
       (if open then Some (at_uri A) else None)))"
    "clt_heap A bu mm open (at_buv A) = Some (Buv bu)"
    "open \<Longrightarrow> clt_heap A bu mm open (at_uri A) = Some (Uri (parsed A))"
    "open \<Longrightarrow> clt_heap A bu mm open (Suc (at_uri A)) = Some (Str (address A))"
    "(clt_heap A bu mm open)(at_msg A \<mapsto> Msg mm') = clt_heap A bu mm' open"
    "(clt_heap A bu mm open)(at_buv A \<mapsto> Buv bu') = clt_heap A bu' mm open"
    "(clt_heap A bu mm True)(Suc (at_uri A) := None, at_uri A := None,
       at_sock A \<mapsto> Sock (clt_sock (at_self A) (at_sock A) (at_buv A) None)) = clt_heap A bu mm False"
  using assms by (auto simp: clt_heap_def clt_apart_def fun_eq_iff)

definition clt_app :: "clt_addrs \<Rightarrow> client \<Rightarrow> bool" where
  "clt_app A c \<longleftrightarrow> msg c = Some (at_msg A) \<and> sock c = Some (at_sock A) \<and>
     (\<forall>h \<in> {Async (at_self A), Sigterm (at_self A), Sigint (at_self A), Idle (at_self A)}.
        handle_data c h = Some (at_self A))"

abbreviation stream_open :: "clt_addrs \<Rightarrow> (uv_log, client) world \<Rightarrow> bool" where
  "stream_open A w \<equiv> status (uv w) (Stream (at_buv A)) = Open"

definition clt_fix :: "clt_addrs \<Rightarrow> (uv_log, client) world \<Rightarrow> socket_uv \<Rightarrow> sc_msg \<Rightarrow> bool" where
  "clt_fix A w bu mm \<longleftrightarrow> clt_apart A \<and> heap w = clt_heap A bu mm (stream_open A w) \<and>
     uv_watcher bu = at_sock A \<and> stream_data bu = Some (at_buv A) \<and> connect_data bu = Some (at_buv A) \<and>
     write_data bu = Some (at_buv A) \<and> length (size_be mm) = 4 \<and> length (msg_data mm) = MSG_MAX_SIZE \<and>
     backend w = Some Buv_funcs \<and> msg_free w = Default_heap_free \<and> clt_app A (app w)"

lemma clt_fixD:
  assumes "clt_fix A w bu mm"
  shows "heap w (at_self A) = Some (Uv_data (at_loop A))" "heap w (at_msg A) = Some (Msg mm)"
    "heap w (at_sock A) = Some (Sock (clt_sock (at_self A) (at_sock A) (at_buv A)
       (if stream_open A w then Some (at_uri A) else None)))"
    "heap w (at_buv A) = Some (Buv bu)"
    "stream_open A w \<Longrightarrow> heap w (at_uri A) = Some (Uri (parsed A))"
    "stream_open A w \<Longrightarrow> heap w (Suc (at_uri A)) = Some (Str (address A))"
    "msg (app w) = Some (at_msg A)" "sock (app w) = Some (at_sock A)"
    "handle_data (app w) (Async (at_self A)) = Some (at_self A)"
    "handle_data (app w) (Sigterm (at_self A)) = Some (at_self A)"
    "handle_data (app w) (Sigint (at_self A)) = Some (at_self A)"
    "handle_data (app w) (Idle (at_self A)) = Some (at_self A)"
    "backend w = Some Buv_funcs"
    "uv_watcher bu = at_sock A" "stream_data bu = Some (at_buv A)" "connect_data bu = Some (at_buv A)"
    "write_data bu = Some (at_buv A)"
  using assms clt_heap_simps [of A] by (simp_all add: clt_fix_def clt_app_def)

lemma client_env_simps [simp]:
  "call_event (client_env E L) ''on_connect'' = on_connect_cb"
  "call_event (client_env E L) ''on_send'' = on_send_cb"
  "call_close (client_env E L) ''on_close'' = on_close_cb L"
  by (simp_all add: client_env_def)

lemma set_clt_apply [simp]: "set_clt f w = Inr ((), w\<lparr>app := f (app w)\<rparr>)"
  by (simp add: set_clt_def)

text \<open>What each event does to the running client.\<close>

lemma connect_event:
  assumes "clt_fix A w bu mm"
  shows "on_connect_wrap (client_env E L) (at_buv A) e w =
    (if e \<noteq> 0 then Inl (Exited 1 (fatal_text ''errcode''))
     else Inr ((), w\<lparr>app := (app w)\<lparr>ready_send := True\<rparr>\<rparr>))"
  using clt_fixD [OF assms]
  by (simp add: on_connect_wrap_def via_data_simp fire_defs on_connect_cb_def sc_socket_get_userdata_def)

lemma write_event:
  assumes "clt_fix A w bu mm"
  shows "write_wrap (client_env E L) (at_buv A) e w =
    (if e \<noteq> 0 then Inl (Exited 1 (fatal_text ''errcode''))
     else Inr ((), w\<lparr>app := (app w)\<lparr>ready_send := True\<rparr>\<rparr>))"
  using clt_fixD [OF assms]
  by (simp add: write_wrap_def via_data_simp fire_defs on_send_cb_def sc_socket_get_userdata_def)

lemma signal_event:
  assumes "clt_fix A w bu mm" and "h \<in> {Sigterm (at_self A), Sigint (at_self A)}"
    and "signum \<in> {SIGTERM, SIGINT}" and "loop_logs L"
  shows "signal_cb L h signum w =
    (if terminate (app w) then Inr ((), w)
     else if fst (uv_async_send L (Async (at_self A)) (uv w)) \<noteq> 0
     then Inl (Exited 1 (fatal_text ''uv_async_send''))
     else Inr ((), w\<lparr>uv := uv w @ [Send (Async (at_self A))]\<rparr>))"
  using clt_fixD [OF assms(1)] assms(2-4) by (auto simp: signal_cb_def must_def)

lemma async_event:
  assumes "clt_fix A w bu mm" and "loop_logs L"
  shows "async_cb L (Async (at_self A)) w =
    Inr ((), w\<lparr>app := (app w)\<lparr>terminate := True\<rparr>, uv := uv w @ [Close (Async (at_self A))]\<rparr>)"
  using clt_fixD [OF assms(1)] assms(2) by (simp add: async_cb_def)

lemma stream_closed_event:
  assumes "clt_fix A w bu mm" and "loop_logs L"
  shows "stream_closed (client_env E L) (at_buv A) w =
    Inr ((), w\<lparr>uv := uv w @ [Closed (Stream (at_buv A)), Close (Sigterm (at_self A)), Close (Sigint (at_self A))]\<rparr>)"
  using clt_fixD [OF assms(1)] assms(2)
  by (simp add: stream_closed_def close_wrap_def via_data_simp fire_defs on_close_cb_def
      sc_socket_get_userdata_def)

lemma idle_stop:
  assumes "clt_fix A w bu mm" and "loop_logs L" and "uv_logs E" and "terminate (app w)" and "stream_open A w"
  shows "idle_cb E L (Idle (at_self A)) w =
    Inr ((), w\<lparr>uv := uv w @ [Close (Idle (at_self A)), Close (Stream (at_buv A))],
      heap := clt_heap A bu mm False\<rparr>)"
proof -
  note d = clt_fixD [OF assms(1)]
  let ?w = "w\<lparr>uv := uv w @ [Close (Idle (at_self A))]\<rparr>"
  have ap: "clt_apart A" and hw: "heap w = clt_heap A bu mm True"
    using assms(1,5) by (simp_all add: clt_fix_def)
  have "close_socket E (Some (at_sock A)) ?w =
    Inr ((), ?w\<lparr>uv := uv_close E (at_buv A) (uv ?w),
      heap := (heap ?w)(Suc (at_uri A) := None, at_uri A := None,
        at_sock A \<mapsto> Sock ((clt_sock (at_self A) (at_sock A) (at_buv A) (Some (at_uri A)))\<lparr>sock_uri := None\<rparr>))\<rparr>)"
    by (rule close_socket_addressed [where r = "parsed A" and str = "address A" and bu = bu])
      (use d assms(5) ap in \<open>simp_all add: clt_apart_def\<close>)
  then show ?thesis
    using d assms(2-4) clt_heap_simps(9) [OF ap, of bu mm] hw by (simp add: idle_cb_def)
qed

lemma idle_wait:
  assumes "clt_fix A w bu mm" and "\<not> terminate (app w)" and "input_eof (app w) \<or> \<not> ready_send (app w)"
  shows "idle_cb E L (Idle (at_self A)) w = Inr ((), w)"
  using clt_fixD [OF assms(1)] assms(2,3) by (auto simp: idle_cb_def)

text \<open>The end of the input, an error instead of it, and a line.\<close>

lemma idle_eof:
  assumes "clt_fix A w bu mm" and "\<not> terminate (app w)" and "\<not> input_eof (app w)" and "ready_send (app w)"
    and "in_rest (app w) = []" and "\<not> in_fails (app w)" and "\<not> in_error (app w)" and "loop_logs L"
  shows "idle_cb E L (Idle (at_self A)) w =
    (if fst (uv_async_send L (Async (at_self A)) (uv w)) \<noteq> 0
     then Inl (Exited 1 (fatal_text ''uv_async_send''))
     else Inr ((), w\<lparr>app := (app w)\<lparr>in_eof := True, input_eof := True\<rparr>,
       uv := uv w @ [Send (Async (at_self A))]\<rparr>))"
  using clt_fixD [OF assms(1)] assms(2-)
  by (auto simp: idle_cb_def fgets_def fgets_chunk_def idle_finish_def must_def Let_def)

lemma idle_error:
  assumes "clt_fix A w bu mm" and "\<not> terminate (app w)" and "\<not> input_eof (app w)" and "ready_send (app w)"
    and "fgets_runs_out MSG_MAX_SIZE (in_rest (app w))" and "in_fails (app w)"
  shows "idle_cb E L (Idle (at_self A)) w = Inl (Exited 1 (fatal_text ''input error''))"
  using clt_fixD [OF assms(1)] assms(2-)
  by (simp add: idle_cb_def fgets_def idle_finish_def Let_def)

definition line_sent :: "sc_msg \<Rightarrow> bytes \<Rightarrow> sc_msg" where
  "line_sent mm l = mm\<lparr>msg_data := splice 0 (l @ [0]) (msg_data mm),
     size_be := be_bytes (of_nat (length (line_msg l)))\<rparr>"

lemma line_sent_ok:
  fixes E :: "('u, client) env"
  assumes "ctb_network_order E" and "length l < length (msg_data mm)" and "length (msg_data mm) < 2 ^ 32"
  shows "length (size_be (line_sent mm l)) = 4" "length (msg_data (line_sent mm l)) = length (msg_data mm)"
    "sendable E (line_sent mm l)"
    "take (unat (msg_size E (line_sent mm l))) (msg_data (line_sent mm l)) = line_msg l"
proof -
  let ?mm = "mm\<lparr>msg_data := splice 0 (l @ [0]) (msg_data mm)\<rparr>"
  have e: "line_sent mm l = ?mm\<lparr>size_be := be_bytes (of_nat (length (line_msg l)))\<rparr>"
    by (simp add: line_sent_def)
  have l: "length l < 2 ^ 32" using assms(2,3) by linarith
  have dat: "msg_data ?mm = splice 0 (l @ [0]) (msg_data mm)" by simp
  note s = msg_setup_ok(2,3) [OF assms(1) dat l, folded e]
  show "length (size_be (line_sent mm l)) = 4" "length (msg_data (line_sent mm l)) = length (msg_data mm)"
    using assms(2) by (simp_all add: line_sent_def)
  show "take (unat (msg_size E (line_sent mm l))) (msg_data (line_sent mm l)) = line_msg l"
    using s by simp
  show "sendable E (line_sent mm l)"
    using s(1) assms(2) length_line_msg [of l] by (simp add: sendable_def line_sent_def)
qed

lemma idle_line:
  assumes fx: "clt_fix A w bu mm" and "\<not> terminate (app w)" and "\<not> input_eof (app w)" and "ready_send (app w)"
    and rest: "in_rest (app w) \<noteq> []" and "\<not> (fgets_runs_out MSG_MAX_SIZE (in_rest (app w)) \<and> in_fails (app w))"
    and env: "ctb_network_order E" "uv_logs E"
  defines "l \<equiv> fgets_chunk MSG_MAX_SIZE (in_rest (app w))"
  defines "bufs \<equiv> send_buffers (at_msg A) (msg_size E (line_sent mm l))"
  defines "fin \<equiv> in_eof (app w) \<or> fgets_runs_out MSG_MAX_SIZE (in_rest (app w))"
  shows "idle_cb E L (Idle (at_self A)) w =
    (if fst (uv_write E (at_buv A) bufs (uv w)) \<noteq> 0
     then Inl (Exited 1 (fatal_text ''sc_socket_send''))
     else Inr ((), w\<lparr>heap := clt_heap A (bu\<lparr>write_buffers := bufs\<rparr>) (line_sent mm l) (stream_open A w),
       app := (app w)\<lparr>in_rest := drop (length l) (in_rest (app w)), in_eof := fin, ready_send := False,
         input_eof := fin\<rparr>,
       uv := uv w @ [Write (Stream (at_buv A)) bufs]\<rparr>))"
proof -
  note d = clt_fixD [OF fx]
  have ap: "clt_apart A" and hw: "heap w = clt_heap A bu mm (stream_open A w)"
    and len: "length (msg_data mm) = 1024"
    using fx by (simp_all add: clt_fix_def MSG_MAX_SIZE_def)
  have l: "l \<noteq> []" "length l < 1024"
    using rest length_fgets_chunk [of MSG_MAX_SIZE "in_rest (app w)"]
    by (auto simp: l_def fgets_chunk_empty MSG_MAX_SIZE_def)
  let ?mm = "mm\<lparr>msg_data := splice 0 (l @ [0]) (msg_data mm)\<rparr>"
  let ?w1 = "w\<lparr>heap := clt_heap A bu ?mm (stream_open A w),
      app := (app w)\<lparr>in_rest := drop (length l) (in_rest (app w)), in_eof := fin\<rparr>\<rparr>"
  have got: "fgets (at_msg A) MSG_MAX_SIZE w = Inr (True, ?w1)"
    using d(2) l len assms(6) clt_heap_simps(7) [OF ap, of bu mm "stream_open A w" ?mm] hw
    by (auto simp: fgets_def l_def [symmetric] fin_def Let_def)
  have m1: "heap ?w1 (at_msg A) = Some (Msg ?mm)" using clt_heap_simps(2) [OF ap] by simp
  have "length l < 2 ^ 32" using l(2) by simp
  from msg_setup_ok(1) [OF env(1) _ this m1]
  have prep: "msg_setup E (at_msg A) ?w1 =
      Inr ((), ?w1\<lparr>heap := clt_heap A bu (line_sent mm l) (stream_open A w)\<rparr>)"
    using clt_heap_simps(7) [OF ap, of bu ?mm "stream_open A w"] by (simp add: line_sent_def)
  let ?w2 = "?w1\<lparr>heap := clt_heap A bu (line_sent mm l) (stream_open A w)\<rparr>"
  have send: "sc_socket_send E (at_sock A) (at_msg A) ?w2 =
    Inr (fst (uv_write E (at_buv A) bufs (uv w)),
      ?w2\<lparr>heap := clt_heap A (bu\<lparr>write_buffers := bufs\<rparr>) (line_sent mm l) (stream_open A w),
        uv := uv w @ [Write (Stream (at_buv A)) bufs]\<rparr>)"
    using clt_heap_simps [OF ap] d(13) env(2) buv_send_ok [of ?w2 "at_buv A" bu "at_msg A" "line_sent mm l" E]
    by (simp add: sc_socket_send_def bufs_def)
  show ?thesis
    using d(1,7,8,12) assms(2-4) got prep send by (simp add: idle_cb_def idle_send_def must_def)
qed

end
