(* ===== verification/Client_Runs.thy ===== *)
theory Client_Runs
  imports Client
begin

text \<open>
  Runs of the client of the tests: its events in any order, as a step relation; the invariant; and that it
  comes to an end.
\<close>

section \<open>Every order of events\<close>

text \<open>
  A state: the world; the bytes that went over the wire; the writes libuv has not finished; whether it is
  still connecting. libuv calls back for handles that are open, in any order; it may take the bytes of a
  write as late as just before it reports it. Signals arrive only if \<open>sig\<close>. An event whose callback ends
  the program has no successor.
\<close>

type_synonym clt_state = "(uv_log, client) world \<times> bytes \<times> uv_buf list list \<times> bool"

fun writes :: "uv_log \<Rightarrow> uv_buf list list" where
  "writes [] = []"
| "writes (Write h bufs # u) = bufs # writes u"
| "writes (_ # u) = writes u"

inductive client_step ::
    "bool \<Rightarrow> (uv_log, client) env \<Rightarrow> uv_log loop_env \<Rightarrow> addr \<Rightarrow> addr \<Rightarrow> clt_state \<Rightarrow> clt_state \<Rightarrow> bool"
  for sig :: bool and E :: "(uv_log, client) env" and L :: "uv_log loop_env" and self :: addr and b :: addr where
  connected: "status (uv w) (Stream b) = Open \<Longrightarrow> on_connect_wrap (client_env E L) b e w = Inr ((), w') \<Longrightarrow>
    client_step sig E L self b (w, wire, fl, True) (w', wire, fl, False)"
| idle: "status (uv w) (Idle self) = Open \<Longrightarrow> idle_cb E L (Idle self) w = Inr ((), w') \<Longrightarrow>
    client_step sig E L self b (w, wire, fl, c) (w', wire, fl @ writes (drop (length (uv w)) (uv w')), c)"
| written: "status (uv w) (Stream b) = Open \<Longrightarrow> gather_all w bufs = Inr bs \<Longrightarrow>
    write_wrap (client_env E L) b e w = Inr ((), w') \<Longrightarrow>
    client_step sig E L self b (w, wire, bufs # fl, c) (w', wire @ bs, fl, c)"
| signal: "sig \<Longrightarrow> h \<in> {Sigterm self, Sigint self} \<Longrightarrow> status (uv w) h = Open \<Longrightarrow> signum \<in> {SIGTERM, SIGINT} \<Longrightarrow>
    signal_cb L h signum w = Inr ((), w') \<Longrightarrow>
    client_step sig E L self b (w, wire, fl, c) (w', wire, fl, c)"
| async: "status (uv w) (Async self) = Open \<Longrightarrow> Send (Async self) \<in> set (uv w) \<Longrightarrow>
    async_cb L (Async self) w = Inr ((), w') \<Longrightarrow>
    client_step sig E L self b (w, wire, fl, c) (w', wire, fl, c)"
| handle_closed: "h \<in> {Async self, Idle self, Sigterm self, Sigint self} \<Longrightarrow> status (uv w) h = Closing \<Longrightarrow>
    closed h w = Inr ((), w') \<Longrightarrow>
    client_step sig E L self b (w, wire, fl, c) (w', wire, fl, c)"
| socket_closed: "status (uv w) (Stream b) = Closing \<Longrightarrow>
    stream_closed (client_env E L) b w = Inr ((), w') \<Longrightarrow>
    client_step sig E L self b (w, wire, [], False) (w', wire, [], False)"

section \<open>The invariant\<close>

text \<open>The handles: when each may be open.\<close>

definition clt_handles :: "clt_addrs \<Rightarrow> (uv_log, client) world \<Rightarrow> bool" where
  "clt_handles A w \<longleftrightarrow>
     (let st = status (uv w); self = at_self A in
      (st (Async self) = Open \<longleftrightarrow> \<not> terminate (app w)) \<and>
      (st (Idle self) = Open \<longleftrightarrow> stream_open A w) \<and>
      (\<not> stream_open A w \<longrightarrow> terminate (app w)) \<and>
      (st (Sigterm self) = Open \<longleftrightarrow> st (Stream (at_buv A)) \<noteq> Absent) \<and>
      (st (Sigint self) = Open \<longleftrightarrow> st (Stream (at_buv A)) \<noteq> Absent) \<and>
      (\<forall>h. h \<notin> {Async self, Idle self, Sigterm self, Sigint self, Stream (at_buv A)} \<longrightarrow> st h = Absent))"

text \<open>The lines: those sent, of which the last may still be in the message, and those to come.\<close>

definition clt_lines ::
    "(uv_log, client) env \<Rightarrow> clt_addrs \<Rightarrow> bytes \<Rightarrow> sc_msg \<Rightarrow> bytes list \<Rightarrow> clt_state \<Rightarrow> bool" where
  "clt_lines E A inp mm sent = (\<lambda>(w, wire, fl, c).
     lines_of inp = sent @ lines_of (in_rest (app w)) \<and>
     (if fl = [] then wire = frames (map line_msg sent)
      else sent \<noteq> [] \<and> fl = [send_buffers (at_msg A) (msg_size E mm)] \<and>
        wire = frames (map line_msg (butlast sent)) \<and> sendable E mm \<and>
        take (unat (msg_size E mm)) (msg_data mm) = line_msg (last sent)) \<and>
     (ready_send (app w) \<longleftrightarrow> fl = [] \<and> \<not> c) \<and> (c \<longrightarrow> fl = []))"

definition clt_inv :: "(uv_log, client) env \<Rightarrow> clt_addrs \<Rightarrow> bytes \<Rightarrow> clt_state \<Rightarrow> bool" where
  "clt_inv E A inp st \<longleftrightarrow>
     (\<exists>bu mm sent. clt_fix A (fst st) bu mm \<and> clt_lines E A inp mm sent st) \<and>
     clt_handles A (fst st) \<and> well_used (uv (fst st)) \<and> \<not> in_error (app (fst st))"

lemma clt_invE:
  assumes "clt_inv E A inp (w, wire, fl, c)"
  obtains bu mm sent where "clt_fix A w bu mm" and "clt_lines E A inp mm sent (w, wire, fl, c)"
    and "clt_handles A w" and "well_used (uv w)" and "\<not> in_error (app w)"
  using assms by (auto simp: clt_inv_def)

lemma clt_invI:
  "clt_fix A w bu mm \<Longrightarrow> clt_lines E A inp mm sent (w, wire, fl, c) \<Longrightarrow> clt_handles A w \<Longrightarrow>
   well_used (uv w) \<Longrightarrow> \<not> in_error (app w) \<Longrightarrow> clt_inv E A inp (w, wire, fl, c)"
  unfolding clt_inv_def by auto

text \<open>A change of the application's flags or of the log leaves the rest of the invariant alone.\<close>

lemma clt_fix_app:
  "clt_fix A w bu mm \<Longrightarrow> clt_app A a \<Longrightarrow> clt_fix A (w\<lparr>app := a\<rparr>) bu mm"
  by (simp add: clt_fix_def)

lemma clt_fix_uv:
  "clt_fix A w bu mm \<Longrightarrow> status u (Stream (at_buv A)) = Open \<longleftrightarrow> stream_open A w \<Longrightarrow>
   clt_fix A (w\<lparr>uv := u\<rparr>) bu mm"
  by (simp add: clt_fix_def)

lemma inv_connected:
  assumes "clt_inv E A inp (w, wire, fl, True)" and "on_connect_wrap (client_env E L) (at_buv A) e w = Inr ((), w')"
  shows "clt_inv E A inp (w', wire, fl, False)"
  using assms(1)
proof (rule clt_invE)
  fix bu mm sent
  assume i: "clt_fix A w bu mm" "clt_lines E A inp mm sent (w, wire, fl, True)" "clt_handles A w"
    "well_used (uv w)" "\<not> in_error (app w)"
  have w': "w' = w\<lparr>app := (app w)\<lparr>ready_send := True\<rparr>\<rparr>"
    using connect_event [OF i(1), of E L e] assms(2) by (simp split: if_splits)
  show ?thesis
    unfolding w'
    by (rule clt_invI [where bu = bu and mm = mm and sent = sent])
      (use i in \<open>auto simp: clt_lines_def clt_handles_def Let_def clt_fix_def clt_app_def\<close>)
qed

lemma inv_written:
  assumes "clt_inv E A inp (w, wire, bufs # fl, c)" and "gather_all w bufs = Inr bs"
    and "write_wrap (client_env E L) (at_buv A) e w = Inr ((), w')" and "ctb_network_order E"
  shows "clt_inv E A inp (w', wire @ bs, fl, c)"
  using assms(1)
proof (rule clt_invE)
  fix bu mm sent
  assume i: "clt_fix A w bu mm" "clt_lines E A inp mm sent (w, wire, bufs # fl, c)" "clt_handles A w"
    "well_used (uv w)" "\<not> in_error (app w)"
  have w': "w' = w\<lparr>app := (app w)\<lparr>ready_send := True\<rparr>\<rparr>"
    using write_event [OF i(1), of E L e] assms(3) by (simp split: if_splits)
  have l: "sent \<noteq> []" "bufs = send_buffers (at_msg A) (msg_size E mm)" "fl = []" "\<not> c" "sendable E mm"
      "wire = frames (map line_msg (butlast sent))"
      "take (unat (msg_size E mm)) (msg_data mm) = line_msg (last sent)"
    using i(2) by (auto simp: clt_lines_def)
  have "gather_all w bufs = Inr (frame (payload E w (at_msg A)))"
    unfolding l(2) by (rule gather_send_buffers [OF assms(4) clt_fixD(2) [OF i(1)] l(5)])
  then have "bs = frame (line_msg (last sent))"
    using assms(2) l(7) clt_fixD(2) [OF i(1)] by (simp add: payload_def)
  then have "wire @ bs = frames (map line_msg (butlast sent @ [last sent]))"
    unfolding l(6) by (simp add: frames_def)
  then have "wire @ bs = frames (map line_msg sent)"
    using l(1) by simp
  then show ?thesis
    unfolding w'
    by (intro clt_invI [where bu = bu and mm = mm and sent = sent])
      (use i l in \<open>auto simp: clt_lines_def clt_handles_def Let_def clt_fix_def clt_app_def\<close>)
qed

lemma inv_signal:
  assumes "clt_inv E A inp (w, wire, fl, c)" and "h \<in> {Sigterm (at_self A), Sigint (at_self A)}"
    and "signum \<in> {SIGTERM, SIGINT}" and "signal_cb L h signum w = Inr ((), w')" and "loop_logs L"
  shows "clt_inv E A inp (w', wire, fl, c)"
  using assms(1)
proof (rule clt_invE)
  fix bu mm sent
  assume i: "clt_fix A w bu mm" "clt_lines E A inp mm sent (w, wire, fl, c)" "clt_handles A w"
    "well_used (uv w)" "\<not> in_error (app w)"
  show ?thesis
  proof (cases "terminate (app w)")
    case True
    then show ?thesis
      using signal_event [OF i(1) assms(2,3,5)] assms(1,4) by simp
  next
    case False
    then have w': "w' = w\<lparr>uv := uv w @ [Send (Async (at_self A))]\<rparr>"
      using signal_event [OF i(1) assms(2,3,5)] assms(4) by (simp split: if_splits)
    show ?thesis
      unfolding w'
      by (rule clt_invI [where bu = bu and mm = mm and sent = sent])
        (use i False in \<open>auto simp: clt_lines_def clt_handles_def Let_def clt_fix_def\<close>)
  qed
qed

lemma inv_async:
  assumes "clt_inv E A inp (w, wire, fl, c)" and "status (uv w) (Async (at_self A)) = Open"
    and "async_cb L (Async (at_self A)) w = Inr ((), w')" and "loop_logs L"
  shows "clt_inv E A inp (w', wire, fl, c)"
  using assms(1)
proof (rule clt_invE)
  fix bu mm sent
  assume i: "clt_fix A w bu mm" "clt_lines E A inp mm sent (w, wire, fl, c)" "clt_handles A w"
    "well_used (uv w)" "\<not> in_error (app w)"
  have w': "w' = w\<lparr>app := (app w)\<lparr>terminate := True\<rparr>, uv := uv w @ [Close (Async (at_self A))]\<rparr>"
    using async_event [OF i(1) assms(4)] assms(3) by simp
  show ?thesis
    unfolding w'
    by (rule clt_invI [where bu = bu and mm = mm and sent = sent])
      (use i assms(2) in \<open>auto simp: clt_lines_def clt_handles_def Let_def clt_fix_def clt_app_def\<close>)
qed

lemma inv_handle_closed:
  assumes "clt_inv E A inp (w, wire, fl, c)"
    and "h \<in> {Async (at_self A), Idle (at_self A), Sigterm (at_self A), Sigint (at_self A)}"
    and "status (uv w) h = Closing" and "closed h w = Inr ((), w')"
  shows "clt_inv E A inp (w', wire, fl, c)"
  using assms(1)
proof (rule clt_invE)
  fix bu mm sent
  assume i: "clt_fix A w bu mm" "clt_lines E A inp mm sent (w, wire, fl, c)" "clt_handles A w"
    "well_used (uv w)" "\<not> in_error (app w)"
  have w': "w' = w\<lparr>uv := uv w @ [Closed h]\<rparr>" using assms(4) by simp
  have ns: "h \<noteq> Stream (at_buv A)" using assms(2) by auto
  show ?thesis
    unfolding w'
  proof (rule clt_invI [where bu = bu and mm = mm and sent = sent])
    show "clt_fix A (w\<lparr>uv := uv w @ [Closed h]\<rparr>) bu mm"
      using ns by (intro clt_fix_uv [OF i(1)]) simp
    show "clt_handles A (w\<lparr>uv := uv w @ [Closed h]\<rparr>)"
      using assms(2,3) i(3) by (elim insertE emptyE) (simp_all add: clt_handles_def Let_def)
    show "well_used (uv (w\<lparr>uv := uv w @ [Closed h]\<rparr>))"
      using i(4) assms(3) by simp
  qed (use i in \<open>simp_all add: clt_lines_def\<close>)
qed

lemma inv_socket_closed:
  assumes "clt_inv E A inp (w, wire, [], False)" and "status (uv w) (Stream (at_buv A)) = Closing"
    and "stream_closed (client_env E L) (at_buv A) w = Inr ((), w')" and "loop_logs L"
  shows "clt_inv E A inp (w', wire, [], False)"
  using assms(1)
proof (rule clt_invE)
  fix bu mm sent
  assume i: "clt_fix A w bu mm" "clt_lines E A inp mm sent (w, wire, [], False)" "clt_handles A w"
    "well_used (uv w)" "\<not> in_error (app w)"
  have w': "w' = w\<lparr>uv := uv w @ [Closed (Stream (at_buv A)), Close (Sigterm (at_self A)), Close (Sigint (at_self A))]\<rparr>"
    using stream_closed_event [OF i(1) assms(4)] assms(3) by simp
  show ?thesis
    unfolding w'
    by (rule clt_invI [where bu = bu and mm = mm and sent = sent])
      (use i assms(2) in \<open>auto simp: clt_lines_def clt_handles_def Let_def clt_fix_def\<close>)
qed

text \<open>The idle callback: it closes, waits, asks for the end, or sends a line.\<close>

lemma idle_cases:
  assumes fx: "clt_fix A w bu mm" and ha: "clt_handles A w" and ne: "\<not> in_error (app w)"
    and op: "status (uv w) (Idle (at_self A)) = Open" and run: "idle_cb E L (Idle (at_self A)) w = Inr ((), w')"
    and env: "ctb_network_order E" "uv_logs E" "loop_logs L"
  obtains (stop) "terminate (app w)" "w' = w\<lparr>uv := uv w @ [Close (Idle (at_self A)), Close (Stream (at_buv A))],
      heap := clt_heap A bu mm False\<rparr>"
  | (wait) "\<not> terminate (app w)" "input_eof (app w) \<or> \<not> ready_send (app w)" "w' = w"
  | (eof) "\<not> terminate (app w)" "\<not> input_eof (app w)" "ready_send (app w)" "in_rest (app w) = []"
      "w' = w\<lparr>app := (app w)\<lparr>in_eof := True, input_eof := True\<rparr>, uv := uv w @ [Send (Async (at_self A))]\<rparr>"
  | (line) l bufs fin where "\<not> terminate (app w)" "\<not> input_eof (app w)" "ready_send (app w)"
      "in_rest (app w) \<noteq> []" "l = fgets_chunk MSG_MAX_SIZE (in_rest (app w))"
      "bufs = send_buffers (at_msg A) (msg_size E (line_sent mm l))"
      "fin \<longleftrightarrow> in_eof (app w) \<or> fgets_runs_out MSG_MAX_SIZE (in_rest (app w))"
      "w' = w\<lparr>heap := clt_heap A (bu\<lparr>write_buffers := bufs\<rparr>) (line_sent mm l) (stream_open A w),
       app := (app w)\<lparr>in_rest := drop (length l) (in_rest (app w)), in_eof := fin, ready_send := False,
         input_eof := fin\<rparr>,
       uv := uv w @ [Write (Stream (at_buv A)) bufs]\<rparr>"
proof -
  have so: "stream_open A w" using ha op by (simp add: clt_handles_def Let_def)
  consider "terminate (app w)" | "\<not> terminate (app w)" "input_eof (app w) \<or> \<not> ready_send (app w)"
    | "\<not> terminate (app w)" "\<not> input_eof (app w)" "ready_send (app w)" by blast
  then show thesis
  proof cases
    case 1
    then show thesis using stop idle_stop [OF fx env(3,2) _ so] run by simp
  next
    case 2
    then show thesis using wait idle_wait [OF fx, of E L] run by simp
  next
    case 3
    show thesis
    proof (cases "fgets_runs_out MSG_MAX_SIZE (in_rest (app w)) \<and> in_fails (app w)")
      case True
      then show thesis using idle_error [OF fx 3, of E L] run by simp
    next
      case False
      show thesis
      proof (cases "in_rest (app w) = []")
        case True
        then have "\<not> in_fails (app w)" using False by (simp add: fgets_runs_out_def MSG_MAX_SIZE_def)
        with True show thesis
          using eof [OF 3] idle_eof [OF fx 3 True _ ne env(3), of E] run by (simp split: if_splits)
      next
        case nonempty: False
        show thesis
          using line [OF 3 nonempty refl refl refl] idle_line [OF fx 3 nonempty False env(1,2), of L] run
          by (simp split: if_splits)
      qed
    qed
  qed
qed

lemma inv_idle:
  assumes "clt_inv E A inp (w, wire, fl, c)" and op: "status (uv w) (Idle (at_self A)) = Open"
    and run: "idle_cb E L (Idle (at_self A)) w = Inr ((), w')"
    and env: "ctb_network_order E" "uv_logs E" "loop_logs L"
  shows "clt_inv E A inp (w', wire, fl @ writes (drop (length (uv w)) (uv w')), c)"
  using assms(1)
proof (rule clt_invE)
  fix bu mm sent
  assume i: "clt_fix A w bu mm" "clt_lines E A inp mm sent (w, wire, fl, c)" "clt_handles A w"
    "well_used (uv w)" "\<not> in_error (app w)"
  have so: "stream_open A w" using i(3) op by (simp add: clt_handles_def Let_def)
  from i(1,3,5) op run env show ?thesis
  proof (cases rule: idle_cases)
    case stop
    have "clt_fix A w' bu mm"
      using i(1) unfolding stop(2) by (simp add: clt_fix_def)
    moreover have "clt_handles A w'"
      using i(3) op so stop by (simp add: clt_handles_def Let_def)
    moreover have "clt_lines E A inp mm sent (w', wire, fl, c)"
      using i(2) unfolding stop(2) by (simp add: clt_lines_def)
    ultimately show ?thesis
      using i(4,5) op so unfolding stop(2) by (simp add: clt_invI)
  next
    case wait
    then show ?thesis using assms(1) by simp
  next
    case eof
    have "clt_fix A w' bu mm"
      using i(1) unfolding eof(5) by (simp add: clt_fix_def clt_app_def)
    moreover have "clt_handles A w'"
      using i(3) unfolding eof(5) by (simp add: clt_handles_def Let_def)
    moreover have "clt_lines E A inp mm sent (w', wire, fl, c)"
      using i(2) unfolding eof(5) by (simp add: clt_lines_def)
    moreover have "well_used (uv w')"
      using i(3,4) eof(1) unfolding eof(5) by (simp add: clt_handles_def Let_def)
    ultimately show ?thesis
      using i(5) unfolding eof(5) by (simp add: clt_invI)
  next
    case (line l bufs fin)
    have fl: "fl = []" "\<not> c" "wire = frames (map line_msg sent)"
        "lines_of inp = sent @ lines_of (in_rest (app w))"
      using i(2) line(3) by (auto simp: clt_lines_def split: if_splits)
    have lenmm: "length (msg_data mm) = MSG_MAX_SIZE" using i(1) by (simp add: clt_fix_def)
    have "length l < MSG_MAX_SIZE"
      using length_fgets_chunk [of MSG_MAX_SIZE "in_rest (app w)"] line(5) by (simp add: MSG_MAX_SIZE_def)
    then have ls: "length (size_be (line_sent mm l)) = 4" "length (msg_data (line_sent mm l)) = MSG_MAX_SIZE"
        "sendable E (line_sent mm l)"
        "take (unat (msg_size E (line_sent mm l))) (msg_data (line_sent mm l)) = line_msg l"
      using line_sent_ok [OF env(1), of l mm] lenmm by (simp_all add: MSG_MAX_SIZE_def)
    have "clt_fix A w' (bu\<lparr>write_buffers := bufs\<rparr>) (line_sent mm l)"
      using i(1) ls(1,2) unfolding line(8) by (simp add: clt_fix_def clt_app_def)
    moreover have "clt_handles A w'"
      using i(3) unfolding line(8) by (simp add: clt_handles_def Let_def)
    moreover have "clt_lines E A inp (line_sent mm l) (sent @ [l]) (w', wire, [bufs], c)"
      using fl ls(3,4) line(6) lines_of_step [OF line(4)] unfolding line(8)
      by (simp add: clt_lines_def line(5) [symmetric])
    moreover have "well_used (uv w')"
      using i(4) so unfolding line(8) by simp
    moreover have "fl @ writes (drop (length (uv w)) (uv w')) = [bufs]"
      using fl(1) unfolding line(8) by simp
    ultimately show ?thesis
      using i(5) unfolding line(8) by (simp add: clt_invI)
  qed
qed

lemma inv_step:
  assumes "client_step sig E L (at_self A) (at_buv A) st st'" and "clt_inv E A inp st"
    and env: "ctb_network_order E" "uv_logs E" "loop_logs L"
  shows "clt_inv E A inp st'"
  using assms(1,2)
proof cases
  case connected
  show ?thesis
    using assms(2) unfolding connected(1,2) by (rule inv_connected [OF _ connected(4)])
next
  case idle
  show ?thesis
    using assms(2) unfolding idle(1,2) by (rule inv_idle [OF _ idle(3,4) env])
next
  case written
  show ?thesis
    using assms(2) unfolding written(1,2) by (rule inv_written [OF _ written(4,5) env(1)])
next
  case signal
  show ?thesis
    using assms(2) unfolding signal(1,2) by (rule inv_signal [OF _ signal(4,6,7) env(3)])
next
  case async
  show ?thesis
    using assms(2) unfolding async(1,2) by (rule inv_async [OF _ async(3,5) env(3)])
next
  case handle_closed
  show ?thesis
    using assms(2) unfolding handle_closed(1,2) by (rule inv_handle_closed [OF _ handle_closed(3-5)])
next
  case socket_closed
  show ?thesis
    using assms(2) unfolding socket_closed(1,2) by (rule inv_socket_closed [OF _ socket_closed(3,4) env(3)])
qed

lemma inv_steps:
  assumes "(client_step sig E L (at_self A) (at_buv A))\<^sup>*\<^sup>* st st'" and "clt_inv E A inp st"
    and "ctb_network_order E" "uv_logs E" "loop_logs L"
  shows "clt_inv E A inp st'"
  using assms(1,2)
proof (induction rule: rtranclp_induct)
  case (step y z)
  from inv_step [OF step.hyps(2) step.IH [OF step.prems] assms(3-5)] show ?case .
qed

section \<open>Starting\<close>

lemma client_init_ok:
  assumes "wf_heap w" and "backend w = Some Buv_funcs" and "\<forall>k. malloc_ok w k"
    and "loop_grants L" and "loop_logs L" and "heap w self = Some (Uv_data lp)"
  shows "client_init E L self w = Inr ((),
    w\<lparr>heap := (heap w)(fresh w \<mapsto> Sock (clt_sock self (fresh w) (Suc (fresh w)) None),
        Suc (fresh w) \<mapsto> Buv (inited_buv E (Suc (fresh w)) (fresh w) (junk_buv w))),
      fresh := Suc (Suc (fresh w)), uv := uv w @ handle_inits self,
      app := (app w)\<lparr>handle_data := own_handles self (handle_data (app w)), sock := Some (fresh w),
        terminate := False, input_eof := False, ready_send := False\<rparr>\<rparr>)"
proof -
  let ?w1 = "w\<lparr>uv := uv w @ handle_inits self,
      app := (app w)\<lparr>handle_data := own_handles self (handle_data (app w))\<rparr>\<rparr>"
  have "wf_heap ?w1" using assms(1) by (simp add: wf_heap_def)
  from uv_socket_new [OF this, of E] assms(2,3) handles_init_ok [OF assms(4-6)] show ?thesis
    by (simp add: client_init_def socket_or_fatal_def sc_socket_set_userdata_def sc_socket_on_connect_def
        sc_socket_on_recv_def sc_socket_on_send_def sc_socket_on_close_def fun_upd_twist
        clt_sock_def new_sock_def)
qed

lemma client_connect_ok:
  assumes "uv_logs E" and "uv_grants E" and "strdup_mallocs E" and "uri_parse E str = Inr (Inr (pr, x, y))"
    and "wf_heap w" and "backend w = Some Buv_funcs" and "\<forall>k. malloc_ok w k"
    and "buv_data w = Some d" and "heap w d = Some (Uv_data lp)"
    and "sock (app w) = Some s" and "live s b so bu w"
  shows "\<exists>bu'. client_connect E self str w = Inr ((),
      w\<lparr>fresh := Suc (Suc (fresh w)),
        heap := (heap w)(s \<mapsto> Sock (so\<lparr>sock_uri := Some (fresh w)\<rparr>), b \<mapsto> Buv bu',
          fresh w \<mapsto> Uri (parsed_uri (junk_uri w) (Suc (fresh w)) pr x y), Suc (fresh w) \<mapsto> Str str),
        uv := uv w @ [Init (Stream b), Connect (Stream b)]\<rparr>) \<and>
    uv_watcher bu' = s \<and> stream_data bu' = Some b \<and> connect_data bu' = Some b \<and> write_data bu' = Some b"
  using socket_connect_granted [OF assms(1-9,11)] assms(10) by (fastforce simp: client_connect_def)

lemma clt_heap_arrange:
  "distinct [self, m, s, b, u, v] \<Longrightarrow>
   H(self \<mapsto> A, m \<mapsto> M, s \<mapsto> S0, b \<mapsto> B0, s \<mapsto> S, b \<mapsto> B, u \<mapsto> U, v \<mapsto> V) =
   H(self \<mapsto> A, m \<mapsto> M, s \<mapsto> S, b \<mapsto> B, u \<mapsto> U, v \<mapsto> V)"
  by (auto simp: fun_eq_iff)

lemma client_start_ok:
  assumes sur: "surroundings E L w" and parse: "uri_parse E str = Inr (Inr (pr, x, y))"
    and inp: "files path = Some inp"
  shows "\<exists>A w'. client_start E L files [prog, str, path] lp w = Inr (at_self A, w') \<and> heap0 A = heap w \<and>
    clt_inv E A inp (w', [], [], True) \<and> clt_app A (app w') \<and> \<not> terminate (app w') \<and>
    \<not> input_eof (app w') \<and> in_rest (app w') = inp \<and> in_fails (app w') = in_fails (app w) \<and>
    \<not> in_eof (app w') \<and> (\<exists>v. uv w' = v @ [Connect (Stream (at_buv A))]) \<and>
    Send (Async (at_self A)) \<notin> set (uv w')"
proof -
  have wf: "wf_heap w" and mem: "\<forall>k. malloc_ok w k" and lg: "loop_grants L" "loop_logs L"
    and ug: "uv_logs E" "uv_grants E" and sd: "strdup_mallocs E" and ma: "msg_alloc w = Default_heap_alloc"
      "msg_free w = Default_heap_free" "uv w = []"
    using sur by (simp_all add: surroundings_def at_start_def)
  define f where "f = fresh w"
  have none: "heap w (k + f) = None" for k
    using wf by (simp add: f_def wf_heap_ge)
  define mm where "mm = \<lparr>size_be = map (junk_byte w) [0..<4], msg_data = map (junk_byte w) [4..<4 + MSG_MAX_SIZE]\<rparr>"
  let ?w1 = "w\<lparr>app := (app w)\<lparr>in_rest := inp, in_eof := False, in_error := False, msg := Some (Suc f)\<rparr>,
      heap := (heap w)(f \<mapsto> Uv_data lp, Suc f \<mapsto> Msg mm), fresh := Suc (Suc f),
      buv_data := Some f, backend := Some Buv_funcs\<rparr>"
  have wf1: "wf_heap ?w1"
    using wf by (auto simp: wf_heap_def f_def less_Suc_eq)
  let ?s = "Suc (Suc f)" and ?b = "Suc (Suc (Suc f))"
  let ?bu = "inited_buv E ?b ?s (junk_buv w)"
  let ?w2 = "?w1\<lparr>heap := (heap ?w1)(?s \<mapsto> Sock (clt_sock f ?s ?b None), ?b \<mapsto> Buv ?bu),
      fresh := Suc ?b, uv := handle_inits f,
      app := (app ?w1)\<lparr>handle_data := own_handles f (handle_data (app w)), sock := Some ?s,
        terminate := False, input_eof := False, ready_send := False\<rparr>\<rparr>"
  have i1: "client_init E L f ?w1 = Inr ((), ?w2)"
    using client_init_ok [OF wf1 _ _ lg, of f lp E] mem ma by simp
  have wf2: "wf_heap ?w2"
    using wf1 by (auto simp: wf_heap_def less_Suc_eq)
  let ?u = "Suc ?b"
  let ?r = "parsed_uri (junk_uri w) (Suc ?u) pr x y"
  have live: "live ?s ?b (clt_sock f ?s ?b None) ?bu ?w2"
    by (simp add: live_def inited_buv_def)
  obtain bu where
    i2: "client_connect E f str ?w2 = Inr ((),
      ?w2\<lparr>fresh := Suc (Suc ?u),
        heap := (heap ?w2)(?s \<mapsto> Sock (clt_sock f ?s ?b (Some ?u)), ?b \<mapsto> Buv bu, ?u \<mapsto> Uri ?r, Suc ?u \<mapsto> Str str),
        uv := handle_inits f @ [Init (Stream ?b), Connect (Stream ?b)]\<rparr>)"
    and bu: "uv_watcher bu = ?s" "stream_data bu = Some ?b" "connect_data bu = Some ?b" "write_data bu = Some ?b"
    using client_connect_ok [OF ug sd parse wf2 _ _ _ _ _ live, of f lp f] mem by auto
  define w3 where "w3 = ?w2\<lparr>fresh := Suc (Suc ?u),
        heap := (heap ?w2)(?s \<mapsto> Sock (clt_sock f ?s ?b (Some ?u)), ?b \<mapsto> Buv bu, ?u \<mapsto> Uri ?r, Suc ?u \<mapsto> Str str),
        uv := handle_inits f @ [Init (Stream ?b), Connect (Stream ?b)]\<rparr>"
  have "unat (of_nat MSG_MAX_SIZE :: u32) = MSG_MAX_SIZE"
    by (simp add: MSG_MAX_SIZE_def)
  then have new: "client_new E lp (w\<lparr>app := a\<rparr>) =
      Inr (f, w\<lparr>app := a\<lparr>msg := Some (Suc f)\<rparr>, heap := (heap w)(f \<mapsto> Uv_data lp, Suc f \<mapsto> Msg mm),
        fresh := Suc (Suc f)\<rparr>)" for a
    using mem ma(1)
    by (simp add: client_new_def malloc_def sc_msg_alloc_def default_heap_alloc_ok f_def [symmetric] mm_def)
  have run: "client_start E L files [prog, str, path] lp w = Inr (f, w3)"
    using inp new i1 i2
    by (simp add: client_start_def parse_args_def sc_init_def backend_uv_init_def backend_init_def
        sc_msg_init_allocator_def w3_def)
  define A where "A = \<lparr>at_loop = lp, at_self = f, at_msg = Suc f, at_sock = ?s, at_buv = ?b, at_uri = ?u,
     parsed = ?r, address = str, heap0 = heap w\<rparr>"
  have A: "at_loop A = lp" "at_self A = f" "at_msg A = Suc f" "at_sock A = ?s" "at_buv A = ?b" "at_uri A = ?u"
    "parsed A = ?r" "address A = str" "heap0 A = heap w"
    by (simp_all add: A_def)
  have ap: "clt_apart A"
    using none [of 0] none [of 1] none [of 2] none [of 3] none [of 4] none [of 5]
    by (simp add: clt_apart_def A parsed_uri_def numeral_eq_Suc)
  have st: "status (uv w3) = (\<lambda>_. Absent)(Async f := Open, Sigterm f := Open, Sigint f := Open,
      Idle f := Open, Stream ?b := Open)"
    by (simp add: w3_def handle_inits_def status_def)
  have wu: "well_used (uv w3)"
    by (simp add: w3_def handle_inits_def well_used_def)
  have H: "heap w3 = clt_heap A bu mm True"
    using clt_heap_arrange [of f "Suc f" ?s ?b ?u "Suc ?u" "heap w"] by (simp add: clt_heap_def A w3_def)
  have ac: "app w3 = (app w)\<lparr>in_rest := inp, in_eof := False, in_error := False, msg := Some (Suc f),
      handle_data := own_handles f (handle_data (app w)), sock := Some ?s,
        terminate := False, input_eof := False, ready_send := False\<rparr>"
    by (simp add: w3_def)
  have "backend w3 = Some Buv_funcs" "msg_free w3 = Default_heap_free"
    using ma by (simp_all add: w3_def)
  then have "clt_fix A w3 bu mm"
    using ap H st bu ac by (simp add: clt_fix_def clt_app_def A mm_def)
  moreover have "clt_lines E A inp mm [] (w3, [], [], True)"
    by (simp add: clt_lines_def ac)
  moreover have "clt_handles A w3"
    by (simp add: clt_handles_def A st ac Let_def)
  ultimately have "clt_inv E A inp (w3, [], [], True)"
    using wu by (intro clt_invI) (simp_all add: ac)
  moreover have "clt_app A (app w3)" "uv w3 = (handle_inits f @ [Init (Stream ?b)]) @ [Connect (Stream ?b)]"
    by (simp_all add: clt_app_def A ac w3_def)
  moreover have "Send (Async f) \<notin> set (uv w3)"
    by (simp add: w3_def handle_inits_def)
  ultimately show ?thesis
    using run by (intro exI [of _ A] exI [of _ w3]) (simp add: A ac del: append_assoc)
qed

section \<open>Coming to the end\<close>

lemma client_end_ok:
  assumes fx: "clt_fix A w bu mm" and st: "status (uv w) = (\<lambda>_. Absent)" and env: "loop_logs L" "loop_grants L"
  shows "client_end E L (at_self A) 0 w = Inr (0, w\<lparr>heap := heap0 A\<rparr>)"
proof -
  note d = clt_fixD [OF fx]
  have ap: "clt_apart A" and hw: "heap w = clt_heap A bu mm False" and mf: "msg_free w = Default_heap_free"
    using fx st by (simp_all add: clt_fix_def)
  have dist: "distinct [at_self A, at_msg A, at_sock A, at_buv A]" using ap by (simp add: clt_apart_def)
  have end1: "loop_end L (at_self A) 0 w = Inr ((), w)"
    using d(1) st env by (simp add: loop_end_def)
  let ?w1 = "w\<lparr>heap := (heap w)(at_buv A := None, at_sock A := None)\<rparr>"
  have d1: "sc_socket_del E (at_sock A) w = Inr ((), ?w1)"
    by (rule socket_del_bare [OF d(3) _ d(4,13)]) (simp_all add: st)
  let ?w2 = "w\<lparr>heap := (heap w)(at_buv A := None, at_sock A := None, at_msg A := None)\<rparr>"
  have m1: "heap ?w1 (at_msg A) \<noteq> None" "heap ?w2 (at_self A) = Some (Uv_data (at_loop A))"
    using d(1,2) dist by auto
  then have d2: "sc_msg_free E (Some (at_msg A)) ?w1 = Inr ((), ?w2)"
    using mf by (simp add: sc_msg_free_def default_heap_free_def)
  have gone: "(heap w)(at_buv A := None, at_sock A := None, at_msg A := None, at_self A := None) = heap0 A"
    using ap unfolding hw by (auto simp: clt_heap_def clt_apart_def fun_eq_iff)
  show ?thesis
    using end1 d d1 d2 m1(2) gone by (simp add: client_end_def client_del_def)
qed

text \<open>
  Without signals, for an input whose last line is complete: the loop is woken up exactly when the input
  has been read, which is when everything was sent.
\<close>

definition clt_quiet :: "clt_addrs \<Rightarrow> clt_state \<Rightarrow> bool" where
  "clt_quiet A = (\<lambda>(w, wire, fl, c).
     complete (in_rest (app w)) \<and> \<not> in_fails (app w) \<and> (terminate (app w) \<longrightarrow> input_eof (app w)) \<and>
     (in_eof (app w) \<longleftrightarrow> input_eof (app w)) \<and>
     (Send (Async (at_self A)) \<in> set (uv w) \<longleftrightarrow> input_eof (app w)) \<and>
     (input_eof (app w) \<longrightarrow> in_rest (app w) = [] \<and> fl = [] \<and> \<not> c))"

fun hweight :: "hstate \<Rightarrow> nat" where
  "hweight Open = 2"
| "hweight Closing = 1"
| "hweight Absent = 0"

lemma hweight_le: "hweight h \<le> 2"
  by (cases h) simp_all

definition clt_measure :: "clt_addrs \<Rightarrow> clt_state \<Rightarrow> nat" where
  "clt_measure A = (\<lambda>(w, wire, fl, c).
     (if c then 1 else 0) + 2 * length (lines_of (in_rest (app w))) + length fl +
     (if input_eof (app w) then 0 else 1) + hweight (status (uv w) (Async (at_self A))) +
     hweight (status (uv w) (Idle (at_self A))) + hweight (status (uv w) (Sigterm (at_self A))) +
     hweight (status (uv w) (Sigint (at_self A))) + hweight (status (uv w) (Stream (at_buv A))))"

lemma quiet_idle:
  assumes inv: "clt_inv E A inp (w, wire, fl, c)" and q: "clt_quiet A (w, wire, fl, c)"
    and op: "status (uv w) (Idle (at_self A)) = Open" and run: "idle_cb E L (Idle (at_self A)) w = Inr ((), w')"
    and env: "ctb_network_order E" "uv_logs E" "loop_logs L"
  defines "st' \<equiv> (w', wire, fl @ writes (drop (length (uv w)) (uv w')), c)"
  shows "clt_quiet A st' \<and> (st' = (w, wire, fl, c) \<or> clt_measure A st' < clt_measure A (w, wire, fl, c))"
  using inv
proof (rule clt_invE)
  fix bu mm sent
  assume i: "clt_fix A w bu mm" "clt_lines E A inp mm sent (w, wire, fl, c)" "clt_handles A w"
    "well_used (uv w)" "\<not> in_error (app w)"
  have so: "stream_open A w" using i(3) op by (simp add: clt_handles_def Let_def)
  from i(1,3,5) op run env show ?thesis
  proof (cases rule: idle_cases)
    case stop
    show ?thesis
      using q op so unfolding st'_def stop(2) by (simp add: clt_quiet_def clt_measure_def)
  next
    case wait
    then show ?thesis using q by (simp add: st'_def)
  next
    case eof
    have "fl = []" "\<not> c" using i(2) eof(3) by (simp_all add: clt_lines_def)
    then show ?thesis
      using q eof(1-4) unfolding st'_def eof(5) by (simp add: clt_quiet_def clt_measure_def)
  next
    case (line l bufs fin)
    have fl: "fl = []" "\<not> c" using i(2) line(3) by (simp_all add: clt_lines_def)
    have "complete (in_rest (app w))" using q by (simp add: clt_quiet_def)
    then have "\<not> fgets_runs_out MSG_MAX_SIZE (in_rest (app w))"
      using complete_runs_out line(4) by blast
    then have fin: "\<not> fin" using q line(2,7) by (simp add: clt_quiet_def)
    have "length (lines_of (in_rest (app w))) = Suc (length (lines_of (drop (length l) (in_rest (app w)))))"
      using lines_of_step [OF line(4)] line(5) by simp
    then show ?thesis
      using q fl fin line(1,2) unfolding st'_def line(8)
      by (simp add: clt_quiet_def clt_measure_def complete_drop)
  qed
qed

lemma quiet_step:
  assumes step: "client_step False E L (at_self A) (at_buv A) st st'" and inv: "clt_inv E A inp st"
    and q: "clt_quiet A st" and env: "ctb_network_order E" "uv_logs E" "loop_logs L"
  shows "clt_quiet A st' \<and> (st' = st \<or> clt_measure A st' < clt_measure A st)"
  using step
proof cases
  case (connected w e w' wire fl)
  from inv obtain bu mm where fx: "clt_fix A w bu mm" unfolding connected(1) by (rule clt_invE)
  then have "w' = w\<lparr>app := (app w)\<lparr>ready_send := True\<rparr>\<rparr>"
    using connect_event [OF fx, of E L e] connected(4) by (simp split: if_splits)
  then show ?thesis
    using q unfolding connected(1,2) by (auto simp add: clt_quiet_def clt_measure_def)
next
  case (idle w w' wire fl c)
  show ?thesis
    using inv q unfolding idle(1,2) by (rule quiet_idle [OF _ _ idle(3,4) env])
next
  case (written w bufs bs e w' wire fl c)
  from inv obtain bu mm where fx: "clt_fix A w bu mm" unfolding written(1) by (rule clt_invE)
  then have "w' = w\<lparr>app := (app w)\<lparr>ready_send := True\<rparr>\<rparr>"
    using write_event [OF fx, of E L e] written(5) by (simp split: if_splits)
  then show ?thesis
    using q unfolding written(1,2) by (auto simp add: clt_quiet_def clt_measure_def)
next
  case (async w w' wire fl c)
  from inv obtain bu mm where fx: "clt_fix A w bu mm" unfolding async(1) by (rule clt_invE)
  then have "w' = w\<lparr>app := (app w)\<lparr>terminate := True\<rparr>, uv := uv w @ [Close (Async (at_self A))]\<rparr>"
    using async_event [OF fx env(3)] async(5) by simp
  then show ?thesis
    using q async(3,4) unfolding async(1,2) by (simp add: clt_quiet_def clt_measure_def)
next
  case (handle_closed h w w' wire fl c)
  then have w': "w' = w\<lparr>uv := uv w @ [Closed h]\<rparr>" by simp
  have "clt_measure A (w', wire, fl, c) < clt_measure A (w, wire, fl, c)"
    using handle_closed(3,4) unfolding w' by (elim insertE emptyE) (simp_all add: clt_measure_def)
  moreover have "clt_quiet A (w', wire, fl, c)"
    using q unfolding handle_closed(1) w' by (simp add: clt_quiet_def)
  ultimately show ?thesis unfolding handle_closed(1,2) by simp
next
  case (socket_closed w w' wire)
  from inv obtain bu mm where fx: "clt_fix A w bu mm" and ha: "clt_handles A w"
    unfolding socket_closed(1) by (rule clt_invE)
  have w': "w' = w\<lparr>uv := uv w @ [Closed (Stream (at_buv A)), Close (Sigterm (at_self A)), Close (Sigint (at_self A))]\<rparr>"
    using stream_closed_event [OF fx env(3)] socket_closed(4) by simp
  show ?thesis
    using q ha socket_closed(3) unfolding socket_closed(1,2) w'
    by (simp add: clt_quiet_def clt_measure_def clt_handles_def Let_def)
qed simp

text \<open>As long as a handle is left, something can happen.\<close>

lemma quiet_progress:
  assumes inv: "clt_inv E A inp (w, wire, fl, c)" and q: "clt_quiet A (w, wire, fl, c)"
    and env: "ctb_network_order E" "uv_logs E" "loop_logs L" "uv_grants E" "loop_grants L"
    and left: "status (uv w) \<noteq> (\<lambda>_. Absent)"
  shows "\<exists>st'. client_step False E L (at_self A) (at_buv A) (w, wire, fl, c) st' \<and> st' \<noteq> (w, wire, fl, c)"
  using inv
proof (rule clt_invE)
  fix bu mm sent
  assume i: "clt_fix A w bu mm" "clt_lines E A inp mm sent (w, wire, fl, c)" "clt_handles A w"
    "well_used (uv w)" "\<not> in_error (app w)"
  let ?step = "client_step False E L (at_self A) (at_buv A) (w, wire, fl, c)"
  let ?self = "at_self A"
  note d = clt_fixD [OF i(1)]
  note h = i(3) [unfolded clt_handles_def Let_def]
  have grow: "w\<lparr>uv := uv w @ x # u\<rparr> \<noteq> w" for x u
    by (auto dest: arg_cong [of _ _ uv])
  consider (closing) h where "h \<in> {Async ?self, Idle ?self, Sigterm ?self, Sigint ?self}" "status (uv w) h = Closing"
    | (stream) "status (uv w) (Stream (at_buv A)) = Closing"
    | (running) "stream_open A w"
  proof -
    have "\<exists>h. status (uv w) h \<noteq> Absent" using left by auto
    then obtain h where "status (uv w) h \<noteq> Absent" "h \<in> {Async ?self, Idle ?self, Sigterm ?self, Sigint ?self, Stream (at_buv A)}"
      using h by blast
    moreover have "hs = Open \<or> hs = Closing \<or> hs = Absent" for hs by (cases hs) simp_all
    ultimately show thesis using h closing stream running by blast
  qed
  then show ?thesis
  proof cases
    case closing
    from handle_closed [OF closing closed_apply, where sig = False and b = "at_buv A"] grow show ?thesis by blast
  next
    case stream
    then have "terminate (app w)" using h by auto
    then have "fl = []" "c = False" using q by (auto simp: clt_quiet_def)
    with socket_closed [OF stream stream_closed_event [OF i(1) env(3)], where sig = False and self = ?self
        and wire = wire] grow
    show ?thesis by blast
  next
    case running
    have idle_open: "status (uv w) (Idle ?self) = Open" using h running by simp
    show ?thesis
    proof (cases "c \<or> fl \<noteq> []")
      case True
      then show ?thesis
      proof
        assume c: "c"
        have "on_connect_wrap (client_env E L) (at_buv A) 0 w = Inr ((), w\<lparr>app := app w\<lparr>ready_send := True\<rparr>\<rparr>)"
          using connect_event [OF i(1), of E L 0] by simp
        from connected [OF running this, where sig = False and self = ?self and wire = wire and fl = fl]
        have "?step (w\<lparr>app := app w\<lparr>ready_send := True\<rparr>\<rparr>, wire, fl, False)"
          using c by simp
        then show ?thesis using c by blast
      next
        assume "fl \<noteq> []"
        then obtain bufs where fl: "fl = [bufs]" and b: "bufs = send_buffers (at_msg A) (msg_size E mm)" "sendable E mm"
          using i(2) by (auto simp: clt_lines_def)
        have "gather_all w bufs = Inr (frame (payload E w (at_msg A)))"
          unfolding b(1) by (rule gather_send_buffers [OF env(1) d(2) b(2)])
        moreover have "write_wrap (client_env E L) (at_buv A) 0 w = Inr ((), w\<lparr>app := app w\<lparr>ready_send := True\<rparr>\<rparr>)"
          using write_event [OF i(1), of E L 0] by simp
        ultimately have "?step (w\<lparr>app := app w\<lparr>ready_send := True\<rparr>\<rparr>, wire @ frame (payload E w (at_msg A)), [], c)"
          unfolding fl by (rule written [OF running])
        then show ?thesis using fl by blast
      qed
    next
      case False
      then have fl: "fl = []" "\<not> c" and rs: "ready_send (app w)" using i(2) by (auto simp: clt_lines_def)
      have ie: "idle_cb E L (Idle ?self) w = Inr ((), w') \<Longrightarrow> (w', fl) \<noteq> (w, fl) \<Longrightarrow> ?thesis" for w'
        using idle [OF idle_open, where sig = False and b = "at_buv A"] by blast
      consider (go_on) "\<not> terminate (app w)" "\<not> input_eof (app w)" | (wake) "\<not> terminate (app w)" "input_eof (app w)"
        | (stop) "terminate (app w)" by blast
      then show ?thesis
      proof cases
        case go_on
        have nf: "\<not> in_fails (app w)" using q by (simp add: clt_quiet_def)
        show ?thesis
        proof (cases "in_rest (app w) = []")
          case True
          have "idle_cb E L (Idle ?self) w = Inr ((), w\<lparr>app := app w\<lparr>in_eof := True, input_eof := True\<rparr>,
              uv := uv w @ [Send (Async ?self)]\<rparr>)"
            using idle_eof [OF i(1) go_on rs True nf i(5) env(3), of E] env(5) by simp
          then show ?thesis by (rule ie) (auto dest: arg_cong [of _ _ uv])
        next
          case False
          have n: "\<not> (fgets_runs_out MSG_MAX_SIZE (in_rest (app w)) \<and> in_fails (app w))" using nf by simp
          show ?thesis
            using idle_line [OF i(1) go_on rs False n env(1,2), of L] env(4)
            by (intro ie) (auto dest: arg_cong [of _ _ uv])
        qed
      next
        case wake
        then have "Send (Async ?self) \<in> set (uv w)" "status (uv w) (Async ?self) = Open"
          using q h by (auto simp: clt_quiet_def)
        from async [OF this(2,1) async_event [OF i(1) env(3)], where sig = False and b = "at_buv A"]
        have "?step (w\<lparr>app := app w\<lparr>terminate := True\<rparr>, uv := uv w @ [Close (Async ?self)]\<rparr>, wire, fl, c)" .
        moreover have "w\<lparr>app := a, uv := uv w @ [Close (Async ?self)]\<rparr> \<noteq> w" for a
          by (auto dest: arg_cong [of _ _ uv])
        ultimately show ?thesis by blast
      next
        case stop
        from idle_stop [OF i(1) env(3,2) stop running] show ?thesis
          by (rule ie) (auto dest: arg_cong [of _ _ uv])
      qed
    qed
  qed
qed

lemma quiet_runs:
  assumes "((\<lambda>st st'. client_step False E L (at_self A) (at_buv A) st st' \<and> st' \<noteq> st) ^^ n) st0 st"
    and "clt_inv E A inp st0" and "clt_quiet A st0" and env: "ctb_network_order E" "uv_logs E" "loop_logs L"
  shows "clt_inv E A inp st \<and> clt_quiet A st \<and> n + clt_measure A st \<le> clt_measure A st0"
  using assms(1)
proof (induction n arbitrary: st)
  case (Suc n)
  from Suc.prems obtain st1 where r: "((\<lambda>st st'. client_step False E L (at_self A) (at_buv A) st st' \<and> st' \<noteq> st) ^^ n) st0 st1"
    and step: "client_step False E L (at_self A) (at_buv A) st1 st" "st \<noteq> st1" by auto
  from Suc.IH [OF r] quiet_step [OF step(1) _ _ env] inv_step [OF step(1) _ env] step(2) show ?case
    by fastforce
qed (use assms in simp)

text \<open>The frames of the lines are records \<open>disrec\<close> has room for.\<close>

lemma disrec_lines:
  "disrec_main e (\<lambda>f. if f = received then Some (frames (map line_msg (lines_of inp))) else None) [prog, received] =
    Inr (concat (map (\<lambda>l. record_line (length (line_msg l)) (line_msg l)) (lines_of inp)))"
proof -
  have "length (line_msg l) \<le> MAXSIZE" if "l \<in> set (lines_of inp)" for l
    using length_lines_of [OF that] length_line_msg [of l] by (simp add: MSG_MAX_SIZE_def MAXSIZE_def)
  then obtain m where "disrec_loop e (replicate MAXSIZE 0) [] (frames (map line_msg (lines_of inp))) =
      disrec_loop e m (concat (map (\<lambda>l. record_line (length (line_msg l)) (line_msg l)) (lines_of inp))) []"
    using disrec_frames_rest [of "map line_msg (lines_of inp)" "replicate MAXSIZE 0" e "[]" "[]"]
    by (auto simp: MAXSIZE_def comp_def)
  then show ?thesis
    by (simp add: disrec_main_def disrec_loop.simps)
qed

section \<open>Properties\<close>

text \<open>The socket's handle is the one the program asked last to connect.\<close>

text \<open>C14: The client, in every order of events, signals at any moment included: it uses its handles as libuv
  allows, none before it is initialised, none after it is closed and none closed twice. Never is more than
  one write under way, and until it is finished the message is left as it was handed over. What went over
  the wire are the frames of the first lines of the input, in order.\<close>

theorem client_safe:
  assumes "surroundings E L w0" and "uri_parse E str = Inr (Inr (pr, x, y))" and "files path = Some inp"
    and "client_start E L files [prog, str, path] lp w0 = Inr (self, w1)" and "last (uv w1) = Connect (Stream b)"
    and "(client_step True E L self b)\<^sup>*\<^sup>* (w1, [], [], True) (w, wire, fl, c)"
  shows "well_used (uv w) \<and>
    (\<exists>n \<le> length (lines_of inp). wire = frames (map line_msg (take n (lines_of inp))) \<and>
      (fl = [] \<or> n < length (lines_of inp) \<and>
        (\<exists>bufs. fl = [bufs] \<and> gather_all w bufs = Inr (frame (line_msg (lines_of inp ! n))))))"
proof -
  have env: "ctb_network_order E" "uv_logs E" "loop_logs L"
    using assms(1) by (simp_all add: surroundings_def at_start_def)
  obtain A where self: "self = at_self A" and inv0: "clt_inv E A inp (w1, [], [], True)" and b: "b = at_buv A"
    using client_start_ok [OF assms(1,2), of files path inp prog lp] assms(3-5) by auto
  from inv_steps [OF assms(6) [unfolded self b] inv0 env] show ?thesis
  proof (rule clt_invE)
    fix bu mm sent
    assume i: "clt_fix A w bu mm" "clt_lines E A inp mm sent (w, wire, fl, c)" "well_used (uv w)"
    have all: "lines_of inp = sent @ lines_of (in_rest (app w))" using i(2) by (simp add: clt_lines_def)
    show ?thesis
    proof (cases "fl = []")
      case True
      then have "wire = frames (map line_msg sent)" using i(2) by (simp add: clt_lines_def)
      with all i(3) True show ?thesis by (intro conjI exI [of _ "length sent"]) simp_all
    next
      case False
      then have f: "sent \<noteq> []" "fl = [send_buffers (at_msg A) (msg_size E mm)]" "sendable E mm"
          "wire = frames (map line_msg (butlast sent))"
          "take (unat (msg_size E mm)) (msg_data mm) = line_msg (last sent)"
        using i(2) by (simp_all add: clt_lines_def)
      have "gather_all w (send_buffers (at_msg A) (msg_size E mm)) = Inr (frame (line_msg (last sent)))"
        using gather_send_buffers [OF env(1) clt_fixD(2) [OF i(1)] f(3)] f(5) clt_fixD(2) [OF i(1)]
        by (simp add: payload_def)
      moreover have "last sent = lines_of inp ! (length sent - 1)" "length sent - 1 < length (lines_of inp)"
          "take (length sent - 1) (lines_of inp) = butlast sent"
        using f(1) all by (cases sent rule: rev_cases; simp add: nth_append)+
      ultimately show ?thesis
        using i(3) f(2,4) by (intro conjI exI [of _ "length sent - 1"]) simp_all
    qed
  qed
qed

text \<open>A client that connects, and sends its first line.\<close>

definition blank_client :: client where
  "blank_client = \<lparr>handle_data = (\<lambda>_. None), msg = None, sock = None, terminate = True, input_eof = True,
     ready_send = True, in_rest = [], in_fails = False, in_eof = True, in_error = True\<rparr>"

abbreviation sample_address :: string where
  "sample_address \<equiv> ''tcp://'' @ ''127.0.0.1'' @ '':'' @ decimal 8765"

definition sample_files :: "string \<Rightarrow> bytes option" where
  "sample_files = [''in'' \<mapsto> [72, 105, 10]]"

lemma sample_lines: "lines_of [72, 105, 10] = [[72, 105, 10]]"
  by (subst lines_of.simps) (simp add: fgets_chunk_def MSG_MAX_SIZE_def)

lemma sample_client_run:
  "\<exists>self b w1 w bufs. client_start log_env log_loop sample_files [''client'', sample_address, ''in''] 7
      (fresh_world blank_client) = Inr (self, w1) \<and> last (uv w1) = Connect (Stream b) \<and>
    (client_step True log_env log_loop self b)\<^sup>*\<^sup>* (w1, [], [], True) (w, [], [bufs], False)"
proof -
  have sur: "surroundings log_env log_loop (fresh_world blank_client)" by (rule log_surroundings)
  then have env: "ctb_network_order (log_env :: (uv_log, client) env)" "uv_logs (log_env :: (uv_log, client) env)"
      "loop_logs log_loop" "uv_grants (log_env :: (uv_log, client) env)"
    by (simp_all add: surroundings_def at_start_def)
  obtain A w1 where start: "client_start log_env log_loop sample_files [''client'', sample_address, ''in''] 7
      (fresh_world blank_client) = Inr (at_self A, w1)" and inv: "clt_inv log_env A [72, 105, 10] (w1, [], [], True)"
    and a: "\<not> terminate (app w1)" "\<not> input_eof (app w1)" "in_rest (app w1) = [72, 105, 10]"
      "last (uv w1) = Connect (Stream (at_buv A))" "\<not> in_fails (app w1)"
    using client_start_ok [OF sur log_address, of sample_files "''in''" "[72, 105, 10]" "''client''" 7]
    by (auto simp: sample_files_def fresh_world_def blank_client_def)
  from inv obtain bu mm where fx: "clt_fix A w1 bu mm" and ha: "clt_handles A w1" by (rule clt_invE)
  have op: "stream_open A w1" "status (uv w1) (Idle (at_self A)) = Open"
    using ha a(1) by (auto simp: clt_handles_def Let_def)
  let ?w2 = "w1\<lparr>app := (app w1)\<lparr>ready_send := True\<rparr>\<rparr>"
  have fx2: "clt_fix A ?w2 bu mm" using fx by (simp add: clt_fix_def clt_app_def)
  have s1: "client_step True log_env log_loop (at_self A) (at_buv A) (w1, [], [], True) (?w2, [], [], False)"
    using connect_event [OF fx, of log_env log_loop 0] by (intro connected [OF op(1), where e = 0]) simp
  obtain w3 bufs where run: "idle_cb log_env log_loop (Idle (at_self A)) ?w2 = Inr ((), w3)"
    and "uv w3 = uv ?w2 @ [Write (Stream (at_buv A)) bufs]"
    using idle_line [OF fx2 _ _ _ _ _ env(1,2), of log_loop] a env(4) by simp
  then have "client_step True log_env log_loop (at_self A) (at_buv A) (?w2, [], [], False) (w3, [], [bufs], False)"
    using idle [OF _ run, where sig = True and b = "at_buv A" and wire = "[]" and fl = "[]" and c = False] op(2) by simp
  with s1 have "(client_step True log_env log_loop (at_self A) (at_buv A))\<^sup>*\<^sup>* (w1, [], [], True) (w3, [], [bufs], False)"
    by (meson converse_rtranclp_into_rtranclp rtranclp.rtrancl_refl)
  with start a(4) show ?thesis by blast
qed

theorem client_safe_witness:
  "\<exists>self b w1 w bufs. client_start log_env log_loop sample_files [''client'', sample_address, ''in''] 7
      (fresh_world blank_client) = Inr (self, w1) \<and>
    (client_step True log_env log_loop self b)\<^sup>*\<^sup>* (w1, [], [], True) (w, [], [bufs], False) \<and>
    well_used (uv w) \<and> gather_all w bufs = Inr [0, 0, 0, 3, 72, 105, 10]"
proof -
  obtain self b w1 w bufs where start: "client_start log_env log_loop sample_files [''client'', sample_address, ''in''] 7
      (fresh_world blank_client) = Inr (self, w1)" and b: "last (uv w1) = Connect (Stream b)"
    and steps: "(client_step True log_env log_loop self b)\<^sup>*\<^sup>* (w1, [], [], True) (w, [], [bufs], False)"
    using sample_client_run by blast
  have f: "sample_files ''in'' = Some [72, 105, 10]" by (simp add: sample_files_def)
  have "line_msg [72, 105, 10] = [72, 105, 10]" by code_simp
  then have "gather_all w bufs = Inr [0, 0, 0, 3, 72, 105, 10] \<and> well_used (uv w)"
    using client_safe [OF log_surroundings log_address f start b steps]
    by (auto simp: sample_lines frame_def be_bytes_def byte_of_def)
  with start steps show ?thesis by blast
qed


lemma maximal_run:
  assumes "\<And>n y. (R ^^ n) x y \<Longrightarrow> n \<le> (B :: nat)"
  shows "\<exists>n y. (R ^^ n) x y \<and> (\<forall>z. \<not> R y z)"
proof -
  let ?P = "\<lambda>n. \<exists>y. (R ^^ n) x y"
  have P0: "?P 0" by auto
  have bound: "\<forall>n. ?P n \<longrightarrow> n \<le> B" using assms by blast
  from GreatestI_nat [of ?P, OF P0, of B] bound obtain y where y: "(R ^^ (GREATEST n. ?P n)) x y" by auto
  have "\<not> R y z" for z
  proof
    assume "R y z"
    with y have "?P (Suc (GREATEST n. ?P n))" by (auto intro: relpowp_Suc_I)
    then have "Suc (GREATEST n. ?P n) \<le> (GREATEST n. ?P n)"
      using bound by (intro Greatest_le_nat [where b = B]) blast+
    then show False by simp
  qed
  with y show ?thesis by blast
qed


text \<open>
  Without a newline after the last line the client does not end by itself: \<open>fgets\<close> returns the line and
  meets the end of the file, so that \<open>input_eof\<close> is set and nothing wakes the loop up. From there on, until
  a signal, no event has an effect.
\<close>

lemma stalled:
  assumes inv: "clt_inv E A inp (w, wire, [], False)" and run: "\<not> terminate (app w)" "input_eof (app w)"
    and asleep: "Send (Async (at_self A)) \<notin> set (uv w)"
      "status (uv w) (Sigterm (at_self A)) = Open" "status (uv w) (Sigint (at_self A)) = Open"
    and step: "client_step False E L (at_self A) (at_buv A) (w, wire, [], False) st'"
  shows "st' = (w, wire, [], False)"
proof -
  from inv obtain bu mm where fx: "clt_fix A w bu mm" and ha: "clt_handles A w" by (rule clt_invE)
  have st: "status (uv w) (Async (at_self A)) = Open" "status (uv w) (Idle (at_self A)) = Open" "stream_open A w"
    using ha run(1) by (auto simp: clt_handles_def Let_def)
  from step show ?thesis
  proof cases
    case (idle w')
    then show ?thesis using idle_wait [OF fx run(1), of E L] run(2) by simp
  qed (use asleep st in auto)
qed

lemma client_stalls:
  assumes "surroundings E L w0" and "uri_parse E str = Inr (Inr (pr, x, y))" and "files path = Some inp"
    and "client_start E L files [prog, str, path] lp w0 = Inr (self, w1)" and "last (uv w1) = Connect (Stream b)"
    and inp: "fgets_runs_out MSG_MAX_SIZE inp" "inp \<noteq> []" and "\<not> in_fails (app w0)"
  shows "\<exists>w wire. (client_step False E L self b)\<^sup>*\<^sup>* (w1, [], [], True) (w, wire, [], False) \<and>
    \<not> terminate (app w) \<and> (\<forall>st'. client_step False E L self b (w, wire, [], False) st' \<longrightarrow> st' = (w, wire, [], False))"
proof -
  have env: "ctb_network_order E" "uv_logs E" "loop_logs L" "uv_grants E"
    using assms(1) by (simp_all add: surroundings_def at_start_def)
  obtain A where self: "self = at_self A" and b: "b = at_buv A" and inv1: "clt_inv E A inp (w1, [], [], True)"
    and a: "\<not> terminate (app w1)" "\<not> input_eof (app w1)" "in_rest (app w1) = inp" "\<not> in_fails (app w1)"
      "Send (Async (at_self A)) \<notin> set (uv w1)"
    using client_start_ok [OF assms(1,2), of files path inp prog lp] assms(3-5,8) by auto
  let ?step = "client_step False E L (at_self A) (at_buv A)"
  from inv1 obtain bu mm where fx: "clt_fix A w1 bu mm" and ha: "clt_handles A w1" by (rule clt_invE)
  have op: "stream_open A w1" "status (uv w1) (Idle (at_self A)) = Open"
      "status (uv w1) (Sigterm (at_self A)) = Open" "status (uv w1) (Sigint (at_self A)) = Open"
    using ha a(1) by (auto simp: clt_handles_def Let_def)
  let ?w2 = "w1\<lparr>app := (app w1)\<lparr>ready_send := True\<rparr>\<rparr>"
  have fx2: "clt_fix A ?w2 bu mm" using fx by (simp add: clt_fix_def clt_app_def)
  have s1: "?step (w1, [], [], True) (?w2, [], [], False)"
    using connect_event [OF fx, of E L 0] by (intro connected [OF op(1), where e = 0]) simp
  obtain w3 bufs where idle3: "idle_cb E L (Idle (at_self A)) ?w2 = Inr ((), w3)"
    and w3: "uv w3 = uv w1 @ [Write (Stream (at_buv A)) bufs]" "input_eof (app w3)" "\<not> terminate (app w3)"
    using idle_line [OF fx2 _ _ _ _ _ env(1,2), of L] a inp env(4) by simp
  have s2: "?step (?w2, [], [], False) (w3, [], [bufs], False)"
    using idle [OF _ idle3, where sig = False and b = "at_buv A" and wire = "[]" and fl = "[]" and c = False] op(2) w3(1) by simp
  have inv3: "clt_inv E A inp (w3, [], [bufs], False)"
    by (rule inv_step [OF s2 inv_step [OF s1 inv1 env(1-3)] env(1-3)])
  then obtain bu3 mm3 sent where fx3: "clt_fix A w3 bu3 mm3" and "clt_lines E A inp mm3 sent (w3, [], [bufs], False)"
    by (rule clt_invE)
  then have bufs: "bufs = send_buffers (at_msg A) (msg_size E mm3)" "sendable E mm3"
    by (simp_all add: clt_lines_def)
  have g: "gather_all w3 bufs = Inr (frame (payload E w3 (at_msg A)))"
    unfolding bufs(1) by (rule gather_send_buffers [OF env(1) clt_fixD(2) [OF fx3] bufs(2)])
  let ?w4 = "w3\<lparr>app := (app w3)\<lparr>ready_send := True\<rparr>\<rparr>" and ?wire = "[] @ frame (payload E w3 (at_msg A))"
  have s3: "?step (w3, [], [bufs], False) (?w4, ?wire, [], False)"
    using write_event [OF fx3, of E L 0] op(1) w3(1) by (intro written [OF _ g, where e = 0]) simp_all
  have "\<forall>st'. ?step (?w4, ?wire, [], False) st' \<longrightarrow> st' = (?w4, ?wire, [], False)"
    using stalled [OF inv_step [OF s3 inv3 env(1-3)]] w3 a(5) op(3,4) by simp
  moreover have "?step\<^sup>*\<^sup>* (w1, [], [], True) (?w4, ?wire, [], False)"
    using s1 s2 s3 by (meson converse_rtranclp_into_rtranclp rtranclp.rtrancl_refl)
  moreover have "\<not> terminate (app ?w4)" using w3(3) by simp
  ultimately show ?thesis
    unfolding self b by blast
qed

end
