(* ===== verification/Small_Programs.thy ===== *)
theory Small_Programs
  imports Test_Loop
begin

text \<open>
  The two short programs of the tests, on the library's own functions: \<open>test/echo_server.c\<close> prints the
  messages of one connection and ends with it; \<open>test/send_hello.c\<close> connects and sends one message.
  Neither checks what the library returns.
\<close>

section \<open>What the two share\<close>

text \<open>A variable of \<open>main\<close>: its block is there until \<open>main\<close> returns.\<close>

definition local_var :: "obj \<Rightarrow> (('u, 'a) world, addr) prog" where
  "local_var ob w = Inr (fresh w, w\<lparr>heap := (heap w)(fresh w \<mapsto> ob), fresh := Suc (fresh w)\<rparr>)"

definition end_of_scope :: "addr \<Rightarrow> (('u, 'a) world, unit) prog" where
  "end_of_scope a = upd (\<lambda>w. w\<lparr>heap := (heap w)(a := None)\<rparr>)"

text \<open>A call whose result is not looked at.\<close>

definition ignored :: "('w, 'x) prog \<Rightarrow> ('w, unit) prog" where
  "ignored m = bnd m (\<lambda>_. ret ())"

lemma local_var_simps [simp]:
  "local_var ob w = Inr (fresh w, w\<lparr>heap := (heap w)(fresh w \<mapsto> ob), fresh := Suc (fresh w)\<rparr>)"
  "end_of_scope a w = Inr ((), w\<lparr>heap := (heap w)(a := None)\<rparr>)"
  by (simp_all add: local_var_def end_of_scope_def)

lemma ignored_simp [simp]: "m w = Inr (x, w') \<Longrightarrow> ignored m w = Inr ((), w')"
  by (simp add: ignored_def)

text \<open>What \<open>sc_warn\<close> adds to the error stream.\<close>

definition warned :: "bool \<Rightarrow> string list \<Rightarrow> string list" where
  "warned nd ms = (if nd then [] else ms)"

lemma sc_warn_apply: "sc_warn m w = Inr ((), w\<lparr>stderr_lines := stderr_lines w @ warned (ndebug w) [m]\<rparr>)"
  by (simp add: sc_warn_def warned_def)

lemma warned_append [simp]: "warned nd xs @ warned nd ys = warned nd (xs @ ys)"
  by (simp add: warned_def)

lemma warned_append_left [simp]: "warned nd xs @ warned nd ys @ zs = warned nd (xs @ ys) @ zs"
  by (simp add: warned_def)

section \<open>test/echo_server.c\<close>

text \<open>The static variables \<open>server\<close> and \<open>client\<close>, and what was printed.\<close>

record echo_app =
  the_server :: "addr option"
  the_client :: "addr option"
  printed :: bytes

definition set_echo :: "(echo_app \<Rightarrow> echo_app) \<Rightarrow> (('u, echo_app) world, unit) prog" where
  "set_echo f = upd (\<lambda>w. w\<lparr>app := f (app w)\<rparr>)"

definition echo_close_socket :: "('u, 'a) env \<Rightarrow> addr option \<Rightarrow> (('u, 'a) world, unit) prog" where
  "echo_close_socket E socket =
     bnd (deref socket) (\<lambda>s.
     bnd (sc_socket_close E s) (\<lambda>errcode.
     if errcode \<noteq> 0 then bnd (sc_strerror E errcode) fatal else ret ()))"

definition echo :: "('u, echo_app) env \<Rightarrow> addr \<Rightarrow> (('u, echo_app) world, unit) prog" where
  "echo E msg =
     bnd (sc_msg_get_size E msg) (\<lambda>size.
     bnd (load_msg msg) (\<lambda>m.
     bnd (format_prec size (msg_data m)) (\<lambda>text.
     set_echo (printed_update (\<lambda>out. out @ text @ chars [newline])))))"

definition echo_on_connection ::
    "('u, echo_app) env \<Rightarrow> addr \<Rightarrow> int \<Rightarrow> (('u, echo_app) world, unit) prog" where
  "echo_on_connection E server errcode =
     (if errcode \<noteq> 0 then bnd (sc_strerror E errcode) fatal
      else bnd (gets (\<lambda>w. the_client (app w))) (\<lambda>p. bnd (deref p) (sc_socket_accept E server)))"

definition echo_on_recv ::
    "('u, echo_app) env \<Rightarrow> addr \<Rightarrow> addr option \<Rightarrow> int \<Rightarrow> (('u, echo_app) world, unit) prog" where
  "echo_on_recv E client msg errcode =
     (if errcode \<noteq> 0 then fatal ''errcode''
      else case msg of
        None \<Rightarrow>
          seq (echo_close_socket E (Some client))
          (bnd (gets (\<lambda>w. the_server (app w))) (echo_close_socket E))
      | Some m \<Rightarrow> echo E m)"

definition echo_env :: "('u, echo_app) env \<Rightarrow> ('u, echo_app) env" where
  "echo_env E =
     E\<lparr>call_event := \<lambda>f. if f = ''on_connection'' then echo_on_connection E else call_event E f,
       call_recv := \<lambda>f. if f = ''on_recv'' then echo_on_recv E else call_recv E f\<rparr>"

text \<open>\<open>main\<close> up to \<open>uv_run\<close>, and from there on; \<open>lp\<close> is the default loop.\<close>

definition echo_start :: "('u, echo_app) env \<Rightarrow> addr \<Rightarrow> (('u, echo_app) world, addr) prog" where
  "echo_start E lp =
     bnd (local_var (Uv_data lp)) (\<lambda>self.
     seq (sc_init SC_LIBUV (Some self) None None)
     (bnd (sc_socket_new E) (\<lambda>sp.
      seq (set_echo (the_server_update (\<lambda>_. sp)))
      (bnd (deref sp) (\<lambda>server.
       seq (sc_socket_on_connection server (User_fn ''on_connection''))
       (seq (ignored (sc_socket_bind E server ''tcp://127.0.0.1:8777''))
       (seq (ignored (sc_socket_listen E server 1))
       (bnd (sc_socket_new E) (\<lambda>cp.
        seq (set_echo (the_client_update (\<lambda>_. cp)))
        (bnd (deref cp) (\<lambda>client.
         seq (sc_socket_on_recv client (User_fn ''on_recv''))
         (ret self))))))))))))"

definition echo_end :: "('u, echo_app) env \<Rightarrow> addr \<Rightarrow> (('u, echo_app) world, int) prog" where
  "echo_end E self =
     bnd (gets app) (\<lambda>a.
     seq (bnd (deref (the_server a)) (sc_socket_del E))
     (seq (bnd (deref (the_client a)) (sc_socket_del E))
     (seq (end_of_scope self)
     (ret 0))))"

text \<open>
  What the loop reports: a connection; what arrives on it, in the pieces \<open>bss\<close>; its end; that the two
  handles the program closed then are closed, in the order \<open>clt_first\<close> says.
\<close>

definition echo_session ::
    "(uv_log, echo_app) env \<Rightarrow> u64 \<Rightarrow> bytes list \<Rightarrow> bool \<Rightarrow> ((uv_log, echo_app) world, unit) prog" where
  "echo_session E sg bss clt_first =
     bnd (gets app) (\<lambda>a.
     let server = via_socket (the_server a); client = via_socket (the_client a); T = echo_env E in
     seq (server (\<lambda>b. on_connection_wrap T b 0))
     (seq (client (\<lambda>b. uv_reads T b sg bss))
     (seq (client (\<lambda>b. uv_read T b sg (Failed UV_EOF)))
     (if clt_first then seq (client (stream_closed T)) (server (stream_closed T))
      else seq (server (stream_closed T)) (client (stream_closed T))))))"

definition echo_main ::
    "(uv_log, echo_app) env \<Rightarrow> addr \<Rightarrow> u64 \<Rightarrow> bytes list \<Rightarrow> bool \<Rightarrow> ((uv_log, echo_app) world, int) prog" where
  "echo_main E lp sg bss clt_first =
     bnd (echo_start E lp) (\<lambda>self. seq (echo_session E sg bss clt_first) (echo_end E self))"

section \<open>test/send_hello.c\<close>

text \<open>
  The initialiser of \<open>include/sc/msg.h\<close>; \<open>CTB_HTONL\<close> is a macro of the toolbelt. The message is a static
  variable at the address \<open>msg\<close>, its data the string literal.
\<close>

definition SC_MSG_INIT :: "(u32 \<Rightarrow> u32) \<Rightarrow> endian \<Rightarrow> u32 \<Rightarrow> bytes \<Rightarrow> sc_msg" where
  "SC_MSG_INIT CTB_HTONL e sz x = \<lparr>size_be = store32 e (CTB_HTONL sz), msg_data = x\<rparr>"

definition hello :: "(u32 \<Rightarrow> u32) \<Rightarrow> endian \<Rightarrow> sc_msg" where
  "hello CTB_HTONL e = SC_MSG_INIT CTB_HTONL e 5 (chars ''Hello'' @ [0])"

definition hello_on_connect :: "('u, 'a) env \<Rightarrow> addr \<Rightarrow> addr \<Rightarrow> int \<Rightarrow> (('u, 'a) world, unit) prog" where
  "hello_on_connect E msg socket errcode = ignored (sc_socket_send E socket msg)"

definition hello_env :: "('u, 'a) env \<Rightarrow> addr \<Rightarrow> ('u, 'a) env" where
  "hello_env E msg =
     E\<lparr>call_event := \<lambda>f. if f = ''on_connect'' then hello_on_connect E msg else call_event E f\<rparr>"

definition hello_start :: "('u, 'a) env \<Rightarrow> addr \<Rightarrow> (('u, 'a) world, addr \<times> addr) prog" where
  "hello_start E lp =
     bnd (local_var (Uv_data lp)) (\<lambda>self.
     seq (sc_init SC_LIBUV (Some self) None None)
     (bnd (sc_socket_new E) (\<lambda>p.
      bnd (deref p) (\<lambda>socket.
      seq (sc_socket_on_connect socket (User_fn ''on_connect''))
      (seq (ignored (sc_socket_connect E socket ''tcp://127.0.0.1:8765''))
      (ret (self, socket)))))))"

definition hello_end :: "('u, 'a) env \<Rightarrow> addr \<Rightarrow> addr \<Rightarrow> (('u, 'a) world, int) prog" where
  "hello_end E self socket = seq (sc_socket_del E socket) (seq (end_of_scope self) (ret 0))"

text \<open>The loop reports how connecting and how writing ended, and has nothing left to wait for.\<close>

definition hello_main ::
    "(uv_log, 'a) env \<Rightarrow> addr \<Rightarrow> addr \<Rightarrow> int \<Rightarrow> int \<Rightarrow> ((uv_log, 'a) world, int) prog" where
  "hello_main E msg lp connected written =
     bnd (hello_start E lp) (\<lambda>(self, socket).
     seq (via_socket (Some socket) (\<lambda>b. on_connect_wrap (hello_env E msg) b connected))
     (seq (via_socket (Some socket) (\<lambda>b. write_wrap (hello_env E msg) b written))
     (hello_end E self socket)))"

section \<open>The programs' functions seen from the library\<close>

lemma set_echo_apply [simp]: "set_echo f w = Inr ((), w\<lparr>app := f (app w)\<rparr>)"
  by (simp add: set_echo_def)

lemma echo_env_simps [simp]:
  "plat (echo_env E) = plat E" "host (echo_env E) = host E"
  "ctb_htonl (echo_env E) = ctb_htonl E" "ctb_ntohl (echo_env E) = ctb_ntohl E"
  "uv_close (echo_env E) = uv_close E"
  "call_event (echo_env E) ''on_connection'' = echo_on_connection E"
  "call_recv (echo_env E) ''on_recv'' = echo_on_recv E"
  by (simp_all add: echo_env_def)

lemma echo_env_size [simp]: "msg_size (echo_env E) = msg_size E"
  by (rule ext) (simp add: msg_size_def)

lemma echo_env_payload [simp]: "payload (echo_env E) = payload E"
  by (intro ext) (simp add: payload_def split: option.split obj.split)

text \<open>The line for a message, as the program means it.\<close>

definition echo_line :: "bytes \<Rightarrow> bytes" where
  "echo_line p = takeWhile (\<lambda>b. b \<noteq> 0) p @ chars [newline]"

definition note_echo :: "bytes \<Rightarrow> echo_app \<Rightarrow> echo_app" where
  "note_echo p = printed_update (\<lambda>out. out @ echo_line p)"

lemma fold_note_echo: "fold note_echo ps a = a\<lparr>printed := printed a @ concat (map echo_line ps)\<rparr>"
  by (induction ps arbitrary: a) (simp_all add: note_echo_def)

lemma echo_takes:
  assumes "cap < 2 ^ 31"
  shows "takes_messages (echo_env E) ''on_recv'' c H cap (\<lambda>_. True) note_echo"
  unfolding takes_messages_def
  using assms
  by (auto simp: echo_on_recv_def echo_def sc_msg_get_size_def format_prec_ok note_echo_def echo_line_def
      payload_def print_prec_def)


section \<open>The echo server starts\<close>

text \<open>The address both programs write as a literal.\<close>

lemma local_address:
  assumes "ctb_strtok E" and "check_port port"
  shows "uri_parse E (''tcp://127.0.0.1:'' @ port) = Inr (Inr (''tcp'', ''127.0.0.1'', Some port))"
proof -
  have "dotted_quad ''127.0.0.1''" by code_simp
  then have "tcp_form (''tcp://127.0.0.1:'' @ port) ''127.0.0.1'' port"
    unfolding tcp_form_def colons_def using assms(2) by (intro exI [of _ "[]"]) simp
  then show ?thesis by (rule uri_parse_tcp [OF assms(1)])
qed

lemma literal_ports: "check_port ''8777''" "check_port ''8765''"
  by code_simp+

text \<open>The sockets as \<open>main\<close> sets them up.\<close>

definition echo_srv :: "addr \<Rightarrow> addr \<Rightarrow> addr option \<Rightarrow> sc_socket" where
  "echo_srv s b u = (new_sock s b)\<lparr>sock_uri := u,
     sock_watcher := (sc_watcher_init s)\<lparr>on_connection := User_fn ''on_connection''\<rparr>\<rparr>"

definition echo_clt :: "addr \<Rightarrow> addr \<Rightarrow> sc_socket" where
  "echo_clt c cb = (new_sock c cb)\<lparr>sock_watcher := (sc_watcher_init c)\<lparr>on_recv := User_fn ''on_recv''\<rparr>\<rparr>"

lemma echo_sock_simps [simp]:
  "sock_backend (echo_srv s b u) = Some b" "sock_uri (echo_srv s b u) = u"
  "watcher_socket (sock_watcher (echo_srv s b u)) = s" "on_close (sock_watcher (echo_srv s b u)) = Noop_fn"
  "on_connection (sock_watcher (echo_srv s b u)) = User_fn ''on_connection''"
  "(echo_srv s b u)\<lparr>sock_uri := u'\<rparr> = echo_srv s b u'"
  "sock_backend (echo_clt c cb) = Some cb" "sock_uri (echo_clt c cb) = None"
  "watcher_socket (sock_watcher (echo_clt c cb)) = c" "on_close (sock_watcher (echo_clt c cb)) = Noop_fn"
  "on_accept (sock_watcher (echo_clt c cb)) = Noop_fn"
  "on_recv (sock_watcher (echo_clt c cb)) = User_fn ''on_recv''"
  by (simp_all add: echo_srv_def echo_clt_def new_sock_def)

definition echo_heap ::
    "addr \<Rightarrow> addr \<Rightarrow> addr \<Rightarrow> addr \<Rightarrow> addr \<Rightarrow> addr \<Rightarrow> addr \<Rightarrow> uri \<Rightarrow> string \<Rightarrow> socket_uv \<Rightarrow> (addr \<rightharpoonup> obj) \<Rightarrow>
     (addr \<rightharpoonup> obj)" where
  "echo_heap lp self s b c cb u r str bu H =
     H(self \<mapsto> Uv_data lp, s \<mapsto> Sock (echo_srv s b (Some u)), b \<mapsto> Buv bu, u \<mapsto> Uri r, Suc u \<mapsto> Str str,
       c \<mapsto> Sock (echo_clt c cb))"

lemma echo_heap_simps:
  assumes "srv_ok self s b c cb u r bu H0" and "H = echo_heap lp self s b c cb u r str bu H0"
  shows "H self = Some (Uv_data lp)" "H s = Some (Sock (echo_srv s b (Some u)))"
    "H b = Some (Buv bu)" "H c = Some (Sock (echo_clt c cb))" "H u = Some (Uri r)"
    "H (Suc u) = Some (Str str)" "H cb = None"
  using assms by (auto simp: srv_ok_def echo_heap_def)

lemma echo_start_ok:
  assumes st: "at_start E w" and tok: "ctb_strtok E" and bg: "bind_grants E"
  defines "str \<equiv> ''tcp://127.0.0.1:8777''"
  shows "\<exists>self s b c cb u r bu cbu w'. echo_start E lp w = Inr (self, w') \<and>
    srv_ok self s b c cb u r bu (heap w) \<and>
    rx_idle c cb ''on_recv'' (echo_heap lp self s b c cb u r str bu (heap w)) cbu w' \<and>
    app w' = (app w)\<lparr>the_server := Some s, the_client := Some c\<rparr> \<and>
    uv w' = [Init (Stream b), Bind (Stream b), Listen (Stream b)] \<and> backend w' = Some Buv_funcs \<and>
    buv_data w' = Some self \<and> stderr_lines w' = stderr_lines w \<and> ndebug w' = ndebug w"
proof -
  have wf: "wf_heap w" and mem: "\<forall>k. malloc_ok w k" and ul: "uv_logs E" and sd: "strdup_mallocs E"
    and ma: "msg_alloc w = Default_heap_alloc" "msg_free w = Default_heap_free" "uv w = []"
    using st by (simp_all add: at_start_def)
  have parse: "uri_parse E str = Inr (Inr (''tcp'', ''127.0.0.1'', Some (''8777'')))"
    using local_address [OF tok literal_ports(1)] by (simp add: str_def)
  define f where "f = fresh w"
  have none: "heap w (k + f) = None" for k
    using wf by (simp add: f_def wf_heap_ge)
  let ?s = "Suc f" and ?b = "Suc (Suc f)" and ?u = "Suc (Suc (Suc f))"
  let ?c = "Suc (Suc ?u)" and ?cb = "Suc (Suc (Suc ?u))"
  let ?w1 = "w\<lparr>heap := (heap w)(f \<mapsto> Uv_data lp), fresh := Suc f, buv_data := Some f, backend := Some Buv_funcs\<rparr>"
  have wf1: "wf_heap ?w1"
    using wf by (auto simp: wf_heap_def f_def less_Suc_eq)
  let ?sbu = "inited_buv E ?b ?s (junk_buv w)"
  let ?w2 = "?w1\<lparr>heap := (heap ?w1)(?s \<mapsto> Sock (echo_srv ?s ?b None), ?b \<mapsto> Buv ?sbu), fresh := Suc ?b,
      app := (app w)\<lparr>the_server := Some ?s\<rparr>\<rparr>"
  have wf2: "wf_heap ?w2"
    using wf1 by (auto simp: wf_heap_def less_Suc_eq)
  have live: "live ?s ?b (echo_srv ?s ?b None) ?sbu ?w2"
    by (simp add: live_def inited_buv_def)
  let ?r = "parsed_uri (junk_uri w) (Suc ?u) ''tcp'' ''127.0.0.1'' (Some (''8777''))"
  obtain bu where
    bind: "sc_socket_bind E ?s str ?w2 = Inr (0, ?w2\<lparr>fresh := Suc (Suc ?u),
        heap := (heap ?w2)(?s \<mapsto> Sock (echo_srv ?s ?b (Some ?u)), ?b \<mapsto> Buv bu, ?u \<mapsto> Uri ?r, Suc ?u \<mapsto> Str str),
        uv := [Init (Stream ?b), Bind (Stream ?b)]\<rparr>)"
    and bu: "uv_proto bu \<in> {PROTO_PIPE, PROTO_TCP}" "uv_watcher bu = ?s" "stream_data bu = Some ?b"
      "connect_data bu = Some ?b" "write_data bu = Some ?b"
    using socket_bind_granted [OF ul bg sd parse wf2 _ _ _ _ live, of f lp] mem ma(3) by auto
  let ?cbu = "inited_buv E ?cb ?c (junk_buv w)"
  define w3 where "w3 = ?w2\<lparr>fresh := ?c,
        heap := (heap ?w2)(?s \<mapsto> Sock (echo_srv ?s ?b (Some ?u)), ?b \<mapsto> Buv bu, ?u \<mapsto> Uri ?r, Suc ?u \<mapsto> Str str),
        uv := [Init (Stream ?b), Bind (Stream ?b), Listen (Stream ?b)]\<rparr>"
  have wf3: "wf_heap w3"
    using wf2 unfolding w3_def by (auto simp: wf_heap_def less_Suc_eq)
  have w3: "fresh w3 = ?c" "junk_buv w3 = junk_buv w" "backend w3 = Some Buv_funcs" "malloc_ok w3 = malloc_ok w"
    by (simp_all add: w3_def)
  have listen: "ignored (sc_socket_listen E ?s 1) (w3\<lparr>uv := [Init (Stream ?b), Bind (Stream ?b)]\<rparr>) = Inr ((), w3)"
    using ul by (simp add: ignored_def sc_socket_listen_def buv_listen_def w3_def)
  let ?w4 = "w3\<lparr>heap := (heap w3)(?c \<mapsto> Sock (echo_clt ?c ?cb), ?cb \<mapsto> Buv ?cbu), fresh := Suc ?cb,
      app := (app w)\<lparr>the_server := Some ?s, the_client := Some ?c\<rparr>\<rparr>"
  have new2: "sc_socket_new E w3 = Inr (Some ?c, w3\<lparr>heap := (heap w3)(?c \<mapsto> Sock (new_sock ?c ?cb), ?cb \<mapsto> Buv ?cbu),
      fresh := Suc ?cb\<rparr>)"
    using uv_socket_new [OF wf3, of E] mem by (simp add: w3)
  let ?v1 = "?w1\<lparr>heap := (heap ?w1)(?s \<mapsto> Sock (new_sock ?s ?b), ?b \<mapsto> Buv ?sbu), fresh := Suc ?b\<rparr>"
  have new1: "sc_socket_new E ?w1 = Inr (Some ?s, ?v1)"
    using uv_socket_new [OF wf1, of E] mem by simp
  have set1: "sc_socket_on_connection ?s (User_fn ''on_connection'') (?v1\<lparr>app := (app w)\<lparr>the_server := Some ?s\<rparr>\<rparr>) =
      Inr ((), ?w2)"
    by (simp add: sc_socket_on_connection_def echo_srv_def new_sock_def fun_upd_twist)
  have set2: "sc_socket_on_recv ?c (User_fn ''on_recv'') (w3\<lparr>heap := (heap w3)(?c \<mapsto> Sock (new_sock ?c ?cb), ?cb \<mapsto> Buv ?cbu),
      fresh := Suc ?cb, app := (app w)\<lparr>the_server := Some ?s, the_client := Some ?c\<rparr>\<rparr>) = Inr ((), ?w4)"
    by (simp add: sc_socket_on_recv_def echo_clt_def new_sock_def fun_upd_twist)
  have bind': "ignored (sc_socket_bind E ?s str) ?w2 = Inr ((), w3\<lparr>uv := [Init (Stream ?b), Bind (Stream ?b)]\<rparr>)"
    using bind by (simp add: w3_def)
  have app3: "app w3 = (app w)\<lparr>the_server := Some ?s\<rparr>" by (simp add: w3_def)
  have run: "echo_start E lp w = Inr (f, ?w4)"
    using new1 set1 bind' listen new2 set2 app3
    by (simp add: echo_start_def sc_init_def backend_uv_init_def backend_init_def sc_msg_init_allocator_def
        f_def [symmetric] str_def [symmetric])
  have ok: "srv_ok f ?s ?b ?c ?cb ?u ?r bu (heap w)"
    using bu none [of 0] none [of 1] none [of 2] none [of 3] none [of 4] none [of 5] none [of 6]
    by (simp add: srv_ok_def parsed_uri_def numeral_eq_Suc)
  let ?H = "echo_heap lp f ?s ?b ?c ?cb ?u ?r str bu (heap w)"
  have H: "heap ?w4 = ?H(?cb \<mapsto> Buv ?cbu)"
    by (simp add: echo_heap_def w3_def fun_upd_twist)
  have "wf_heap ?w4"
    using wf3 by (auto simp: wf_heap_def less_Suc_eq w3(1))
  then have "rx_idle ?c ?cb ''on_recv'' ?H ?cbu ?w4"
    using echo_heap_simps(4,7) [OF ok refl, of lp str] H mem ma
    by (simp add: rx_idle_def rx_base_def inited_buv_def w3_def)
  with run ok show ?thesis
    by (fastforce simp: w3_def)
qed


section \<open>The echo server's events\<close>

lemma echo_connection_ok:
  assumes ok: "srv_ok self s b c cb u r bu H0" and H: "H = echo_heap lp self s b c cb u r str bu H0"
    and w: "rx_idle c cb ''on_recv'' H cbu w" "the_client (app w) = Some c" "backend w = Some Buv_funcs"
      "buv_data w = Some self"
    and ug: "uv_logs E" "uv_grants E"
  shows "on_connection_wrap (echo_env E) b 0 w =
    Inr ((), w\<lparr>heap := H(cb \<mapsto> Buv (cbu\<lparr>uv_proto := uv_proto bu\<rparr>)),
      uv := uv w @ [Init (Stream cb), Accept (Stream b) (Stream cb), Read_start (Stream cb)],
      stderr_lines := stderr_lines w @ warned (ndebug w) [NOTSET_WARNING ''on_accept'']\<rparr>)"
proof -
  note h = echo_heap_simps [OF ok H]
  have hw: "heap w = H(cb \<mapsto> Buv cbu)" and cbu: "uv_watcher cbu = c" "stream_data cbu = Some cb"
      "connect_data cbu = Some cb" "write_data cbu = Some cb"
    using w by (auto simp: rx_idle_def rx_base_def)
  have ne: "self \<noteq> cb" "s \<noteq> cb" "b \<noteq> cb" "c \<noteq> cb"
    using h by auto
  have bu: "uv_watcher bu = s" "stream_data bu = Some b" "connect_data bu = Some b"
      "write_data bu = Some b" "uv_proto bu \<in> {PROTO_PIPE, PROTO_TCP}"
    using ok by (simp_all add: srv_ok_def)
  have ls: "live s b (echo_srv s b (Some u)) bu w" and lc: "live c cb (echo_clt c cb) cbu w"
    using h hw ne bu cbu by (auto simp: live_def)
  have "sc_socket_accept E s c w =
    Inr ((), w\<lparr>heap := H(cb \<mapsto> Buv (cbu\<lparr>uv_proto := uv_proto bu\<rparr>)),
      uv := uv w @ [Init (Stream cb), Accept (Stream b) (Stream cb), Read_start (Stream cb)],
      stderr_lines := stderr_lines w @ warned (ndebug w) [NOTSET_WARNING ''on_accept'']\<rparr>)"
    using liveD [OF ls] liveD [OF lc] w(3,4) h hw ne ug bu(5)
    by (auto simp: sc_socket_accept_def buv_accept_def buv_loop_apply fire_defs noop_defs sc_warn_apply)
  then show ?thesis
    using h hw ne bu w(2)
    by (simp add: on_connection_wrap_def via_data_simp fire_defs echo_on_connection_def)
qed

text \<open>The heap once the address of the listening socket is released.\<close>

abbreviation echo_closed_heap ::
    "addr \<Rightarrow> addr \<Rightarrow> addr \<Rightarrow> addr \<Rightarrow> addr \<Rightarrow> addr \<Rightarrow> socket_uv \<Rightarrow> (addr \<rightharpoonup> obj) \<Rightarrow> (addr \<rightharpoonup> obj)" where
  "echo_closed_heap lp self s b c cb bu H \<equiv>
     H(self \<mapsto> Uv_data lp, s \<mapsto> Sock (echo_srv s b None), b \<mapsto> Buv bu, c \<mapsto> Sock (echo_clt c cb))"

lemma heap_release:
  "distinct [self, s, b, c, u, v] \<Longrightarrow> H u = None \<Longrightarrow> H v = None \<Longrightarrow>
   H(self \<mapsto> A, s \<mapsto> S0, b \<mapsto> B, u \<mapsto> U, v \<mapsto> V, c \<mapsto> C, v := None, u := None, s \<mapsto> S) =
   H(self \<mapsto> A, s \<mapsto> S, b \<mapsto> B, c \<mapsto> C)"
  by (auto simp: fun_eq_iff)

lemma echo_eof_ok:
  assumes ok: "srv_ok self s b c cb u r bu H0" and H: "H = echo_heap lp self s b c cb u r str bu H0"
    and w: "rx_rel c cb ''on_recv'' cap H w st" "the_server (app w) = Some s" "backend w = Some Buv_funcs"
    and env: "uv_logs E" "ctb_network_order E" and cap: "capacity sg = cap" "0 < cap"
  shows "\<exists>w' cbu. uv_read (echo_env E) cb sg (Failed UV_EOF) w = Inr ((), w') \<and>
    rx_idle c cb ''on_recv'' (echo_closed_heap lp self s b c cb bu H0) cbu w' \<and> app w' = app w \<and>
    uv w' = uv w @ [Close (Stream cb), Close (Stream b)] \<and>
    rx_same (w\<lparr>uv := uv w @ [Close (Stream cb), Close (Stream b)]\<rparr>) w'"
proof -
  note h = echo_heap_simps [OF ok H]
  have dist: "distinct [self, s, b, c, cb, u, Suc u]" and free: "H0 u = None" "H0 (Suc u) = None"
    and r: "uri_str r = Some (Suc u)"
    using ok by (auto simp: srv_ok_def)
  then have us: "u \<noteq> s" "Suc u \<noteq> s" by auto
  define K where "K = [s \<mapsto> Sock (echo_srv s b None)]"
  let ?D = "{s, u, Suc u}"
  have D: "?D \<subseteq> dom H" "c \<notin> ?D"
    using h dist by auto
  have H': "echo_closed_heap lp self s b c cb bu H0 = override_on H K ?D"
    using dist us free heap_release [of self s b c u "Suc u" H0] unfolding H echo_heap_def K_def
    by (simp add: override_on_insert)
  have e: "UV_EOF < 0" "- (2 ^ 31) \<le> UV_EOF" by (simp_all add: UV_EOF_def)
  show ?thesis
  proof (rule read_failed_with [OF w(1) _ cap e D H'])
    fix v assume le: "map_le H (heap v)" and v: "\<exists>bu. heap v cb = Some (Buv bu)" "app v = app w" "rx_same w v"
    have hv: "heap v s = Some (Sock (echo_srv s b (Some u)))" "heap v b = Some (Buv bu)"
        "heap v c = Some (Sock (echo_clt c cb))" "heap v u = Some (Uri r)" "heap v (Suc u) = Some (Str str)"
      using le h by (auto simp: map_le_def dom_def)
    obtain cbu where cbu: "heap v cb = Some (Buv cbu)" using v(1) by blast
    have bv: "backend v = Some Buv_funcs" "uv v = uv w" using v(3) w(3) by (simp_all add: rx_same_def)
    let ?v1 = "v\<lparr>uv := uv w @ [Close (Stream cb)]\<rparr>"
    have c1: "sc_socket_close E c v = Inr (0, ?v1)"
      using sc_close_bare [OF hv(3) _ cbu bv(1), of E] env(1) bv(2) by simp
    have "(heap v)(Suc u := None, u := None, s \<mapsto> Sock (echo_srv s b None)) = override_on (heap v) K ?D"
      using dist us unfolding K_def by (simp add: override_on_insert fun_upd_twist)
    then have c2: "sc_socket_close E s ?v1 =
        Inr (0, v\<lparr>uv := uv w @ [Close (Stream cb), Close (Stream b)], heap := override_on (heap v) K ?D\<rparr>)"
      using sc_close_addressed [of ?v1 s "echo_srv s b (Some u)" b bu u r "Suc u" str E] hv bv r env(1) by simp
    have "v\<lparr>uv := x, app := app w, heap := y\<rparr> = v\<lparr>uv := x, heap := y\<rparr>" for x y
      using v(2) by simp
    then show "call_recv (echo_env E) ''on_recv'' c None (recv_code UV_EOF) v =
        Inr ((), v\<lparr>uv := uv w @ [Close (Stream cb), Close (Stream b)], app := app w, heap := override_on (heap v) K ?D\<rparr>)"
      using c1 c2 v(2) w(2) by (simp add: recv_code_def echo_on_recv_def echo_close_socket_def)
  qed (use env in simp)
qed

text \<open>Both handles are closed; neither socket has a callback for that.\<close>

lemma echo_closed_ok:
  assumes "heap w s = Some (Sock so)" and "watcher_socket (sock_watcher so) = s"
    and "on_close (sock_watcher so) = Noop_fn" and "heap w b = Some (Buv bu)"
    and "uv_watcher bu = s" and "stream_data bu = Some b"
  shows "stream_closed E b w = Inr ((), w\<lparr>uv := uv w @ [Closed (Stream b)],
    stderr_lines := stderr_lines w @ warned (ndebug w) [NOTSET_WARNING ''on_close'']\<rparr>)"
  using assms
  by (simp add: stream_closed_def close_wrap_def via_data_simp fire_defs noop_defs sc_warn_apply)

lemma socket_del_addressed:
  assumes "heap w s = Some (Sock so)" and "sock_backend so = Some b" and "heap w b = Some (Buv bu)"
    and "backend w = Some Buv_funcs" and "sock_uri so = Some u" and "heap w u = Some (Uri r)"
    and "uri_str r = Some sa" and "heap w sa = Some (Str str)"
  shows "sc_socket_del E s w = Inr ((), w\<lparr>heap := (heap w)(sa := None, u := None, b := None, s := None)\<rparr>)"
proof -
  have ne: "u \<noteq> s" "sa \<noteq> s" "sa \<noteq> u" "u \<noteq> b" "sa \<noteq> b" "b \<noteq> s" using assms by auto
  have "sc_uri_del u w = Inr ((), w\<lparr>heap := (heap w)(sa := None, u := None)\<rparr>)"
    using sc_uri_del_ok [of w u r sa] assms ne by simp
  with assms ne show ?thesis by (simp add: sc_socket_del_def buv_free_def)
qed


section \<open>The echo server ends\<close>

lemma echo_end_ok:
  assumes ok: "srv_ok self s b c cb u r bu H0"
    and hw: "heap w = (echo_closed_heap lp self s b c cb bu H0)(cb \<mapsto> Buv cbu)"
    and w: "the_server (app w) = Some s" "the_client (app w) = Some c" "backend w = Some Buv_funcs"
  shows "echo_end E self w = Inr (0, w\<lparr>heap := H0\<rparr>)"
proof -
  have dist: "distinct [self, s, b, c, cb]" and free: "H0 self = None" "H0 s = None" "H0 b = None"
      "H0 c = None" "H0 cb = None"
    using ok by (auto simp: srv_ok_def)
  have h: "heap w s = Some (Sock (echo_srv s b None))" "heap w b = Some (Buv bu)"
      "heap w c = Some (Sock (echo_clt c cb))" "heap w cb = Some (Buv cbu)"
    using dist unfolding hw by auto
  let ?w1 = "w\<lparr>heap := (heap w)(b := None, s := None)\<rparr>"
  have d1: "sc_socket_del E s w = Inr ((), ?w1)"
    by (rule socket_del_bare [OF h(1) _ h(2) w(3)]) simp_all
  have "heap ?w1 c = Some (Sock (echo_clt c cb))" "heap ?w1 cb = Some (Buv cbu)"
    using h dist by auto
  from socket_del_bare [OF this(1) _ this(2), of E] w(3)
  have d2: "sc_socket_del E c ?w1 = Inr ((), w\<lparr>heap := (heap w)(b := None, s := None, cb := None, c := None)\<rparr>)"
    by simp
  have "(heap w)(b := None, s := None, cb := None, c := None, self := None) = H0"
    using free unfolding hw by (auto simp: fun_eq_iff)
  with d1 d2 w show ?thesis by (simp add: echo_end_def)
qed

lemma echo_end_unused:
  assumes ok: "srv_ok self s b c cb u r bu H0"
    and hw: "heap w = (echo_heap lp self s b c cb u r str bu H0)(cb \<mapsto> Buv cbu)"
    and w: "the_server (app w) = Some s" "the_client (app w) = Some c" "backend w = Some Buv_funcs"
  shows "echo_end E self w = Inr (0, w\<lparr>heap := H0\<rparr>)"
proof -
  note h0 = echo_heap_simps [OF ok refl, of lp str]
  have dist: "distinct [self, s, b, c, cb, u, Suc u]" and r: "uri_str r = Some (Suc u)"
    using ok by (simp_all add: srv_ok_def)
  have free: "\<forall>a \<in> {self, s, b, c, cb, u, Suc u}. H0 a = None" using ok by (simp add: srv_ok_def)
  have h: "heap w s = Some (Sock (echo_srv s b (Some u)))" "heap w b = Some (Buv bu)"
      "heap w c = Some (Sock (echo_clt c cb))" "heap w cb = Some (Buv cbu)" "heap w u = Some (Uri r)"
      "heap w (Suc u) = Some (Str str)"
    using dist h0 unfolding hw by auto
  let ?H1 = "(heap w)(Suc u := None, u := None, b := None, s := None)"
  have d1: "sc_socket_del E s w = Inr ((), w\<lparr>heap := ?H1\<rparr>)"
    by (rule socket_del_addressed [OF h(1) _ h(2) w(3) _ h(5) r h(6)]) simp_all
  have "heap (w\<lparr>heap := ?H1\<rparr>) c = Some (Sock (echo_clt c cb))" "heap (w\<lparr>heap := ?H1\<rparr>) cb = Some (Buv cbu)"
    using h dist by auto
  from socket_del_bare [OF this(1) _ this(2), of E] w(3)
  have d2: "sc_socket_del E c (w\<lparr>heap := ?H1\<rparr>) = Inr ((), w\<lparr>heap := ?H1(cb := None, c := None)\<rparr>)"
    by simp
  have "?H1(cb := None, c := None, self := None) = H0"
    using free unfolding hw echo_heap_def by (auto simp: fun_eq_iff)
  with d1 d2 w show ?thesis by (simp add: echo_end_def)
qed

section \<open>A run of the echo server\<close>

definition echo_log :: "addr \<Rightarrow> addr \<Rightarrow> bool \<Rightarrow> uv_log" where
  "echo_log b cb clt_first =
     [Init (Stream cb), Accept (Stream b) (Stream cb), Read_start (Stream cb), Close (Stream cb), Close (Stream b)] @
     (if clt_first then [Closed (Stream cb), Closed (Stream b)] else [Closed (Stream b), Closed (Stream cb)])"

text \<open>The connection, the messages and the end of the stream.\<close>

lemma echo_served_ok:
  assumes ok: "srv_ok self s b c cb u r bu H0" and H: "H = echo_heap lp self s b c cb u r str bu H0"
    and idle: "rx_idle c cb ''on_recv'' H cbu w" and st: "the_server (app w) = Some s" "the_client (app w) = Some c"
      "backend w = Some Buv_funcs" "buv_data w = Some self"
    and env: "uv_logs E" "uv_grants E" "ctb_network_order E"
    and cap: "capacity sg = cap" "0 < cap" "cap < 2 ^ 31" and ps: "carries cap bss ps"
  shows "\<exists>w1 w2 w3 cbu'. on_connection_wrap (echo_env E) b 0 w = Inr ((), w1) \<and>
    uv_reads (echo_env E) cb sg bss w1 = Inr ((), w2) \<and> uv_read (echo_env E) cb sg (Failed UV_EOF) w2 = Inr ((), w3) \<and>
    map_le H (heap w1) \<and> map_le H (heap w2) \<and>
    rx_idle c cb ''on_recv'' (echo_closed_heap lp self s b c cb bu H0) cbu' w3 \<and>
    app w3 = (app w)\<lparr>printed := printed (app w) @ concat (map echo_line ps)\<rparr> \<and>
    uv w3 = uv w @ [Init (Stream cb), Accept (Stream b) (Stream cb), Read_start (Stream cb),
      Close (Stream cb), Close (Stream b)] \<and>
    stderr_lines w3 = stderr_lines w @ warned (ndebug w) [NOTSET_WARNING ''on_accept''] \<and>
    ndebug w3 = ndebug w \<and> backend w3 = Some Buv_funcs"
proof -
  let ?T = "echo_env E" and ?f = "''on_recv''"
  let ?w1 = "w\<lparr>heap := H(cb \<mapsto> Buv (cbu\<lparr>uv_proto := uv_proto bu\<rparr>)),
      uv := uv w @ [Init (Stream cb), Accept (Stream b) (Stream cb), Read_start (Stream cb)],
      stderr_lines := stderr_lines w @ warned (ndebug w) [NOTSET_WARNING ''on_accept'']\<rparr>"
  note conn = echo_connection_ok [OF ok H idle st(2-4) env(1,2)]
  have "rx_idle c cb ?f H (cbu\<lparr>uv_proto := uv_proto bu\<rparr>) ?w1"
    using idle by (auto simp: rx_idle_def rx_base_def wf_heap_def)
  then have rel1: "rx_rel c cb ?f cap H ?w1 ([], [])" by (rule rx_rel_idle)
  have rx: "rx_run bss ([], []) = (([], []), ps)" and ch: "rx_chunks cap bss ([], [])"
    using ps by (auto simp: carries_def intro: rx_run_frames)
  have net: "ctb_network_order ?T" using env(3) by simp
  from read_steps_take [OF rel1 ch net cap(1) echo_takes [OF cap(3)]] rx obtain w2 where
    reads: "uv_reads ?T cb sg bss ?w1 = Inr ((), w2)" and rel2: "rx_rel c cb ?f cap H w2 ([], [])"
    and w2: "app w2 = fold note_echo ps (app ?w1)" "rx_same ?w1 w2" by auto
  have "the_server (app w2) = Some s" "backend w2 = Some Buv_funcs"
    using w2 st by (simp_all add: fold_note_echo rx_same_def)
  from echo_eof_ok [OF ok H rel2 this env(1,3) cap(1,2)] obtain w3 cbu' where
    eof: "uv_read ?T cb sg (Failed UV_EOF) w2 = Inr ((), w3)"
    and idle3: "rx_idle c cb ?f (echo_closed_heap lp self s b c cb bu H0) cbu' w3"
    and w3: "app w3 = app w2" "uv w3 = uv w2 @ [Close (Stream cb), Close (Stream b)]"
      "rx_same (w2\<lparr>uv := uv w2 @ [Close (Stream cb), Close (Stream b)]\<rparr>) w3" by blast
  show ?thesis
    using conn reads eof idle3 rx_rel_le [OF rel1] rx_rel_le [OF rel2] w2 w3 st(3)
    by (intro exI [of _ ?w1] exI [of _ w2] exI [of _ w3] exI [of _ cbu'])
      (simp add: rx_same_def fold_note_echo)
qed

lemma echo_session_ok:
  assumes ok: "srv_ok self s b c cb u r bu H0" and H: "H = echo_heap lp self s b c cb u r str bu H0"
    and idle: "rx_idle c cb ''on_recv'' H cbu w" and st: "the_server (app w) = Some s" "the_client (app w) = Some c"
      "backend w = Some Buv_funcs" "buv_data w = Some self"
    and env: "uv_logs E" "uv_grants E" "ctb_network_order E"
    and cap: "capacity sg = cap" "0 < cap" "cap < 2 ^ 31" and ps: "carries cap bss ps"
  shows "\<exists>w' cbu'. echo_session E sg bss clt_first w = Inr ((), w') \<and>
    heap w' = (echo_closed_heap lp self s b c cb bu H0)(cb \<mapsto> Buv cbu') \<and>
    app w' = (app w)\<lparr>printed := printed (app w) @ concat (map echo_line ps)\<rparr> \<and>
    uv w' = uv w @ echo_log b cb clt_first \<and> backend w' = Some Buv_funcs \<and>
    stderr_lines w' = stderr_lines w @ warned (ndebug w) (map NOTSET_WARNING [''on_accept'', ''on_close'', ''on_close''])"
proof -
  note h = echo_heap_simps [OF ok H]
  let ?T = "echo_env E"
  obtain w1 w2 w3 cbu' where ev: "on_connection_wrap ?T b 0 w = Inr ((), w1)"
      "uv_reads ?T cb sg bss w1 = Inr ((), w2)" "uv_read ?T cb sg (Failed UV_EOF) w2 = Inr ((), w3)"
    and le: "map_le H (heap w1)" "map_le H (heap w2)"
    and idle3: "rx_idle c cb ''on_recv'' (echo_closed_heap lp self s b c cb bu H0) cbu' w3"
    and w3: "app w3 = (app w)\<lparr>printed := printed (app w) @ concat (map echo_line ps)\<rparr>"
      "uv w3 = uv w @ [Init (Stream cb), Accept (Stream b) (Stream cb), Read_start (Stream cb),
        Close (Stream cb), Close (Stream b)]"
      "stderr_lines w3 = stderr_lines w @ warned (ndebug w) [NOTSET_WARNING ''on_accept'']"
      "ndebug w3 = ndebug w" "backend w3 = Some Buv_funcs"
    using echo_served_ok [OF assms] by blast
  have dist: "distinct [self, s, b, c, cb]" and bu: "uv_watcher bu = s" "stream_data bu = Some b"
    using ok by (simp_all add: srv_ok_def)
  have hw: "heap w = H(cb \<mapsto> Buv cbu)" using idle by (simp add: rx_idle_def)
  have hw3: "heap w3 = (echo_closed_heap lp self s b c cb bu H0)(cb \<mapsto> Buv cbu')"
    and cbu': "uv_watcher cbu' = c" "stream_data cbu' = Some cb"
    using idle3 by (auto simp: rx_idle_def rx_base_def)
  have "heap w s = Some (Sock (echo_srv s b (Some u)))" "heap w1 c = Some (Sock (echo_clt c cb))"
      "heap w2 c = Some (Sock (echo_clt c cb))"
    using hw h dist le by (auto simp: map_le_def dom_def)
  moreover have h3: "heap w3 s = Some (Sock (echo_srv s b None))" "heap w3 b = Some (Buv bu)"
      "heap w3 c = Some (Sock (echo_clt c cb))" "heap w3 cb = Some (Buv cbu')"
    using dist unfolding hw3 by auto
  moreover have "stream_closed ?T b v = Inr ((), v\<lparr>uv := uv v @ [Closed (Stream b)],
        stderr_lines := stderr_lines v @ warned (ndebug v) [NOTSET_WARNING ''on_close'']\<rparr>)"
      "stream_closed ?T cb v = Inr ((), v\<lparr>uv := uv v @ [Closed (Stream cb)],
        stderr_lines := stderr_lines v @ warned (ndebug v) [NOTSET_WARNING ''on_close'']\<rparr>)"
    if "heap v = heap w3" for v
    using that h3 bu cbu' by (simp_all add: echo_closed_ok)
  ultimately show ?thesis
    using ev st w3 hw3
    by (simp add: echo_session_def Let_def echo_log_def) (rule exI [of _ cbu'], simp)
qed

lemma echo_logs:
  assumes "b \<noteq> cb"
  shows "status ([Init (Stream b), Bind (Stream b), Listen (Stream b)] @ echo_log b cb clt_first) = (\<lambda>_. Absent)"
    and "well_used ([Init (Stream b), Bind (Stream b), Listen (Stream b)] @ echo_log b cb clt_first)"
  using assms by (auto simp: echo_log_def status_def well_used_def fun_eq_iff)

section \<open>The two programs\<close>



text \<open>The run of the script \<open>test_echo_server\<close>: records of 3, 21 and 4 bytes.\<close>

definition blank_echo :: echo_app where
  "blank_echo = \<lparr>the_server = None, the_client = None, printed = []\<rparr>"


text \<open>
  If binding was put off or listening fails (the port is in use), no event ever comes: the program prints nothing,
  reports nothing and ends with code 0; the handle it initialised is released while it is still open.
\<close>

lemma echo_fails_quietly:
  assumes "at_start E w" and "ctb_strtok E" and "bind_grants E"
  shows "\<exists>b w'. bnd (echo_start E lp) (echo_end E) w = Inr (0, w') \<and> printed (app w') = printed (app w) \<and>
    stderr_lines w' = stderr_lines w \<and> heap w' = heap w \<and> status (uv w') (Stream b) = Open"
proof -
  obtain self s b c cb u r bu cbu w1 where
    start: "echo_start E lp w = Inr (self, w1)" and ok: "srv_ok self s b c cb u r bu (heap w)"
    and idle: "rx_idle c cb ''on_recv'' (echo_heap lp self s b c cb u r ''tcp://127.0.0.1:8777'' bu (heap w)) cbu w1"
    and st: "app w1 = (app w)\<lparr>the_server := Some s, the_client := Some c\<rparr>"
      "uv w1 = [Init (Stream b), Bind (Stream b), Listen (Stream b)]" "backend w1 = Some Buv_funcs"
      "stderr_lines w1 = stderr_lines w"
    using echo_start_ok [OF assms, of lp] by blast
  have "echo_end E self w1 = Inr (0, w1\<lparr>heap := heap w\<rparr>)"
    using idle st by (intro echo_end_unused [OF ok]) (simp_all add: rx_idle_def)
  with start st show ?thesis
    by (intro exI [of _ b] exI [of _ "w1\<lparr>heap := heap w\<rparr>"]) (simp add: status_def)
qed


section \<open>A run of \<open>send_hello\<close>\<close>

definition hello_sock :: "addr \<Rightarrow> addr \<Rightarrow> addr option \<Rightarrow> sc_socket" where
  "hello_sock s b u = (new_sock s b)\<lparr>sock_uri := u,
     sock_watcher := (sc_watcher_init s)\<lparr>on_connect := User_fn ''on_connect''\<rparr>\<rparr>"

lemma hello_sock_simps [simp]:
  "sock_backend (hello_sock s b u) = Some b" "sock_uri (hello_sock s b u) = u"
  "watcher_socket (sock_watcher (hello_sock s b u)) = s" "on_send (sock_watcher (hello_sock s b u)) = Noop_fn"
  "on_connect (sock_watcher (hello_sock s b u)) = User_fn ''on_connect''"
  "(hello_sock s b u)\<lparr>sock_uri := u'\<rparr> = hello_sock s b u'"
  by (simp_all add: hello_sock_def new_sock_def)

lemma hello_env_simps [simp]: "call_event (hello_env E msg) ''on_connect'' = hello_on_connect E msg"
  by (simp add: hello_env_def)

text \<open>The blocks of the running program.\<close>

definition hello_ok :: "addr \<Rightarrow> addr \<Rightarrow> addr \<Rightarrow> addr \<Rightarrow> uri \<Rightarrow> socket_uv \<Rightarrow> (addr \<rightharpoonup> obj) \<Rightarrow> bool" where
  "hello_ok self s b u r bu H \<longleftrightarrow>
     distinct [self, s, b, u, Suc u] \<and> (\<forall>a \<in> {self, s, b, u, Suc u}. H a = None) \<and> uri_str r = Some (Suc u) \<and>
     uv_watcher bu = s \<and> stream_data bu = Some b \<and> connect_data bu = Some b \<and> write_data bu = Some b"

definition hello_heap ::
    "addr \<Rightarrow> addr \<Rightarrow> addr \<Rightarrow> addr \<Rightarrow> addr \<Rightarrow> uri \<Rightarrow> string \<Rightarrow> socket_uv \<Rightarrow> (addr \<rightharpoonup> obj) \<Rightarrow> (addr \<rightharpoonup> obj)" where
  "hello_heap lp self s b u r str bu H =
     H(self \<mapsto> Uv_data lp, s \<mapsto> Sock (hello_sock s b (Some u)), u \<mapsto> Uri r, Suc u \<mapsto> Str str, b \<mapsto> Buv bu)"

lemma hello_heap_simps:
  assumes "hello_ok self s b u r bu0 H0" and "H = hello_heap lp self s b u r str bu H0"
  shows "H s = Some (Sock (hello_sock s b (Some u)))" "H b = Some (Buv bu)" "H u = Some (Uri r)"
    "H (Suc u) = Some (Str str)" "H(b \<mapsto> Buv bu') = hello_heap lp self s b u r str bu' H0"
    "H0 a \<noteq> None \<Longrightarrow> H a = H0 a"
  using assms by (auto simp: hello_ok_def hello_heap_def)

lemma hello_start_ok:
  assumes st: "at_start E w" and tok: "ctb_strtok E" and ug: "uv_grants E"
  defines "str \<equiv> ''tcp://127.0.0.1:8765''"
  shows "\<exists>self s b u r bu w'. hello_start E lp w = Inr ((self, s), w') \<and> hello_ok self s b u r bu (heap w) \<and>
    heap w' = hello_heap lp self s b u r str bu (heap w) \<and> backend w' = Some Buv_funcs \<and>
    uv w' = [Init (Stream b), Connect (Stream b)] \<and> stderr_lines w' = stderr_lines w \<and> ndebug w' = ndebug w"
proof -
  have wf: "wf_heap w" and mem: "\<forall>k. malloc_ok w k" and ul: "uv_logs E" and sd: "strdup_mallocs E" and uv: "uv w = []"
    using st by (simp_all add: at_start_def)
  have parse: "uri_parse E str = Inr (Inr (''tcp'', ''127.0.0.1'', Some ''8765''))"
    using local_address [OF tok literal_ports(2)] by (simp add: str_def)
  define f where "f = fresh w"
  have none: "heap w (k + f) = None" for k
    using wf by (simp add: f_def wf_heap_ge)
  let ?s = "Suc f" and ?b = "Suc (Suc f)" and ?u = "Suc (Suc (Suc f))"
  let ?w1 = "w\<lparr>heap := (heap w)(f \<mapsto> Uv_data lp), fresh := Suc f, buv_data := Some f, backend := Some Buv_funcs\<rparr>"
  have wf1: "wf_heap ?w1"
    using wf by (auto simp: wf_heap_def f_def less_Suc_eq)
  let ?bu = "inited_buv E ?b ?s (junk_buv w)"
  let ?v1 = "?w1\<lparr>heap := (heap ?w1)(?s \<mapsto> Sock (new_sock ?s ?b), ?b \<mapsto> Buv ?bu), fresh := Suc ?b\<rparr>"
  let ?w2 = "?w1\<lparr>heap := (heap ?w1)(?s \<mapsto> Sock (hello_sock ?s ?b None), ?b \<mapsto> Buv ?bu), fresh := Suc ?b\<rparr>"
  have new: "sc_socket_new E ?w1 = Inr (Some ?s, ?v1)"
    using uv_socket_new [OF wf1, of E] mem by simp
  have set1: "sc_socket_on_connect ?s (User_fn ''on_connect'') ?v1 = Inr ((), ?w2)"
    by (simp add: sc_socket_on_connect_def hello_sock_def new_sock_def fun_upd_twist)
  have wf2: "wf_heap ?w2"
    using wf1 by (auto simp: wf_heap_def less_Suc_eq)
  have live: "live ?s ?b (hello_sock ?s ?b None) ?bu ?w2"
    by (simp add: live_def inited_buv_def)
  let ?r = "parsed_uri (junk_uri w) (Suc ?u) ''tcp'' ''127.0.0.1'' (Some ''8765'')"
  obtain bu where
    conn: "sc_socket_connect E ?s str ?w2 = Inr (0, ?w2\<lparr>fresh := Suc (Suc ?u),
        heap := (heap ?w2)(?s \<mapsto> Sock (hello_sock ?s ?b (Some ?u)), ?b \<mapsto> Buv bu, ?u \<mapsto> Uri ?r, Suc ?u \<mapsto> Str str),
        uv := [Init (Stream ?b), Connect (Stream ?b)]\<rparr>)" (is "_ = Inr (0, ?w3)")
    and bu: "uv_watcher bu = ?s" "stream_data bu = Some ?b" "connect_data bu = Some ?b" "write_data bu = Some ?b"
    using socket_connect_granted [OF ul ug sd parse wf2 _ _ _ _ live, of f lp] mem uv by auto
  have "hello_start E lp w = Inr ((f, ?s), ?w3)"
    using new set1 conn
    by (simp add: hello_start_def sc_init_def backend_uv_init_def backend_init_def sc_msg_init_allocator_def
        f_def [symmetric] str_def [symmetric])
  moreover have "hello_ok f ?s ?b ?u ?r bu (heap w)"
    using bu none [of 0] none [of 1] none [of 2] none [of 3] none [of 4]
    by (simp add: hello_ok_def parsed_uri_def numeral_eq_Suc)
  moreover have "heap ?w3 = hello_heap lp f ?s ?b ?u ?r str bu (heap w)"
    by (simp add: hello_heap_def fun_upd_twist)
  ultimately show ?thesis by fastforce
qed

lemma hello_sendable:
  assumes "network_order (host E) HT (ctb_ntohl E)"
  shows "msg_size E (hello HT (host E)) = 5" "sendable E (hello HT (host E))"
    "heap w a = Some (Msg (hello HT (host E))) \<Longrightarrow> payload E w a = chars ''Hello''"
proof -
  have "msg_size E (hello HT (host E)) = ctb_ntohl E (HT 5)"
    by (simp add: msg_size_def hello_def SC_MSG_INIT_def)
  then show size: "msg_size E (hello HT (host E)) = 5"
    using network_order.ntohl_htonl [OF assms] by simp
  then show "sendable E (hello HT (host E))"
    by (simp add: sendable_def) (simp add: hello_def SC_MSG_INIT_def)
  show "payload E w a = chars ''Hello''" if "heap w a = Some (Msg (hello HT (host E)))"
    using that size by (simp add: payload_def) (simp add: hello_def SC_MSG_INIT_def)
qed


text \<open>The two events, whatever libuv reports with them, and the end.\<close>

lemma hello_events_ok:
  assumes ok: "hello_ok self s b u r bu H0" and hw: "heap w = hello_heap lp self s b u r str bu H0"
    and st: "backend w = Some Buv_funcs" and ul: "uv_logs E" and a: "H0 a = Some (Msg m)"
  defines "bufs \<equiv> send_buffers a (msg_size E m)"
  shows "via_socket (Some s) (\<lambda>b. on_connect_wrap (hello_env E a) b connected) w =
      Inr ((), w\<lparr>heap := hello_heap lp self s b u r str (bu\<lparr>write_buffers := bufs\<rparr>) H0,
        uv := uv w @ [Write (Stream b) bufs]\<rparr>)"
    and "heap v = hello_heap lp self s b u r str (bu\<lparr>write_buffers := bufs\<rparr>) H0 \<Longrightarrow>
      via_socket (Some s) (\<lambda>b. write_wrap (hello_env E a) b written) v =
      Inr ((), v\<lparr>stderr_lines := stderr_lines v @ warned (ndebug v) [NOTSET_WARNING ''on_send'']\<rparr>)"
proof -
  note h = hello_heap_simps [OF ok]
  have ba: "a \<noteq> b" and bu: "uv_watcher bu = s" "connect_data bu = Some b" "write_data bu = Some b"
    using ok a by (auto simp: hello_ok_def)
  have m: "heap w a = Some (Msg m)" using h(6) [OF hw, of a] a by simp
  have "sc_socket_send E s a w = Inr (fst (uv_write E b bufs (uv w)),
      w\<lparr>heap := (heap w)(b \<mapsto> Buv (bu\<lparr>write_buffers := bufs\<rparr>)), uv := uv w @ [Write (Stream b) bufs]\<rparr>)"
    using h(1,2) [OF hw] st ul buv_send_ok [OF h(2) [OF hw] m, of E]
    by (simp add: sc_socket_send_def bufs_def)
  then show "via_socket (Some s) (\<lambda>b. on_connect_wrap (hello_env E a) b connected) w =
      Inr ((), w\<lparr>heap := hello_heap lp self s b u r str (bu\<lparr>write_buffers := bufs\<rparr>) H0,
        uv := uv w @ [Write (Stream b) bufs]\<rparr>)"
    using h(1,2,5) [OF hw] bu
    by (simp add: on_connect_wrap_def via_data_simp fire_defs hello_on_connect_def)
  assume hv: "heap v = hello_heap lp self s b u r str (bu\<lparr>write_buffers := bufs\<rparr>) H0"
  show "via_socket (Some s) (\<lambda>b. write_wrap (hello_env E a) b written) v =
      Inr ((), v\<lparr>stderr_lines := stderr_lines v @ warned (ndebug v) [NOTSET_WARNING ''on_send'']\<rparr>)"
    using h(1,2) [OF hv] bu
    by (simp add: write_wrap_def via_data_simp fire_defs noop_defs sc_warn_apply)
qed

lemma hello_end_ok:
  assumes ok: "hello_ok self s b u r bu0 H0" and hw: "heap w = hello_heap lp self s b u r str bu H0"
    and st: "backend w = Some Buv_funcs"
  shows "hello_end E self s w = Inr (0, w\<lparr>heap := H0\<rparr>)"
proof -
  note h = hello_heap_simps [OF ok hw]
  have r: "uri_str r = Some (Suc u)" and free: "\<forall>a \<in> {self, s, b, u, Suc u}. H0 a = None"
    using ok by (simp_all add: hello_ok_def)
  have "sc_socket_del E s w = Inr ((), w\<lparr>heap := (heap w)(Suc u := None, u := None, b := None, s := None)\<rparr>)"
    by (rule socket_del_addressed [OF h(1) _ h(2) st _ h(3) r h(4)]) simp_all
  moreover have "(heap w)(Suc u := None, u := None, b := None, s := None, self := None) = H0"
    using free unfolding hw hello_heap_def by (auto simp: fun_eq_iff)
  ultimately show ?thesis by (simp add: hello_end_def)
qed

lemma hello_record:
  "disrec_main e (\<lambda>f. if f = file then Some (frame (chars ''Hello'')) else None) [prog, file] =
    Inr (chars (''[5] (Hello)'' @ [newline]))"
proof -
  have line: "record_line (length (chars ''Hello'')) (chars ''Hello'') = chars (''[5] (Hello)'' @ [newline])"
    by code_simp
  obtain msg where "disrec_loop e (replicate MAXSIZE 0) [] (frames [chars ''Hello''] @ []) =
      disrec_loop e msg ([] @ concat (map (\<lambda>p. record_line (length p) p) [chars ''Hello''])) []"
    using disrec_frames_rest [of "[chars ''Hello'']" "replicate MAXSIZE 0" e "[]" "[]"] by (auto simp: MAXSIZE_def)
  with line show ?thesis
    by (simp add: disrec_main_def disrec_loop.simps)
qed

text \<open>C19: \<open>send_hello\<close>, with its message initialised at compile time: whatever the library and libuv report
  about connecting and writing, it asks libuv for one write, whose bytes are the frame of \<open>Hello\<close> and read
  as one record by \<open>disrec\<close>; it ends with code 0 and the heap as it was. Its socket is never closed: the
  handle is open when its memory is released.\<close>

theorem send_hello_program:
  assumes "at_start E w" and "uv_grants E" and "ctb_strtok E"
    and "network_order (host E) CTB_HTONL (ctb_ntohl E)" and "heap w a = Some (Msg (hello CTB_HTONL (host E)))"
  shows "\<exists>b bufs bs w'. hello_main E a lp connected written w = Inr (0, w') \<and>
    uv w' = [Init (Stream b), Connect (Stream b), Write (Stream b) bufs] \<and>
    gather_all w' bufs = Inr bs \<and> bs = frame (chars ''Hello'') \<and>
    disrec_main e (\<lambda>f. if f = file then Some bs else None) [prog, file] = Inr (chars (''[5] (Hello)'' @ [newline])) \<and>
    stderr_lines w' = stderr_lines w @ warned (ndebug w) [NOTSET_WARNING ''on_send''] \<and> heap w' = heap w \<and>
    heap w' b = None \<and> status (uv w') (Stream b) = Open"
proof -
  obtain self s b u r bu w1 where start: "hello_start E lp w = Inr ((self, s), w1)"
    and ok: "hello_ok self s b u r bu (heap w)"
    and w1: "heap w1 = hello_heap lp self s b u r ''tcp://127.0.0.1:8765'' bu (heap w)" "backend w1 = Some Buv_funcs"
      "uv w1 = [Init (Stream b), Connect (Stream b)]" "stderr_lines w1 = stderr_lines w" "ndebug w1 = ndebug w"
    using hello_start_ok [OF assms(1,3,2), of lp] by blast
  have env: "uv_logs E" "ctb_network_order E" using assms(1) by (simp_all add: at_start_def)
  note ev = hello_events_ok [OF ok w1(1,2) env(1) assms(5)]
  let ?m = "hello CTB_HTONL (host E)" let ?bufs = "send_buffers a (msg_size E ?m)"
  let ?w2 = "w1\<lparr>heap := hello_heap lp self s b u r ''tcp://127.0.0.1:8765'' (bu\<lparr>write_buffers := ?bufs\<rparr>) (heap w),
      uv := uv w1 @ [Write (Stream b) ?bufs]\<rparr>"
  let ?w3 = "?w2\<lparr>stderr_lines := stderr_lines w @ warned (ndebug w) [NOTSET_WARNING ''on_send'']\<rparr>"
  have "hello_end E self s ?w3 = Inr (0, ?w3\<lparr>heap := heap w\<rparr>)"
    using w1(2) by (intro hello_end_ok [OF ok]) simp_all
  then have run: "hello_main E a lp connected written w = Inr (0, ?w3\<lparr>heap := heap w\<rparr>)"
    using start ev(1) ev(2) [of ?w2 written] w1 by (simp add: hello_main_def)
  have "gather_all (?w3\<lparr>heap := heap w\<rparr>) ?bufs = Inr (frame (chars ''Hello''))"
    using gather_send_buffers [OF env(2) _ hello_sendable(2) [OF assms(4)], of "?w3\<lparr>heap := heap w\<rparr>" a]
      hello_sendable(3) [OF assms(4), of "?w3\<lparr>heap := heap w\<rparr>" a] assms(5) by simp
  moreover have "heap w b = None" using ok by (simp add: hello_ok_def)
  ultimately show ?thesis
    using run w1(3) hello_record
    by (intro exI [of _ b] exI [of _ ?bufs] exI [of _ "frame (chars ''Hello'')"] exI [of _ "?w3\<lparr>heap := heap w\<rparr>"])
      (simp add: status_def)
qed

definition hello_world :: "(uv_log, unit) world" where
  "hello_world = (fresh_world ())\<lparr>heap := [0 \<mapsto> Msg (hello (musl_htonl Little) Little)], fresh := 1\<rparr>"

theorem send_hello_program_witness:
  "\<exists>b bufs w'. hello_main log_env 0 7 0 0 hello_world = Inr (0, w') \<and>
    uv w' = [Init (Stream b), Connect (Stream b), Write (Stream b) bufs] \<and>
    gather_all w' bufs = Inr [0, 0, 0, 5, 72, 101, 108, 108, 111]"
proof -
  have "at_start log_env hello_world"
    using log_surroundings [of "()"]
    by (simp add: surroundings_def at_start_def hello_world_def fresh_world_def wf_heap_def)
  moreover have "uv_grants (log_env :: (uv_log, unit) env)" "ctb_strtok (log_env :: (uv_log, unit) env)"
    using log_surroundings [of "()"] by (simp_all add: surroundings_def log_env_def)
  moreover have "network_order (host (log_env :: (uv_log, unit) env)) (musl_htonl Little)
      (ctb_ntohl (log_env :: (uv_log, unit) env))"
    by (simp add: log_env_def musl.network_order_axioms)
  moreover have "heap hello_world 0 = Some (Msg (hello (musl_htonl Little) (host (log_env :: (uv_log, unit) env))))"
    by (simp add: hello_world_def log_env_def)
  moreover have "chars ''Hello'' = [72, 101, 108, 108, 111]" by code_simp
  then have "frame (chars ''Hello'') = [0, 0, 0, 5, 72, 101, 108, 108, 111]"
    by (simp add: frame_def be_bytes_def byte_of_def)
  ultimately show ?thesis
    using send_hello_program [of log_env hello_world "musl_htonl Little" 0 7 0 0] by fastforce
qed

end
