(* ===== verification/Spec2Isabelle.thy ===== *)
theory Spec2Isabelle
  imports UV_Types Headers Ordered_Trees Send Lifecycle Server Client_Runs Small_Programs
begin

text \<open>
  \<^bold>\<open>short-circuit\<close>: message sockets over libuv.

  The library sends and receives length-prefixed messages over pipes and TCP. A socket
  (\<open>src/socket.c\<close>) is created, given callbacks and user data, bound or connected to an address,
  and closed; it does its input and output through the installed backend, a table of functions
  (\<open>src/backend.h\<close>), of which there is one: libuv (\<open>src/backend_uv.c\<close>). The backend parses nothing
  itself: addresses are \<open>src/uri.c\<close>, the size field and the allocation of messages \<open>src/msg.c\<close>, the
  position inside a message that is arriving \<open>src/msg_reader.c\<close>. libuv calls the \<open>_wrap\<close> functions
  of the backend, which call the application through the table of callbacks of the socket
  (\<open>src/watcher.c\<close>). \<open>src/sc.c\<close> selects the backend and explains error codes. The programs under
  \<open>test/\<close> use all of it: a server that prints what it receives, a client that sends the lines of a file,
  two short programs that echo and that send one message, and tools that write and read records. The repository
  carries the headers of libuv; the code among them is \<open>uv/tree.h\<close>, red-black trees and splay
  trees as macros, a library of its own that nothing else here depends on.

  \<^bold>\<open>Method.\<close> Every function of \<open>src/\<close> is one definition, of the same name, in a state-passing
  style: a program maps a world to a fault (a NULL or dangling pointer, an access outside an array,
  a failed assertion) or to a value and a new world (theory \<open>Prelude\<close>). The world (theory \<open>World\<close>) is
  the C heap, a finite map from addresses to the program's structures as records, the static
  variables, and the states of libuv and of the application. Numbers have their C widths.
  Code that is not in the repository is a parameter (record \<open>env\<close>): the C toolbelt's functions, libuv's
  functions, the application's callbacks. What is assumed of it is stated where it is used: the
  locales \<open>network_order\<close> and \<open>strtok_s\<close> and the predicates \<open>strdup_mallocs\<close> and \<open>recv_client\<close>, for the test
  programs \<open>at_start\<close>, \<open>uv_grants\<close> and \<open>surroundings\<close>, for the integer types \<open>has_limits_h\<close>;
  theory \<open>Sample\<close> is a concrete instance on which all of them hold and the witnesses run.

  \<^bold>\<open>Theories\<close>, in the order of the code:
  \<^item> \<open>Prelude\<close>: types, faults, programs, lemmas shared by all components.
  \<^item> \<open>Byte_Order\<close>: memory images of 32-bit words, the contract of \<open>htonl\<close> and \<open>ntohl\<close> (locale
    \<open>network_order\<close>), and the functions of \<open>test/tools/endian.h\<close>, which satisfy it.
  \<^item> \<open>UV_Errno\<close>: \<open>uv/errno.h\<close> and the error map of \<open>uv.h\<close> (vendored), the library's copy of the map
    and \<open>buv_strerror\<close>; codes are distinct and every one is explained by its text. \<open>UV_Types\<close>: the
    enumerations and flags of \<open>uv.h\<close>, \<open>uv/unix.h\<close> and \<open>uv/win.h\<close>; what their users rely on are the locales
    \<open>enumeration\<close> and \<open>flags\<close>, interpreted for each of them. \<open>Headers\<close>: \<open>uv/stdint-msvc2008.h\<close>, whose types,
    limits and constants fit each other on every compiler it is for, and \<open>uv/version.h\<close>.
  \<^item> \<open>World\<close>: structures, heap, parameters, \<open>src/warn.c\<close>. \<open>C_String\<close>: \<open>strchr\<close>, \<open>strtol\<close>, the
    tokenizer of C11. \<open>Sample\<close>: the instance.
  \<^item> \<open>Msg\<close>: \<open>src/msg.c\<close>; the contract of an allocator is the locale \<open>msg_allocator\<close>.
  \<^item> \<open>Msg_Reader\<close>: \<open>src/msg_reader.c\<close>; its positions never pass the end of head or body, in
    whatever pieces the bytes come.
  \<^item> \<open>Uri\<close>, \<open>Uri_Parse\<close>: \<open>src/uri.c\<close>; the accepted language, what the accessors return, memory.
  \<^item> \<open>Watcher\<close>: \<open>src/watcher.c\<close>. \<open>Backend_UV\<close>: \<open>src/backend_uv.c\<close>, \<open>src/backend.c\<close>.
  \<^item> \<open>Socket\<close>, \<open>Socket_Calls\<close>: \<open>src/socket.c\<close>, \<open>src/sc.c\<close>; what the socket layer needs of a backend is
    the locale \<open>backend_contract\<close>; creation and release, the routing of events, the requests each
    call makes to libuv and the code it returns.
  \<^item> \<open>Framing\<close>: the abstract receiver, without pointers: a stream of frames is cut back into its
    messages. \<open>Receive\<close>: \<open>alloc_wrap\<close> and \<open>read_wrap\<close> refine it, by a forward simulation whose
    relation \<open>rx_rel\<close> also fixes the rest of the heap. \<open>Send\<close>: the buffers of a send are a frame.
  \<^item> \<open>Footprint\<close>, \<open>Lifecycle\<close>: any sequence of calls and events on any number of sockets, as a step
    relation; sockets stay well formed and apart, permitted calls return, nothing is leaked.
  \<^item> \<open>Records\<close>: the record tools of the tests, \<open>test/tools/genrec.c\<close> and \<open>disrec.c\<close>: an independent writer
    and reader of what goes over the wire; they read back what was written, and \<open>disrec\<close> decides every file.
  \<^item> \<open>Test_Loop\<close>: what the test programs share; libuv's state as the log of the calls made to it, which
    says for every handle whether it is absent, open or closing (\<open>status\<close>) and whether every call was
    allowed (\<open>well_used\<close>). \<open>Server\<close>: \<open>test/server.c\<close> on the library; a run from the start of \<open>main\<close> to its
    end, over any number of connections, writes exactly the messages and leaves nothing behind.
  \<^item> \<open>Client\<close>, \<open>Client_Runs\<close>: \<open>test/client.c\<close> on the library; its events in any order are the step relation
    \<open>client_step\<close>, with an invariant by induction over the steps and a measure that every effective event
    decreases, so every run ends, and ends with the whole input sent.
  \<^item> \<open>Small_Programs\<close>: \<open>test/echo_server.c\<close> and \<open>test/send_hello.c\<close> on the library, from the start of \<open>main\<close> to its
    end; what each prints or sends, the state it leaves, and what becomes of the errors they do not look at.
  \<^item> \<open>RB_Tree\<close>, \<open>Splay_Tree\<close>: the macros of \<open>uv/tree.h\<close>, each a program over the memory of the node
    fields, pointer by pointer; \<open>Tree_Order\<close>: what they ask of the comparison.
  \<^item> \<open>RB_Shape\<close>, \<open>RB_Invariant\<close>, \<open>RB_Insert\<close>, \<open>RB_Remove\<close>, \<open>RB_Query\<close>: the memory that stores a tree
    (\<open>rb_state w t\<close>), the red-black conditions and the bound on the height, and what each
    function does to the ascending list of the elements. \<open>Splay_Shape\<close>, \<open>Splay_Ops\<close>: the same for the
    splay trees (\<open>sp_state w t\<close>).
  \<^item> \<open>Ordered_Trees\<close>: the contract both trees meet is the locale \<open>ordered_elements\<close>, interpreted for each
    (\<open>rb_set\<close>, \<open>splay_set\<close>); they sort alike; trees under any use stay sound.
  \<^item> This theory: both ends of a connection together.

  \<^bold>\<open>Bounds.\<close> Every loop of \<open>src/\<close>, and of the test programs, is a structural recursion on the string it reads, or a recursion on a
  file that gets shorter, and needs no bound. A loop of \<open>tree.h\<close> follows pointers, which need not end on an arbitrary memory: it carries a
  number of rounds \<open>n\<close> and faults with \<open>Diverges\<close> when they are used up, so every theorem that gives a
  result says that the loops have ended. For red-black trees \<open>enough n xs\<close>, that is $(m + 1)^2 < 2^n$ for $m$
  elements, is enough for every operation, because no path is longer than $2 \lg (m + 1)$; for the loop macros and
  for splay trees, whose single operations may be linear, the number of elements is. The condition \<open>rx_chunks\<close> on what libuv delivers says that a read is not empty and fits the
  buffer that \<open>alloc_wrap\<close> offered (documented by libuv), and that the body fits the memory of the message;
  \<open>heads_safe\<close> that no read ends inside a head after zero bytes only. The last two are restrictions the
  code needs and does not enforce: \<open>receive_overflow\<close> and \<open>receive_split_head\<close> show what happens without them.

  \<^bold>\<open>Not modelled.\<close> libuv itself (its loop, its handles and its system calls): its functions are
  parameters that return a status and change libuv's state, and \<open>uv_read\<close> of theory \<open>Receive\<close> is its
  documented way of calling the two read callbacks. Its headers are declarations, other than the error
  numbers, the enumerations and flags, the integer types for Microsoft compilers and the trees. The amortised bound of splay trees that a comment of \<open>tree.h\<close> mentions is not
  proved, and a user's own definition of \<open>RB_AUGMENT\<close> is not covered: the macro is its empty default. Callbacks of the application that call back into the
  library from inside a read are covered for creation, routing and accepting (the callback is
  an arbitrary program there), not in the simulation of messages, whose client changes only the application's state
  (\<open>takes_messages\<close>), or at the end of the stream also libuv's and known blocks (\<open>read_failed_with\<close>). The scripts and the
  build files are not modelled. The run of the server is about connections one after the other: it accepts
  all of them on the one socket, and a connection that comes while another is served initialises a handle in use (\<open>connections_overlap\<close>).
\<close>

section \<open>From one socket to another\<close>

text \<open>The bytes of the buffers that a send of the message at \<open>a\<close> gives to libuv.\<close>

definition wire :: "('u, 'a) env \<Rightarrow> ('u, 'a) world \<Rightarrow> addr \<Rightarrow> fault + bytes" where
  "wire E w a =
     (case heap w a of
        Some (Msg m) \<Rightarrow> gather_all w (send_buffers a (msg_size E m))
      | _ \<Rightarrow> Inl Bad_Pointer)"

lemma wire_frames:
  assumes "ctb_network_order E"
    and "\<forall>a \<in> set as. \<exists>m. heap w a = Some (Msg m) \<and> sendable E m"
    and "list_all2 (\<lambda>a bs. wire E w a = Inr bs) as sent"
  shows "concat sent = frames (map (payload E w) as)"
  using assms(3,2)
proof (induction rule: list_all2_induct)
  case (Cons a as bs sent)
  then show ?case
    using gather_send_buffers [OF assms(1)] by (auto simp: wire_def)
qed simp

lemma payload_small: "length (payload E w a) < 2 ^ 32"
proof -
  have "unat (msg_size E m) < 2 ^ 32" for m
    using unsigned_less [of "msg_size E m", where 'a = nat] by simp
  then show ?thesis
    by (auto simp: payload_def min_less_iff_disj split: option.split obj.split)
qed

text \<open>C1: End to end. Messages sent on one host and received on another, of the same or the other
  byte order: if the stream delivers the bytes of the sends in order, cut into chunks in any way
  that fits the buffers and ends no read inside a head after only zero bytes, then the receiving
  application gets exactly the payloads that were sent, in the order of the sends, and the
  receiver is between two messages.\<close>

theorem messages_arrive:
  assumes "ctb_network_order E\<^sub>s"
    and "\<forall>a \<in> set as. \<exists>m. heap w\<^sub>s a = Some (Msg m) \<and> sendable E\<^sub>s m"
    and "list_all2 (\<lambda>a bs. wire E\<^sub>s w\<^sub>s a = Inr bs) as sent" and "concat bss = concat sent"
    and "rx_rel s b f cap H w ([], [])" and "rx_chunks cap bss ([], [])" and "heads_safe bss ([], [])"
    and "ctb_network_order E" and "capacity sg = cap" and "recv_client E f rec"
  shows "\<exists>w'. uv_reads E b sg bss w = Inr ((), w') \<and>
    app w' = deliver rec s (map (payload E\<^sub>s w\<^sub>s) as) (app w) \<and> rx_rel s b f cap H w' ([], [])"
proof -
  let ?ps = "map (payload E\<^sub>s w\<^sub>s) as"
  have "concat bss = frames ?ps"
    using wire_frames [OF assms(1-3)] assms(4) by simp
  moreover have "\<forall>p \<in> set ?ps. length p < 2 ^ 32"
    using payload_small by auto
  ultimately have "rx_run bss ([], []) = (([], []), ?ps)"
    using assms(6,7) by (intro rx_run_frames) simp_all
  then show ?thesis
    using read_steps [OF assms(5,6,8-10)] by auto
qed

theorem messages_arrive_witness:
  "\<exists>w'. uv_reads sample_env 2 65536 [[0, 0, 0, 2], [72], [105]] sample_rx = Inr ((), w') \<and>
    app w' = [(1, Some [72, 105], 0)]"
proof -
  let ?bss = "[[0, 0, 0, 2], [72], [105]] :: bytes list"
  have sent: "wire sample_env sample_sender 5 = Inr [0, 0, 0, 2, 72, 105]"
    using gather_send_buffers [OF _ sample_sender_simps(3) sample_sendable(1)] sample_sendable(2)
    by (simp add: wire_def sample_sender_simps(3) frame_def be_bytes_def byte_of_def)
  have ok: "rx_chunks 65536 ?bss ([], [])" "heads_safe ?bss ([], [])"
    by (simp_all add: rx_chunk_def rx_want_def rx_feed_def rx_add_def rx_done_def pad4_def head_safe_def)
  show ?thesis
    using messages_arrive [of sample_env "[5]" sample_sender "[[0, 0, 0, 2, 72, 105]]" ?bss,
        OF _ _ _ _ rx_rel_idle [OF sample_rx_idle] ok, of sample_env 65536 note_recv] sent
      sample_sender_simps(3) sample_sendable
    by (auto simp: note_recv_def)
qed

end
